(* ===== verification/BT_Prelude.thy ===== *)
theory BT_Prelude
  imports Main
begin

text \<open>
  Shared vocabulary of the Bill Tracker development: the collections the
  component proofs draw on, the result type of fallible operations, and generic
  facts on lists, options and division that more than one component uses.
\<close>

named_theorems store_simps \<open>how each table operation changes each table\<close>
named_theorems go_simps \<open>evaluation rules of the Go library functions\<close>

text \<open>
  A Go \<^verbatim>\<open>(T, error)\<close> pair is a sum: \<open>Inl e\<close> when the error is not nil.
  A nullable column (\<^verbatim>\<open>sql.NullString\<close> and its kin) is an option: \<open>None\<close>
  when \<^verbatim>\<open>Valid\<close> is false.
\<close>

type_synonym ('e, 'a) result = "'e + 'a"

definition ok :: "('e, 'a) result \<Rightarrow> bool" where
  "ok r \<longleftrightarrow> (case r of Inl _ \<Rightarrow> False | Inr _ \<Rightarrow> True)"

lemma ok_simps [simp]: "ok (Inr x)" "\<not> ok (Inl e)"
  by (simp_all add: ok_def)

text \<open>Insertion sort by a key under a given order: what \<^verbatim>\<open>ORDER BY\<close> does.\<close>

fun insort_by :: "('k \<Rightarrow> 'k \<Rightarrow> bool) \<Rightarrow> ('a \<Rightarrow> 'k) \<Rightarrow> 'a \<Rightarrow> 'a list \<Rightarrow> 'a list" where
  "insort_by le key x [] = [x]"
| "insort_by le key x (y # ys) =
     (if le (key x) (key y) then x # y # ys else y # insort_by le key x ys)"

fun sort_by :: "('k \<Rightarrow> 'k \<Rightarrow> bool) \<Rightarrow> ('a \<Rightarrow> 'k) \<Rightarrow> 'a list \<Rightarrow> 'a list" where
  "sort_by le key [] = []"
| "sort_by le key (x # xs) = insort_by le key x (sort_by le key xs)"

lemma set_insort_by [simp]: "set (insort_by le key x xs) = insert x (set xs)"
  by (induction xs) auto

lemma set_sort_by [simp]: "set (sort_by le key xs) = set xs"
  by (induction xs) auto

lemma length_insort_by [simp]: "length (insort_by le key x xs) = Suc (length xs)"
  by (induction xs) auto

lemma length_sort_by [simp]: "length (sort_by le key xs) = length xs"
  by (induction xs) auto

lemma distinct_map_insort_by:
  "distinct (map f (insort_by le key x xs)) \<longleftrightarrow> f x \<notin> f ` set xs \<and> distinct (map f xs)"
  by (induction xs) auto

lemma distinct_map_sort_by [simp]: "distinct (map f (sort_by le key xs)) \<longleftrightarrow> distinct (map f xs)"
  by (induction xs) (auto simp: distinct_map_insort_by)

lemma sorted_wrt_insort_by:
  assumes total: "\<And>a b. le a b \<or> le b a" and trans: "\<And>a b c. le a b \<Longrightarrow> le b c \<Longrightarrow> le a c"
    and "sorted_wrt (\<lambda>x y. le (key x) (key y)) xs"
  shows "sorted_wrt (\<lambda>x y. le (key x) (key y)) (insort_by le key x xs)"
  using assms(3)
proof (induction xs)
  case Nil
  then show ?case by simp
next
  case (Cons y ys)
  show ?case
  proof (cases "le (key x) (key y)")
    case True
    with Cons.prems show ?thesis by (auto intro: trans)
  next
    case False
    then have "le (key y) (key x)" using total by blast
    with Cons False show ?thesis by simp
  qed
qed

lemma sorted_wrt_sort_by:
  assumes "\<And>a b. le a b \<or> le b a" and "\<And>a b c. le a b \<Longrightarrow> le b c \<Longrightarrow> le a c"
  shows "sorted_wrt (\<lambda>x y. le (key x) (key y)) (sort_by le key xs)"
proof (induction xs)
  case (Cons x xs)
  have "sorted_wrt (\<lambda>x y. le (key x) (key y)) (insort_by le key x (sort_by le key xs))"
    by (rule sorted_wrt_insort_by) (use assms Cons.IH in blast)+
  then show ?case by simp
qed simp

end
