(* ===== verification/Go_Strings.thy ===== *)
theory Go_Strings
  imports BT_Prelude
begin

text \<open>
  The parts of Go's \<^verbatim>\<open>strings\<close>, \<^verbatim>\<open>strconv\<close> and \<^verbatim>\<open>encoding/hex\<close> packages
  that the program calls. A Go string is a sequence of bytes, and so is a
  \<open>string\<close> here; functions that work on Unicode code points in Go
  (\<^verbatim>\<open>TrimSpace\<close>, \<^verbatim>\<open>Fields\<close>) are written on the UTF-8 encodings of the
  white-space code points. A number parser answers \<open>None\<close> where
  \<^verbatim>\<open>strconv\<close> returns an error, whose text is \<open>num_error\<close>.
\<close>

section \<open>Prefixes, suffixes, cutting and splitting\<close>

definition HasPrefix :: "string \<Rightarrow> string \<Rightarrow> bool" where
  "HasPrefix s p \<longleftrightarrow> take (length p) s = p"

definition HasSuffix :: "string \<Rightarrow> string \<Rightarrow> bool" where
  "HasSuffix s p \<longleftrightarrow> length p \<le> length s \<and> drop (length s - length p) s = p"

definition TrimPrefix :: "string \<Rightarrow> string \<Rightarrow> string" where
  "TrimPrefix s p = (if HasPrefix s p then drop (length p) s else s)"

definition TrimSuffix :: "string \<Rightarrow> string \<Rightarrow> string" where
  "TrimSuffix s p = (if HasSuffix s p then take (length s - length p) s else s)"

definition CutPrefix :: "string \<Rightarrow> string \<Rightarrow> string \<times> bool" where
  "CutPrefix s p = (if HasPrefix s p then (drop (length p) s, True) else (s, False))"

text \<open>\<^verbatim>\<open>strings.Cut\<close> at a one-character separator: before, after, found.\<close>

definition Cut :: "string \<Rightarrow> char \<Rightarrow> string \<times> string \<times> bool" where
  "Cut s c =
     (if c \<in> set s then (takeWhile (\<lambda>x. x \<noteq> c) s, tl (dropWhile (\<lambda>x. x \<noteq> c) s), True)
      else (s, [], False))"

fun Split :: "string \<Rightarrow> char \<Rightarrow> string list" where
  "Split [] c = [[]]"
| "Split (x # xs) c =
     (if x = c then [] # Split xs c
      else (case Split xs c of [] \<Rightarrow> [[x]] | p # ps \<Rightarrow> (x # p) # ps))"

fun Contains :: "string \<Rightarrow> string \<Rightarrow> bool" where
  "Contains [] p = (p = [])"
| "Contains (x # xs) p = (HasPrefix (x # xs) p \<or> Contains xs p)"

text \<open>\<^verbatim>\<open>strings.TrimRight\<close> with a one-character cutset.\<close>

definition TrimRight :: "string \<Rightarrow> char \<Rightarrow> string" where
  "TrimRight s c = rev (dropWhile (\<lambda>x. x = c) (rev s))"

fun Join :: "string list \<Rightarrow> string \<Rightarrow> string" where
  "Join [] sep = []"
| "Join [x] sep = x"
| "Join (x # xs) sep = x @ sep @ Join xs sep"

section \<open>White space\<close>

definition space_runes :: "string list" where
  "space_runes =
     [[CHR 0x09], [CHR 0x0A], [CHR 0x0B], [CHR 0x0C], [CHR 0x0D], [CHR 0x20],
      [CHR 0xC2, CHR 0x85], [CHR 0xC2, CHR 0xA0], [CHR 0xE1, CHR 0x9A, CHR 0x80],
      [CHR 0xE2, CHR 0x80, CHR 0x80], [CHR 0xE2, CHR 0x80, CHR 0x81],
      [CHR 0xE2, CHR 0x80, CHR 0x82], [CHR 0xE2, CHR 0x80, CHR 0x83],
      [CHR 0xE2, CHR 0x80, CHR 0x84], [CHR 0xE2, CHR 0x80, CHR 0x85],
      [CHR 0xE2, CHR 0x80, CHR 0x86], [CHR 0xE2, CHR 0x80, CHR 0x87],
      [CHR 0xE2, CHR 0x80, CHR 0x88], [CHR 0xE2, CHR 0x80, CHR 0x89],
      [CHR 0xE2, CHR 0x80, CHR 0x8A], [CHR 0xE2, CHR 0x80, CHR 0xA8],
      [CHR 0xE2, CHR 0x80, CHR 0xA9], [CHR 0xE2, CHR 0x80, CHR 0xAF],
      [CHR 0xE2, CHR 0x81, CHR 0x9F], [CHR 0xE3, CHR 0x80, CHR 0x80]]"

lemma space_runes_nonempty: "w \<in> set space_runes \<Longrightarrow> w \<noteq> []"
  by (auto simp: space_runes_def)

lemma find_Some_member: "find P xs = Some x \<Longrightarrow> x \<in> set xs \<and> P x"
  by (auto simp: find_Some_iff)

function TrimLeftSpace :: "string \<Rightarrow> string" where
  "TrimLeftSpace s =
     (case find (HasPrefix s) space_runes of
        None \<Rightarrow> s | Some w \<Rightarrow> TrimLeftSpace (drop (length w) s))"
  by pat_completeness auto
termination
proof (relation "measure length", goal_cases)
  case (2 s w)
  then have "w \<noteq> []" "take (length w) s = w"
    using find_Some_member [OF 2] space_runes_nonempty by (auto simp: HasPrefix_def)
  then have "s \<noteq> []" "0 < length w" by auto
  then show ?case by simp
qed simp

function TrimRightSpace :: "string \<Rightarrow> string" where
  "TrimRightSpace s =
     (case find (HasSuffix s) space_runes of
        None \<Rightarrow> s | Some w \<Rightarrow> TrimRightSpace (take (length s - length w) s))"
  by pat_completeness auto
termination
proof (relation "measure length", goal_cases)
  case (2 s w)
  then have "0 < length w" "length w \<le> length s"
    using find_Some_member [OF 2] space_runes_nonempty by (auto simp: HasSuffix_def)
  then show ?case by (cases w; cases s) auto
qed simp

declare TrimLeftSpace.simps [simp del] TrimRightSpace.simps [simp del]

definition TrimSpace :: "string \<Rightarrow> string" where
  "TrimSpace s = TrimRightSpace (TrimLeftSpace s)"

text \<open>\<^verbatim>\<open>strings.Fields\<close>: the maximal runs between white space.\<close>

function fields_from :: "string \<Rightarrow> string \<Rightarrow> string list" where
  "fields_from acc s =
     (case s of [] \<Rightarrow> (if acc = [] then [] else [rev acc])
      | c # cs \<Rightarrow>
        (case find (HasPrefix s) space_runes of
           None \<Rightarrow> fields_from (c # acc) cs
         | Some w \<Rightarrow> (if acc = [] then [] else [rev acc]) @ fields_from [] (drop (length w) s)))"
  by pat_completeness auto
termination
proof (relation "measure (\<lambda>(acc, s). length s)", goal_cases)
  case (3 acc s c cs w)
  then have "0 < length w" using find_Some_member [OF 3(2)] space_runes_nonempty by auto
  with 3(1) show ?case by simp
qed auto

declare fields_from.simps [simp del]

definition Fields :: "string \<Rightarrow> string list" where
  "Fields s = fields_from [] s"

section \<open>Decimal numbers\<close>

definition digit_char :: "nat \<Rightarrow> char" where
  "digit_char n = char_of (48 + n)"

definition digit_val :: "char \<Rightarrow> nat option" where
  "digit_val c = (let n = of_char c :: nat in if 48 \<le> n \<and> n \<le> 57 then Some (n - 48) else None)"

fun read_digits :: "nat \<Rightarrow> string \<Rightarrow> nat option" where
  "read_digits acc [] = Some acc"
| "read_digits acc (c # cs) =
     (case digit_val c of None \<Rightarrow> None | Some d \<Rightarrow> read_digits (10 * acc + d) cs)"

definition ParseUint :: "string \<Rightarrow> nat option" where
  "ParseUint s = (if s = [] then None else read_digits 0 s)"

definition int64_range :: "int \<Rightarrow> bool" where
  "int64_range n \<longleftrightarrow> - (2 ^ 63) \<le> n \<and> n < 2 ^ 63"

text \<open>
  \<^verbatim>\<open>strconv.ParseInt(s, 10, 64)\<close>, and \<^verbatim>\<open>strconv.Atoi\<close> on a 64-bit
  platform: an optional sign, at least one digit, a value in range.
\<close>

definition ParseInt :: "string \<Rightarrow> int option" where
  "ParseInt s =
     (case s of [] \<Rightarrow> None
      | c # cs \<Rightarrow>
        (let neg = (c = CHR ''-''); body = (if c = CHR ''-'' \<or> c = CHR ''+'' then cs else s)
         in case ParseUint body of None \<Rightarrow> None
            | Some n \<Rightarrow> (let v = (if neg then - int n else int n)
                        in if int64_range v then Some v else None)))"

abbreviation Atoi :: "string \<Rightarrow> int option" where "Atoi \<equiv> ParseInt"

fun show_nat :: "nat \<Rightarrow> string" where
  "show_nat n = (if n < 10 then [digit_char n] else show_nat (n div 10) @ [digit_char (n mod 10)])"

declare show_nat.simps [simp del]

definition Itoa :: "int \<Rightarrow> string" where
  "Itoa n = (if n < 0 then CHR ''-'' # show_nat (nat (- n)) else show_nat (nat n))"

text \<open>Two's complement wrap-around of Go's \<^verbatim>\<open>int64\<close> (and 64-bit \<^verbatim>\<open>int\<close>) arithmetic.\<close>

definition wrap64 :: "int \<Rightarrow> int" where
  "wrap64 n = (n + 2 ^ 63) mod 2 ^ 64 - 2 ^ 63"

section \<open>Hexadecimal\<close>

definition hex_char :: "nat \<Rightarrow> char" where
  "hex_char n = (if n < 10 then char_of (48 + n) else char_of (87 + n))"

definition hex_val :: "char \<Rightarrow> nat option" where
  "hex_val c =
     (let n = of_char c :: nat in
      if 48 \<le> n \<and> n \<le> 57 then Some (n - 48)
      else if 97 \<le> n \<and> n \<le> 102 then Some (n - 87)
      else if 65 \<le> n \<and> n \<le> 70 then Some (n - 55) else None)"

definition hex_EncodeToString :: "string \<Rightarrow> string" where
  "hex_EncodeToString bs =
     concat (map (\<lambda>b. [hex_char (of_char b div 16), hex_char (of_char b mod 16)]) bs)"

fun hex_DecodeString :: "string \<Rightarrow> string option" where
  "hex_DecodeString [] = Some []"
| "hex_DecodeString [c] = None"
| "hex_DecodeString (c # d # cs) =
     (case (hex_val c, hex_val d) of
        (Some a, Some b) \<Rightarrow> map_option (\<lambda>bs. char_of (16 * a + b) # bs) (hex_DecodeString cs)
      | _ \<Rightarrow> None)"

text \<open>
  \<^verbatim>\<open>strconv.Quote\<close> and \<^verbatim>\<open>%q\<close>: the text in double quotes with quotes, backslashes and
  control characters escaped. Bytes beyond ASCII are taken to belong to printable text.
\<close>

definition quote_char :: "char \<Rightarrow> string" where
  "quote_char c =
     (let n = of_char c :: nat in
      if c = CHR 0x22 \<or> c = CHR 0x5C then [CHR 0x5C, c]
      else if n = 7 then [CHR 0x5C, CHR ''a'']
      else if n = 8 then [CHR 0x5C, CHR ''b'']
      else if n = 9 then [CHR 0x5C, CHR ''t'']
      else if n = 10 then [CHR 0x5C, CHR ''n'']
      else if n = 11 then [CHR 0x5C, CHR ''v'']
      else if n = 12 then [CHR 0x5C, CHR ''f'']
      else if n = 13 then [CHR 0x5C, CHR ''r'']
      else if n < 32 \<or> n = 127 then [CHR 0x5C, CHR ''x'', hex_char (n div 16), hex_char (n mod 16)]
      else [c])"

definition Quote :: "string \<Rightarrow> string" where
  "Quote s = [CHR 0x22] @ concat (map quote_char s) @ [CHR 0x22]"

text \<open>
  The text of the error of \<^verbatim>\<open>strconv.ParseInt\<close> or \<^verbatim>\<open>strconv.Atoi\<close>: a text that is no
  numeral is a syntax error, a numeral that is refused is out of range.
\<close>

definition num_error :: "string \<Rightarrow> string \<Rightarrow> string" where
  "num_error fname s =
     ''strconv.'' @ fname @ '': parsing '' @ Quote s @ '': '' @
     (if s \<noteq> '''' \<and> ParseUint (if hd s = CHR ''-'' \<or> hd s = CHR ''+'' then tl s else s) \<noteq> None
      then ''value out of range'' else ''invalid syntax'')"

text \<open>Equality up to the case of ASCII letters.\<close>

definition lower_char :: "char \<Rightarrow> char" where
  "lower_char c = (let n = of_char c :: nat in if 65 \<le> n \<and> n \<le> 90 then char_of (n + 32) else c)"

definition EqualFold :: "string \<Rightarrow> string \<Rightarrow> bool" where
  "EqualFold s t \<longleftrightarrow> map lower_char s = map lower_char t"

section \<open>Facts\<close>

subsection \<open>Digits and numbers\<close>

lemma digit_val_digit_char [simp]: "n < 10 \<Longrightarrow> digit_val (digit_char n) = Some n"
  by (simp add: digit_val_def digit_char_def)

lemma digit_char_numerals [simp]:
  "digit_char 0 = CHR ''0''" "digit_char (Suc 0) = CHR ''1''" "digit_char 1 = CHR ''1''"
  "digit_char 2 = CHR ''2''"
  "digit_char 3 = CHR ''3''" "digit_char 4 = CHR ''4''" "digit_char 5 = CHR ''5''"
  "digit_char 6 = CHR ''6''" "digit_char 7 = CHR ''7''" "digit_char 8 = CHR ''8''"
  "digit_char 9 = CHR ''9''"
  by code_simp+

lemma digit_val_bound: "digit_val c = Some d \<Longrightarrow> d < 10"
  by (auto simp: digit_val_def Let_def split: if_splits)

lemma digit_char_digit_val: "digit_val c = Some d \<Longrightarrow> digit_char d = c"
  by (auto simp: digit_val_def digit_char_def Let_def split: if_splits)

lemma digit_val_cases:
  "digit_val CHR ''-'' = None" "digit_val CHR ''+'' = None" "digit_val CHR ''.'' = None"
  by (simp_all add: digit_val_def)

lemma lower_digit: "digit_val a \<noteq> None \<Longrightarrow> lower_char a = a"
  by (auto simp: digit_val_def lower_char_def Let_def split: if_splits)

lemma digit_char_neq:
  "n < 10 \<Longrightarrow> digit_char n \<noteq> CHR ''-''" "n < 10 \<Longrightarrow> digit_char n \<noteq> CHR ''+''"
  "n < 10 \<Longrightarrow> digit_char n \<noteq> CHR ''.''"
  using digit_val_digit_char digit_val_cases by (metis option.distinct(1))+

lemma read_digits_append:
  "read_digits acc (s @ t) = (case read_digits acc s of None \<Rightarrow> None | Some n \<Rightarrow> read_digits n t)"
  by (induction s arbitrary: acc) (auto split: option.split)

lemma show_nat_nonempty [simp]: "show_nat n \<noteq> []"
  by (subst show_nat.simps) simp

lemma set_show_nat: "c \<in> set (show_nat n) \<Longrightarrow> \<exists>d < 10. c = digit_char d"
proof (induction n rule: show_nat.induct)
  case (1 n)
  have "n mod 10 < 10" by simp
  with 1 show ?case by (subst (asm) (2) show_nat.simps) (fastforce split: if_splits)
qed

lemma read_show_nat [simp]: "read_digits 0 (show_nat n) = Some n"
proof (induction n rule: show_nat.induct)
  case (1 n)
  then show ?case by (subst show_nat.simps) (auto simp: read_digits_append)
qed

lemma hd_show_nat: "\<exists>d < 10. hd (show_nat n) = digit_char d"
  using set_show_nat [of "hd (show_nat n)" n] by simp

theorem ParseInt_Itoa: "int64_range n \<Longrightarrow> ParseInt (Itoa n) = Some n"
proof (cases "n < 0")
  case True
  assume "int64_range n"
  with True show ?thesis by (simp add: ParseInt_def Itoa_def ParseUint_def Let_def)
next
  case False
  assume r: "int64_range n"
  obtain c cs where s: "show_nat (nat n) = c # cs" by (cases "show_nat (nat n)") simp_all
  obtain d where "d < 10" "c = digit_char d" using hd_show_nat [of "nat n"] s by auto
  then have "c \<noteq> CHR ''-''" "c \<noteq> CHR ''+''" by (simp_all add: digit_char_neq)
  moreover have "read_digits 0 (c # cs) = Some (nat n)" using read_show_nat [of "nat n"] s by simp
  ultimately show ?thesis
    using False r by (simp add: ParseInt_def Itoa_def ParseUint_def s Let_def del: read_digits.simps)
qed

lemma wrap64_id [simp]: "int64_range n \<Longrightarrow> wrap64 n = n"
  by (simp add: wrap64_def int64_range_def)

lemma wrap64_range: "int64_range (wrap64 n)"
  using pos_mod_bound [of "2 ^ 64" "n + 2 ^ 63"] pos_mod_sign [of "2 ^ 64" "n + 2 ^ 63"]
  by (simp add: wrap64_def int64_range_def)

subsection \<open>Hexadecimal round trip\<close>

lemma hex_val_hex_char [simp]: "n < 16 \<Longrightarrow> hex_val (hex_char n) = Some n"
  by (auto simp: hex_val_def hex_char_def Let_def)

theorem hex_round_trip: "hex_DecodeString (hex_EncodeToString bs) = Some bs"
proof (induction bs)
  case Nil
  show ?case by (simp add: hex_EncodeToString_def)
next
  case (Cons b bs)
  have "(of_char b :: nat) < 256" by simp
  then have "(of_char b :: nat) div 16 < 16" "(of_char b :: nat) mod 16 < 16"
    by (simp_all add: less_mult_imp_div_less)
  moreover have "16 * ((of_char b :: nat) div 16) + of_char b mod 16 = of_char b" by simp
  ultimately show ?case using Cons by (simp add: hex_EncodeToString_def)
qed

lemma hex_EncodeToString_Nil_iff [simp]: "hex_EncodeToString bs = [] \<longleftrightarrow> bs = []"
  by (cases bs) (simp_all add: hex_EncodeToString_def)

lemma length_hex_EncodeToString: "length (hex_EncodeToString bs) = 2 * length bs"
  by (induction bs) (simp_all add: hex_EncodeToString_def)

subsection \<open>Trimming\<close>

text \<open>A string whose ends are plain (not a byte of a white-space code point) is left alone.\<close>

definition plain_char :: "char \<Rightarrow> bool" where
  "plain_char c \<longleftrightarrow> 0x20 < (of_char c :: nat) \<and> (of_char c :: nat) < 0x80"

lemma space_runes_not_plain: "w \<in> set space_runes \<Longrightarrow> c \<in> set w \<Longrightarrow> \<not> plain_char c"
  by (auto simp: space_runes_def plain_char_def)

lemma TrimLeftSpace_plain:
  assumes "s = [] \<or> plain_char (hd s)" shows "TrimLeftSpace s = s"
proof -
  have "\<not> HasPrefix s w" if mem: "w \<in> set space_runes" for w
  proof
    assume p: "HasPrefix s w"
    obtain a as where w: "w = a # as" using space_runes_nonempty [OF mem] by (cases w) auto
    with p have "s \<noteq> []" "hd s = a" by (cases s; simp add: HasPrefix_def)+
    with assms space_runes_not_plain [OF mem, of a] w show False by simp
  qed
  then have "find (HasPrefix s) space_runes = None" by (auto simp: find_None_iff)
  then show ?thesis by (simp add: TrimLeftSpace.simps)
qed

lemma TrimRightSpace_plain:
  assumes "s = [] \<or> plain_char (last s)" shows "TrimRightSpace s = s"
proof -
  have "\<not> HasSuffix s w" if "w \<in> set space_runes" for w
  proof
    assume p: "HasSuffix s w"
    then have "s \<noteq> []" "last s \<in> set w"
      using space_runes_nonempty [OF that]
      by (auto simp: HasSuffix_def) (metis last_drop last_in_set length_drop drop_all not_le)
    with assms space_runes_not_plain [OF that, of "last s"] show False by simp
  qed
  then have "find (HasSuffix s) space_runes = None" by (auto simp: find_None_iff)
  then show ?thesis by (simp add: TrimRightSpace.simps)
qed

lemma TrimSpace_plain:
  assumes "\<forall>c \<in> set s. plain_char c" shows "TrimSpace s = s"
  using assms TrimLeftSpace_plain [of s] TrimRightSpace_plain [of s]
  by (cases "s = []") (simp_all add: TrimSpace_def)

lemma plain_digit_char: "d < 10 \<Longrightarrow> plain_char (digit_char d)"
  by (simp add: plain_char_def digit_char_def)

lemma plain_signs [simp]: "plain_char CHR ''-''" "plain_char CHR ''+''" "plain_char CHR ''.''"
  by (simp_all add: plain_char_def)

lemma plain_show_nat: "c \<in> set (show_nat n) \<Longrightarrow> plain_char c"
  using set_show_nat plain_digit_char by blast

lemma CutPrefix_append [simp]: "CutPrefix (p @ t) p = (t, True)"
  by (simp add: CutPrefix_def HasPrefix_def)

lemma CutPrefix_True: "CutPrefix s p = (t, True) \<Longrightarrow> s = p @ t"
  by (auto simp: CutPrefix_def HasPrefix_def split: if_splits) (metis append_take_drop_id)

end
