(* ===== verification/Json.thy ===== *)
theory Json
  imports Go_Strings BT_Prelude
begin

text \<open>
  JSON as the program's decoders see it: a parsed value, and how
  \<^verbatim>\<open>encoding/json\<close> fills a struct from it. Keys match field names whatever their
  (ASCII) case, a later key overwrites an earlier one, \<^verbatim>\<open>null\<close> leaves a field as it
  is, an unknown key is skipped and a value of the wrong kind is an error. The
  text of that error is shortened to its first words.
\<close>

datatype json =
    JNull
  | JBool bool
  | JNum string
  | JStr string
  | JArr "json list"
  | JObj "(string \<times> json) list"

definition json_mismatch :: string where
  "json_mismatch = ''json: cannot unmarshal''"

type_synonym 'a field = "string \<times> (json \<Rightarrow> 'a \<Rightarrow> (string, 'a) result)"

text \<open>One key of the object, and the object.\<close>

definition decode_key :: "'a field list \<Rightarrow> string \<times> json \<Rightarrow> (string, 'a) result \<Rightarrow> (string, 'a) result" where
  "decode_key fields kv r =
     (case r of
        Inl e \<Rightarrow> Inl e
      | Inr x \<Rightarrow>
          (case find (\<lambda>f. EqualFold (fst f) (fst kv)) fields of
             None \<Rightarrow> Inr x
           | Some f \<Rightarrow> snd f (snd kv) x))"

definition decode_struct :: "'a field list \<Rightarrow> json \<Rightarrow> 'a \<Rightarrow> (string, 'a) result" where
  "decode_struct fields v x =
     (case v of
        JNull \<Rightarrow> Inr x
      | JObj kvs \<Rightarrow> fold (decode_key fields) kvs (Inr x)
      | _ \<Rightarrow> Inl json_mismatch)"

definition decode_string :: "(string \<Rightarrow> 'a \<Rightarrow> 'a) \<Rightarrow> json \<Rightarrow> 'a \<Rightarrow> (string, 'a) result" where
  "decode_string upd v x =
     (case v of JNull \<Rightarrow> Inr x | JStr s \<Rightarrow> Inr (upd s x) | _ \<Rightarrow> Inl json_mismatch)"

text \<open>A number field of Go type \<^verbatim>\<open>int\<close> or \<^verbatim>\<open>int64\<close>: an integer literal in range.\<close>

definition decode_int :: "(int \<Rightarrow> 'a \<Rightarrow> 'a) \<Rightarrow> json \<Rightarrow> 'a \<Rightarrow> (string, 'a) result" where
  "decode_int upd v x =
     (case v of
        JNull \<Rightarrow> Inr x
      | JNum s \<Rightarrow> (case ParseInt s of None \<Rightarrow> Inl json_mismatch | Some n \<Rightarrow> Inr (upd n x))
      | _ \<Rightarrow> Inl json_mismatch)"

text \<open>A slice: \<^verbatim>\<open>null\<close> is the nil slice, and every element starts from the zero value.\<close>

fun decode_all :: "(json \<Rightarrow> (string, 'a) result) \<Rightarrow> json list \<Rightarrow> (string, 'a list) result" where
  "decode_all d [] = Inr []"
| "decode_all d (v # vs) =
     (case d v of
        Inl e \<Rightarrow> Inl e
      | Inr x \<Rightarrow> (case decode_all d vs of Inl e \<Rightarrow> Inl e | Inr xs \<Rightarrow> Inr (x # xs)))"

definition decode_slice :: "(json \<Rightarrow> (string, 'a) result) \<Rightarrow> json \<Rightarrow> (string, 'a list) result" where
  "decode_slice d v =
     (case v of JNull \<Rightarrow> Inr [] | JArr vs \<Rightarrow> decode_all d vs | _ \<Rightarrow> Inl json_mismatch)"

lemma decode_all_length: "decode_all d vs = Inr xs \<Longrightarrow> length xs = length vs"
  by (induction vs arbitrary: xs) (auto split: sum.splits)

text \<open>What a request to another server brings back: an error, or a status and the body's value.\<close>

record reply =
  rep_StatusCode :: int
  rep_Status :: string
  rep_Json :: "(string, json) result"

definition rep_decode :: "(json \<Rightarrow> (string, 'a) result) \<Rightarrow> reply \<Rightarrow> (string, 'a) result" where
  "rep_decode d resp = (case rep_Json resp of Inl e \<Rightarrow> Inl e | Inr v \<Rightarrow> d v)"

type_synonym http_get = "string \<Rightarrow> (string, reply) result"

end
