(* ===== verification/Money.thy ===== *)
theory Money
  imports Go_Strings
begin

text \<open>
  Reading money: \<^verbatim>\<open>parseMoneyToCents\<close> of \<^verbatim>\<open>internal/simplefin/client.go\<close> and
  the two copies of \<^verbatim>\<open>parseDollarsToCents\<close> in the vendor connectors, on 64-bit
  cents with their wrap-around. The locale \<open>decimal_reader\<close> states what the three
  have in common (a decimal numeral is read with sub-cent digits cut off) and
  derives the round trip with the printed form of an amount.
\<close>

section \<open>The parsers\<close>

text \<open>The part the three functions share: from the unsigned text to cents.\<close>

definition decimal_cents :: "bool \<Rightarrow> string \<Rightarrow> (string, int) result" where
  "decimal_cents neg s =
     (let (whole0, frac0, hasFrac) = Cut s CHR ''.'';
          whole = (if whole0 = '''' then ''0'' else whole0);
          frac = (if \<not> hasFrac then ''00''
                  else if length frac0 = 1 then frac0 @ ''0''
                  else if length frac0 > 2 then take 2 frac0
                  else frac0)
      in case ParseInt whole of
           None \<Rightarrow> Inl (''invalid whole part: '' @ num_error ''ParseInt'' whole)
         | Some wholeCents \<Rightarrow>
           (case ParseInt frac of
              None \<Rightarrow> Inl (''invalid fractional part: '' @ num_error ''ParseInt'' frac)
            | Some fracCents \<Rightarrow>
                let total = wrap64 (wrap64 (wholeCents * 100) + fracCents)
                in Inr (if neg then wrap64 (- total) else total)))"

definition parseMoneyToCents :: "string \<Rightarrow> (string, int) result" where
  "parseMoneyToCents s0 =
     (let s = TrimSpace s0 in
      if s = '''' then Inl ''empty amount''
      else if HasPrefix s ''-'' then decimal_cents True (tl s)
      else if HasPrefix s ''+'' then decimal_cents False (tl s)
      else decimal_cents False s)"

text \<open>The regular expression \<^verbatim>\<open>[^0-9.\-]\<close> is replaced by nothing: the other characters stay.\<close>

definition dollar_char :: "char \<Rightarrow> bool" where
  "dollar_char c \<longleftrightarrow> digit_val c \<noteq> None \<or> c = CHR ''.'' \<or> c = CHR ''-''"

definition parseDollarsToCents :: "string \<Rightarrow> (string, int) result" where
  "parseDollarsToCents s =
     (let stripped = filter dollar_char s in
      if stripped = '''' then Inl ''no numeric content''
      else decimal_cents (HasPrefix stripped ''-'') (TrimPrefix stripped ''-''))"

text \<open>The connector for Columbia Gas carries its own copy.\<close>

definition columbiagaspa_parseDollarsToCents :: "string \<Rightarrow> (string, int) result" where
  "columbiagaspa_parseDollarsToCents s =
     (let stripped = filter dollar_char s in
      if stripped = '''' then Inl ''no numeric content''
      else let neg = HasPrefix stripped ''-'' in decimal_cents neg (TrimPrefix stripped ''-''))"

section \<open>Specification\<close>

definition all_digits :: "string \<Rightarrow> bool" where
  "all_digits s \<longleftrightarrow> list_all (\<lambda>c. digit_val c \<noteq> None) s"

definition digits_value :: "string \<Rightarrow> nat" where
  "digits_value s = (case read_digits 0 s of None \<Rightarrow> 0 | Some n \<Rightarrow> n)"

text \<open>
  The amount a numeral with digits \<open>ws\<close> before and \<open>fs\<close> after the point denotes,
  in whole cents, the rest cut off.
\<close>

definition cents_of_numeral :: "string \<Rightarrow> string \<Rightarrow> nat" where
  "cents_of_numeral ws fs = (100 * digits_value (ws @ fs)) div 10 ^ length fs"

definition two_digits :: "nat \<Rightarrow> string" where
  "two_digits n = [digit_char (n div 10 mod 10), digit_char (n mod 10)]"

text \<open>An amount printed with two decimals.\<close>

definition render_cents :: "int \<Rightarrow> string" where
  "render_cents c =
     (if c < 0 then ''-'' else '''') @
     show_nat (nat \<bar>c\<bar> div 100) @ ''.'' @ two_digits (nat \<bar>c\<bar> mod 100)"

section \<open>Digit strings\<close>

lemma all_digits_simps [simp]:
  "all_digits []" "all_digits (c # cs) \<longleftrightarrow> digit_val c \<noteq> None \<and> all_digits cs"
  "all_digits (s @ t) \<longleftrightarrow> all_digits s \<and> all_digits t"
  by (simp_all add: all_digits_def)

lemma read_digits_value:
  "all_digits s \<Longrightarrow> read_digits acc s = Some (acc * 10 ^ length s + digits_value s)"
proof (induction s arbitrary: acc)
  case Nil
  then show ?case by (simp add: digits_value_def)
next
  case (Cons c cs)
  then obtain d where d: "digit_val c = Some d" by auto
  from Cons have "read_digits 0 (c # cs) = Some (d * 10 ^ length cs + digits_value cs)"
    by (simp add: d)
  then have "digits_value (c # cs) = d * 10 ^ length cs + digits_value cs"
    by (simp add: digits_value_def)
  with Cons d show ?case by (simp add: algebra_simps)
qed

lemma digits_value_append:
  assumes "all_digits s" "all_digits t"
  shows "digits_value (s @ t) = digits_value s * 10 ^ length t + digits_value t"
proof -
  have "read_digits 0 (s @ t) = Some (digits_value s * 10 ^ length t + digits_value t)"
    using read_digits_value [OF assms(1), of 0] read_digits_value [OF assms(2), of "digits_value s"]
    by (simp add: read_digits_append)
  then show ?thesis unfolding digits_value_def [of "s @ t"] by simp
qed

lemma digits_value_bound: "all_digits s \<Longrightarrow> digits_value s < 10 ^ length s"
proof (induction s)
  case Nil
  then show ?case by (simp add: digits_value_def)
next
  case (Cons c cs)
  then obtain d where d: "digit_val c = Some d" by auto
  then have "d < 10" by (rule digit_val_bound)
  then have "Suc d * 10 ^ length cs \<le> 10 * 10 ^ length cs" by (intro mult_right_mono) simp_all
  moreover have "digits_value (c # cs) = d * 10 ^ length cs + digits_value cs"
    using read_digits_value [of cs d] Cons.prems by (simp add: digits_value_def [of "c # cs"] d)
  moreover have "digits_value cs < 10 ^ length cs" using Cons by simp
  ultimately have "digits_value (c # cs) < 10 * 10 ^ length cs" unfolding mult_Suc by linarith
  then show ?case by simp
qed

lemma all_digits_show_nat [simp]: "all_digits (show_nat n)"
  using set_show_nat [of _ n] by (fastforce simp: all_digits_def list_all_iff)

lemma digits_value_show_nat [simp]: "digits_value (show_nat n) = n"
  by (simp add: digits_value_def)

lemma all_digits_two_digits [simp]: "all_digits (two_digits n)"
  by (simp add: two_digits_def)

lemma two_digits_neq_Nil [simp]: "two_digits n \<noteq> []"
  by (simp add: two_digits_def)

lemma length_two_digits [simp]: "length (two_digits n) = 2"
  by (simp add: two_digits_def)

lemma digits_value_two_digits [simp]: "n < 100 \<Longrightarrow> digits_value (two_digits n) = n"
  by (simp add: digits_value_def two_digits_def)

lemma digits_no_point: "all_digits s \<Longrightarrow> CHR ''.'' \<notin> set s"
  by (auto simp: all_digits_def list_all_iff digit_val_cases)

lemma ParseInt_digits:
  assumes "all_digits s" "s \<noteq> []" "digits_value s < 2 ^ 63"
  shows "ParseInt s = Some (int (digits_value s))"
proof -
  obtain c cs where s: "s = c # cs" using assms(2) by (cases s) auto
  with assms(1) have "c \<noteq> CHR ''-''" "c \<noteq> CHR ''+''" by (auto simp: digit_val_cases)
  moreover have "int (digits_value s) < 2 ^ 63" using assms(3)
    by (metis of_nat_less_iff of_nat_numeral of_nat_power)
  ultimately show ?thesis
    using read_digits_value [OF assms(1), of 0] s
    by (simp add: ParseInt_def ParseUint_def int64_range_def Let_def del: read_digits.simps)
qed

lemma Cut_digits:
  "all_digits ws \<Longrightarrow> Cut (ws @ CHR ''.'' # fs) CHR ''.'' = (ws, fs, True)"
proof -
  assume "all_digits ws"
  then have "\<forall>x \<in> set ws. x \<noteq> CHR ''.''" using digits_no_point by blast
  then show ?thesis by (simp add: Cut_def)
qed

text \<open>The first two decimals of \<open>fs\<close>, padded with zeros, are its cents.\<close>

lemma frac_digits:
  assumes "all_digits fs" "fs \<noteq> []"
  defines "fr \<equiv> if length fs = 1 then fs @ ''0'' else if length fs > 2 then take 2 fs else fs"
  shows "all_digits fr" "length fr = 2" "digits_value fr = (100 * digits_value fs) div 10 ^ length fs"
proof -
  consider "length fs = 1" | "length fs = 2" | "length fs > 2" using assms(2)
    by (cases fs; cases "tl fs"; fastforce)
  then have "all_digits fr \<and> length fr = 2 \<and> digits_value fr = (100 * digits_value fs) div 10 ^ length fs"
  proof cases
    case 1
    have z: "all_digits ''0''" "digits_value ''0'' = 0" by (simp_all add: digits_value_def digit_val_def)
    show ?thesis using 1 assms(1) z by (simp add: fr_def digits_value_append)
  next
    case 2
    then show ?thesis using assms(1) by (simp add: fr_def)
  next
    case 3
    define a b where "a = take 2 fs" and "b = drop 2 fs"
    have fr: "fr = a" using 3 by (simp add: fr_def a_def)
    have ab: "fs = a @ b" "all_digits a" "all_digits b" "length a = 2" "length fs = 2 + length b"
      using 3 assms(1) by (auto simp: a_def b_def all_digits_def list_all_iff
          dest: in_set_takeD in_set_dropD)
    have "(100 * digits_value fs) div 10 ^ length fs =
        (100 * (digits_value a * 10 ^ length b + digits_value b)) div (100 * 10 ^ length b)"
      using ab by (simp add: digits_value_append power_add)
    also have "\<dots> = (digits_value a * 10 ^ length b + digits_value b) div 10 ^ length b"
      by (rule div_mult_mult1) simp
    also have "\<dots> = digits_value a" using digits_value_bound [OF ab(3)] by simp
    finally show ?thesis using ab(2,4) fr by simp
  qed
  then show "all_digits fr" "length fr = 2"
    "digits_value fr = (100 * digits_value fs) div 10 ^ length fs" by auto
qed

lemma cents_of_numeral_split:
  assumes "all_digits ws" "all_digits fs"
  shows "cents_of_numeral ws fs = 100 * digits_value ws + (100 * digits_value fs) div 10 ^ length fs"
proof -
  have "100 * digits_value (ws @ fs) = (100 * digits_value ws) * 10 ^ length fs + 100 * digits_value fs"
    using assms by (simp add: digits_value_append algebra_simps)
  then show ?thesis by (simp add: cents_of_numeral_def)
qed

lemma ParseInt_digits_large:
  assumes "all_digits s" "\<not> digits_value s < 2 ^ 63"
  shows "ParseInt s = None"
proof (cases s)
  case (Cons c cs)
  with assms(1) have "c \<noteq> CHR ''-''" "c \<noteq> CHR ''+''" by (auto simp: digit_val_cases)
  moreover have "\<not> int (digits_value s) < 2 ^ 63" using assms(2)
    by (metis of_nat_less_iff of_nat_numeral of_nat_power)
  ultimately show ?thesis
    using read_digits_value [OF assms(1), of 0] Cons
    by (simp add: ParseInt_def ParseUint_def int64_range_def Let_def del: read_digits.simps)
qed (simp add: ParseInt_def)

lemma wrap64_wrap64_add: "wrap64 (wrap64 a + b) = wrap64 (a + b)"
proof -
  have "wrap64 a + b + 2 ^ 63 = (a + 2 ^ 63) mod 2 ^ 64 + b" by (simp add: wrap64_def)
  then have "(wrap64 a + b + 2 ^ 63) mod 2 ^ 64 = (a + 2 ^ 63 + b) mod 2 ^ 64"
    by (simp only: mod_add_left_eq)
  then show ?thesis by (simp add: wrap64_def ac_simps)
qed

lemma wrap64_minus: "wrap64 (- wrap64 a) = wrap64 (- a)"
proof -
  have "- wrap64 a + 2 ^ 63 = 2 ^ 64 - (a + 2 ^ 63) mod 2 ^ 64" by (simp add: wrap64_def)
  then have "(- wrap64 a + 2 ^ 63) mod 2 ^ 64 = (2 ^ 64 - (a + 2 ^ 63)) mod 2 ^ 64"
    by (simp only: mod_diff_right_eq)
  then show ?thesis by (simp add: wrap64_def)
qed

lemma decimal_cents_wraps:
  assumes "all_digits ws" "all_digits fs" "fs \<noteq> []"
  shows "decimal_cents neg (ws @ CHR ''.'' # fs) =
    (if digits_value ws < 2 ^ 63
     then Inr (wrap64 (if neg then - int (cents_of_numeral ws fs) else int (cents_of_numeral ws fs)))
     else Inl (''invalid whole part: '' @ num_error ''ParseInt'' ws))"
proof -
  let ?w = "if ws = [] then ''0'' else ws"
  let ?f = "if length fs = 1 then fs @ ''0'' else if length fs > 2 then take 2 fs else fs"
  note f = frac_digits [OF assms(2,3)]
  have w: "all_digits ?w" "?w \<noteq> []" "digits_value ?w = digits_value ws"
    using assms(1) by (auto simp: digits_value_def digit_val_def)
  have fne: "?f \<noteq> []" using f(2) by force
  have split: "int (cents_of_numeral ws fs) = int (digits_value ws) * 100 + int (digits_value ?f)"
    using cents_of_numeral_split [OF assms(1,2)] f(3) by simp
  have "digits_value ?f < 2 ^ 63" using digits_value_bound [OF f(1)] f(2) by simp
  then have pf: "ParseInt ?f = Some (int (digits_value ?f))" by (rule ParseInt_digits [OF f(1) fne])
  have pw: "ParseInt ?w = (if digits_value ws < 2 ^ 63 then Some (int (digits_value ws)) else None)"
    using ParseInt_digits [OF w(1,2)] ParseInt_digits_large [OF w(1)] w(3) by simp
  have "decimal_cents neg (ws @ CHR ''.'' # fs) =
    (case ParseInt ?w of None \<Rightarrow> Inl (''invalid whole part: '' @ num_error ''ParseInt'' ?w)
     | Some wc \<Rightarrow> (case ParseInt ?f of None \<Rightarrow> Inl (''invalid fractional part: '' @ num_error ''ParseInt'' ?f)
        | Some fc \<Rightarrow> let total = wrap64 (wrap64 (wc * 100) + fc)
            in Inr (if neg then wrap64 (- total) else total)))"
    using Cut_digits [OF assms(1), of fs] by (simp add: decimal_cents_def Let_def)
  moreover have "?w = ws" if "\<not> digits_value ws < 2 ^ 63"
    using that by (auto simp: digits_value_def)
  ultimately show ?thesis
    unfolding pf pw by (simp add: wrap64_wrap64_add wrap64_minus split Let_def)
qed

lemma Cut_no_point: "all_digits ws \<Longrightarrow> Cut ws CHR ''.'' = (ws, '''', False)"
  using digits_no_point [of ws] by (simp add: Cut_def takeWhile_eq_all_conv)

lemma ParseInt_whole:
  assumes "all_digits ws"
  shows "ParseInt (if ws = [] then ''0'' else ws) =
    (if digits_value ws < 2 ^ 63 then Some (int (digits_value ws)) else None)"
proof -
  let ?w = "if ws = [] then ''0'' else ws"
  have w: "all_digits ?w" "?w \<noteq> []" "digits_value ?w = digits_value ws"
    using assms by (auto simp: digits_value_def digit_val_def)
  then show ?thesis
    using ParseInt_digits [OF w(1,2)] ParseInt_digits_large [OF w(1)] by simp
qed

text \<open>Without a point the text is all whole part; a point with nothing behind it is refused.\<close>

lemma decimal_cents_no_fraction:
  assumes "all_digits ws"
  shows "decimal_cents neg ws =
    (if digits_value ws < 2 ^ 63
     then Inr (wrap64 (if neg then - int (cents_of_numeral ws '''') else int (cents_of_numeral ws '''')))
     else Inl (''invalid whole part: '' @ num_error ''ParseInt'' ws))"
    and "decimal_cents neg (ws @ ''.'') =
    (if digits_value ws < 2 ^ 63 then Inl (''invalid fractional part: '' @ num_error ''ParseInt'' '''')
     else Inl (''invalid whole part: '' @ num_error ''ParseInt'' ws))"
proof -
  have z: "ParseInt ''00'' = Some 0" "ParseInt '''' = None" by code_simp+
  have big: "ws \<noteq> []" if "\<not> digits_value ws < 2 ^ 63"
    using that by (auto simp: digits_value_def)
  have c: "int (cents_of_numeral ws '''') = int (digits_value ws) * 100"
    by (simp add: cents_of_numeral_def)
  show "decimal_cents neg ws =
    (if digits_value ws < 2 ^ 63
     then Inr (wrap64 (if neg then - int (cents_of_numeral ws '''') else int (cents_of_numeral ws '''')))
     else Inl (''invalid whole part: '' @ num_error ''ParseInt'' ws))"
    using ParseInt_whole [OF assms] big
    by (simp add: decimal_cents_def Cut_no_point [OF assms] z c Let_def wrap64_minus wrap64_id [OF wrap64_range])
  show "decimal_cents neg (ws @ ''.'') =
    (if digits_value ws < 2 ^ 63 then Inl (''invalid fractional part: '' @ num_error ''ParseInt'' '''')
     else Inl (''invalid whole part: '' @ num_error ''ParseInt'' ws))"
    using ParseInt_whole [OF assms] big
    by (simp add: decimal_cents_def Cut_digits [OF assms] z Let_def)
qed

lemma decimal_cents_numeral:
  assumes "all_digits ws" "all_digits fs" "fs \<noteq> []" "cents_of_numeral ws fs < 2 ^ 63"
  shows "decimal_cents neg (ws @ CHR ''.'' # fs) =
    Inr (if neg then - int (cents_of_numeral ws fs) else int (cents_of_numeral ws fs))"
proof -
  have "int (cents_of_numeral ws fs) < 2 ^ 63"
    using assms(4) by (metis of_nat_less_iff of_nat_numeral of_nat_power)
  then have "int64_range (int (cents_of_numeral ws fs))" "int64_range (- int (cents_of_numeral ws fs))"
    by (auto simp: int64_range_def)
  moreover have "digits_value ws < 2 ^ 63"
    using assms(4) cents_of_numeral_split [OF assms(1,2)] by linarith
  ultimately show ?thesis by (simp add: decimal_cents_wraps [OF assms(1-3)])
qed

section \<open>The interface: reading decimal numerals\<close>

locale decimal_reader =
  fixes parse :: "string \<Rightarrow> (string, int) result"
  assumes parse_positive:
    "all_digits ws \<Longrightarrow> all_digits fs \<Longrightarrow> fs \<noteq> [] \<Longrightarrow> cents_of_numeral ws fs < 2 ^ 63 \<Longrightarrow>
      parse (ws @ ''.'' @ fs) = Inr (int (cents_of_numeral ws fs))"
    and parse_negative:
    "all_digits ws \<Longrightarrow> all_digits fs \<Longrightarrow> fs \<noteq> [] \<Longrightarrow> cents_of_numeral ws fs < 2 ^ 63 \<Longrightarrow>
      parse (''-'' @ ws @ ''.'' @ fs) = Inr (- int (cents_of_numeral ws fs))"
begin

lemma parse_render:
  assumes "\<bar>c\<bar> < 2 ^ 63" shows "parse (render_cents c) = Inr c"
proof -
  let ?ws = "show_nat (nat \<bar>c\<bar> div 100)" and ?fs = "two_digits (nat \<bar>c\<bar> mod 100)"
  have "cents_of_numeral ?ws ?fs = nat \<bar>c\<bar>"
    by (simp add: cents_of_numeral_def digits_value_append)
  moreover have "?fs \<noteq> []" by (simp add: two_digits_def)
  moreover have "nat \<bar>c\<bar> < 2 ^ 63" using assms by (simp add: nat_less_iff)
  ultimately show ?thesis
    using parse_positive [of ?ws ?fs] parse_negative [of ?ws ?fs]
    by (cases "c < 0") (simp_all add: render_cents_def)
qed

text \<open>Sub-cent digits are cut off, never rounded, whatever the sign.\<close>

lemma parse_extra_digits:
  assumes "\<bar>c\<bar> < 2 ^ 63" "all_digits extra"
  shows "parse (render_cents c @ extra) = Inr c"
proof -
  let ?ws = "show_nat (nat \<bar>c\<bar> div 100)" and ?fs = "two_digits (nat \<bar>c\<bar> mod 100)"
  have "digits_value extra < 10 ^ length extra" using assms(2) by (rule digits_value_bound)
  then have "(nat \<bar>c\<bar> * 10 ^ length extra + digits_value extra) div 10 ^ length extra = nat \<bar>c\<bar>"
    by simp
  moreover have "digits_value (?ws @ ?fs @ extra) = nat \<bar>c\<bar> * 10 ^ length extra + digits_value extra"
    using assms(2) digits_value_append [of "?ws @ ?fs" extra]
    by (simp add: digits_value_append [of ?ws ?fs])
  moreover have "(100 * X) div 10 ^ length (?fs @ extra) = X div 10 ^ length extra" for X :: nat
    using div_mult_mult1 [of "100 :: nat" X "10 ^ length extra"] by (simp add: power_add)
  ultimately have "cents_of_numeral ?ws (?fs @ extra) = nat \<bar>c\<bar>"
    by (simp only: cents_of_numeral_def)
  moreover have "nat \<bar>c\<bar> < 2 ^ 63" using assms by (simp add: nat_less_iff)
  ultimately show ?thesis
    using parse_positive [of ?ws "?fs @ extra"] parse_negative [of ?ws "?fs @ extra"] assms(2)
    by (cases "c < 0") (simp_all add: render_cents_def)
qed

end

lemma plain_digits: "all_digits s \<Longrightarrow> c \<in> set s \<Longrightarrow> plain_char c"
  by (auto simp: all_digits_def list_all_iff)
    (metis digit_char_digit_val digit_val_bound not_None_eq plain_digit_char)

lemma filter_dollar_digits: "all_digits s \<Longrightarrow> filter dollar_char s = s"
  by (induction s) (auto simp: dollar_char_def)

lemma numeral_starts:
  assumes "all_digits ws"
  shows "\<not> HasPrefix (ws @ CHR ''.'' # fs) ''-''" "\<not> HasPrefix (ws @ CHR ''.'' # fs) ''+''"
  using assms by (cases ws; auto simp: HasPrefix_def digit_val_cases)+

interpretation simplefin_money: decimal_reader parseMoneyToCents
proof
  fix ws fs assume a: "all_digits ws" "all_digits fs" "fs \<noteq> []" "cents_of_numeral ws fs < 2 ^ 63"
  have t: "TrimSpace (ws @ CHR ''.'' # fs) = ws @ CHR ''.'' # fs"
    "TrimSpace (CHR ''-'' # ws @ CHR ''.'' # fs) = CHR ''-'' # ws @ CHR ''.'' # fs"
    using plain_digits [OF a(1)] plain_digits [OF a(2)] by (auto intro!: TrimSpace_plain)
  show "parseMoneyToCents (ws @ ''.'' @ fs) = Inr (int (cents_of_numeral ws fs))"
    using numeral_starts [OF a(1), of fs] decimal_cents_numeral [OF a, of False]
    by (simp add: parseMoneyToCents_def t)
  show "parseMoneyToCents (''-'' @ ws @ ''.'' @ fs) = Inr (- int (cents_of_numeral ws fs))"
    using decimal_cents_numeral [OF a, of True]
    by (simp add: parseMoneyToCents_def t HasPrefix_def)
qed

interpretation vendor_money: decimal_reader parseDollarsToCents
proof
  fix ws fs assume a: "all_digits ws" "all_digits fs" "fs \<noteq> []" "cents_of_numeral ws fs < 2 ^ 63"
  note f = filter_dollar_digits [OF a(1)] filter_dollar_digits [OF a(2)]
  show "parseDollarsToCents (ws @ ''.'' @ fs) = Inr (int (cents_of_numeral ws fs))"
    using numeral_starts [OF a(1), of fs] decimal_cents_numeral [OF a, of False] f
    by (simp add: parseDollarsToCents_def TrimPrefix_def dollar_char_def)
  show "parseDollarsToCents (''-'' @ ws @ ''.'' @ fs) = Inr (- int (cents_of_numeral ws fs))"
    using decimal_cents_numeral [OF a, of True] f
    by (simp add: parseDollarsToCents_def TrimPrefix_def HasPrefix_def dollar_char_def)
qed

lemma columbiagaspa_same_parser:
  "columbiagaspa_parseDollarsToCents = parseDollarsToCents"
  by (simp add: fun_eq_iff columbiagaspa_parseDollarsToCents_def parseDollarsToCents_def Let_def)

interpretation columbia_money: decimal_reader columbiagaspa_parseDollarsToCents
  unfolding columbiagaspa_same_parser by (rule vendor_money.decimal_reader_axioms)

section \<open>Properties\<close>

lemma numeral_no_sign:
  assumes "all_digits ws" "rest = [] \<or> hd rest = CHR ''.''"
  shows "\<not> HasPrefix (ws @ rest) ''-''" "\<not> HasPrefix (ws @ rest) ''+''"
  using assms by (cases ws; cases rest; auto simp: HasPrefix_def digit_val_cases)+

lemma numeral_text_trims:
  assumes "all_digits ws" "all_digits fs" "sign \<in> {'''', ''-'', ''+''}" "rest = '''' \<or> rest = CHR ''.'' # fs"
  shows "TrimSpace (sign @ ws @ rest) = sign @ ws @ rest"
  using plain_digits [OF assms(1)] plain_digits [OF assms(2)] assms(3,4) by (auto intro!: TrimSpace_plain)

text \<open>
  C36. \<^verbatim>\<open>parseMoneyToCents\<close> on every decimal numeral, of any length, with a leading
  minus, plus or neither, with or without a point and with blank space around it: the
  sub-cent digits are cut off exactly (towards zero, no floating point), a whole
  part of \<open>2^63\<close> or more is an error, so is a point without digits behind it, and otherwise the cents
  are the exact value reduced to 64-bit two's complement. Blank text is an error; a missing whole part
  counts as zero, even where nothing but a sign is left.
\<close>

theorem parseMoneyToCents_numeral:
  assumes "all_digits ws" and "all_digits fs" and "sign \<in> {'''', ''-'', ''+''}"
    and "TrimSpace s = sign @ ws @ (if point then CHR ''.'' # fs else '''')" and "point \<or> fs = ''''"
  shows "parseMoneyToCents s =
    (if TrimSpace s = '''' then Inl ''empty amount''
     else if digits_value ws \<ge> 2 ^ 63 then Inl (''invalid whole part: '' @ num_error ''ParseInt'' ws)
     else if point \<and> fs = '''' then Inl (''invalid fractional part: '' @ num_error ''ParseInt'' '''')
     else let cents = int (cents_of_numeral ws fs)
       in Inr (wrap64 (if sign = ''-'' then - cents else cents)))"
proof -
  let ?rest = "if point then CHR ''.'' # fs else ''''"
  have body: "decimal_cents neg (ws @ ?rest) =
    (if digits_value ws \<ge> 2 ^ 63 then Inl (''invalid whole part: '' @ num_error ''ParseInt'' ws)
     else if point \<and> fs = '''' then Inl (''invalid fractional part: '' @ num_error ''ParseInt'' '''')
     else Inr (wrap64 (if neg then - int (cents_of_numeral ws fs) else int (cents_of_numeral ws fs))))" for neg
    using decimal_cents_wraps [OF assms(1,2), of neg] decimal_cents_no_fraction [OF assms(1), of neg] assms(5)
    by (cases "fs = ''''"; cases point) (simp_all add: linorder_not_le)
  have "\<not> HasPrefix (ws @ ?rest) ''-''" "\<not> HasPrefix (ws @ ?rest) ''+''"
    using numeral_no_sign [OF assms(1), of ?rest] by simp_all
  then have "parseMoneyToCents s =
      (if TrimSpace s = '''' then Inl ''empty amount'' else decimal_cents (sign = ''-'') (ws @ ?rest))"
    unfolding parseMoneyToCents_def assms(4) Let_def using assms(3) by (auto simp: HasPrefix_def)
  then show ?thesis unfolding body by (simp add: Let_def)
qed

text \<open>The wrap-around is real: a balance one cent above the largest 64-bit amount reads as the most negative one.\<close>

theorem parseMoneyToCents_numeral_witness:
  "parseMoneyToCents ''92233720368547758.08'' = Inr (- 9223372036854775808) \<and>
   parseMoneyToCents ''+42'' = Inr 4200 \<and>
   parseMoneyToCents ''-7.'' = Inl (''invalid fractional part: '' @ num_error ''ParseInt'' '''')"
proof -
  have d: "all_digits ''92233720368547758''" "all_digits ''08''" "all_digits ''42''" "all_digits ''7''"
    by (simp_all add: digit_val_def)
  have t: "TrimSpace ''92233720368547758.08'' = ''92233720368547758.08''" "TrimSpace ''+42'' = ''+42''"
    "TrimSpace ''-7.'' = ''-7.''"
    by code_simp+
  have v: "digits_value ''92233720368547758'' = 92233720368547758" "digits_value ''42'' = 42"
    "digits_value ''9223372036854775808'' = 9223372036854775808" "digits_value ''7'' = 7"
    by (simp_all add: digits_value_def digit_val_def)
  then have c: "cents_of_numeral ''92233720368547758'' ''08'' = 9223372036854775808"
    "cents_of_numeral ''42'' '''' = 4200"
    by (simp_all add: cents_of_numeral_def)
  have "parseMoneyToCents ''92233720368547758.08'' = Inr (- 9223372036854775808)"
    using parseMoneyToCents_numeral [OF d(1,2), of "''''" _ True] v c by (simp add: t wrap64_def)
  moreover have "parseMoneyToCents ''+42'' = Inr 4200"
    using parseMoneyToCents_numeral [OF d(3), of "''''" "''+''" _ False] v c
    by (simp add: t wrap64_def)
  moreover have "parseMoneyToCents ''-7.'' = Inl (''invalid fractional part: '' @ num_error ''ParseInt'' '''')"
    using parseMoneyToCents_numeral [OF d(4), of "''''" "''-''" _ True] v by (simp add: t)
  ultimately show ?thesis by blast
qed

lemma vendor_text_amount:
  assumes "\<bar>c\<bar> < 2 ^ 63" and "all_digits extra" and "filter dollar_char s = render_cents c @ extra"
  shows "parseDollarsToCents s = Inr c"
proof -
  have "filter dollar_char (render_cents c @ extra) = render_cents c @ extra"
    using assms(3) filter_filter [of dollar_char dollar_char s] by simp
  then have "parseDollarsToCents s = parseDollarsToCents (render_cents c @ extra)"
    using assms(3) by (simp add: parseDollarsToCents_def)
  then show ?thesis using vendor_money.parse_extra_digits [OF assms(1,2)] by simp
qed

text \<open>
  C37. Both portals' \<^verbatim>\<open>parseDollarsToCents\<close> read vendor text by its digits, points and minus
  signs alone: whatever currency symbols, separators or words surround them, text
  whose numeric characters print an amount (with any further decimals) reads as
  that amount.
\<close>

theorem parseDollarsToCents_decorated:
  assumes "\<bar>c\<bar> < 2 ^ 63" and "all_digits extra" and "filter dollar_char s = render_cents c @ extra"
  shows "parseDollarsToCents s = Inr c \<and> columbiagaspa_parseDollarsToCents s = Inr c"
  using vendor_text_amount [OF assms] by (simp add: columbiagaspa_same_parser)

theorem parseDollarsToCents_decorated_witness:
  "parseDollarsToCents ''Amount: $1,234.50 USD'' = Inr 123450 \<and>
   columbiagaspa_parseDollarsToCents ''Amount: $1,234.50 USD'' = Inr 123450"
proof -
  have "filter dollar_char ''Amount: $1,234.50 USD'' = render_cents 123450 @ ''''"
    by (simp add: dollar_char_def digit_val_def render_cents_def two_digits_def show_nat.simps)
  then show ?thesis using parseDollarsToCents_decorated [of 123450 "[]"] by simp
qed

end
