(* ===== verification/Go_Calendar.thy ===== *)
theory Go_Calendar
  imports BT_Prelude
begin

text \<open>
  The proleptic Gregorian calendar behind Go's \<^verbatim>\<open>time\<close> package: calendar
  days, their numbering (day 0 is 1 January of year 1), the normalisation
  \<^verbatim>\<open>time.Date\<close> applies to out-of-range months and days, and the way back
  from a day number to year, month and day. The main facts: numbering and
  reading back are inverse on valid days, and the order of day numbers is the
  order of the calendar days.
\<close>

section \<open>Calendar days\<close>

datatype date = Date (date_year: int) (date_month: int) (date_day: int)

instantiation date :: linorder
begin

definition less_date :: "date \<Rightarrow> date \<Rightarrow> bool" where
  "d < e \<longleftrightarrow> date_year d < date_year e \<or>
     (date_year d = date_year e \<and> (date_month d < date_month e \<or>
       (date_month d = date_month e \<and> date_day d < date_day e)))"

definition less_eq_date :: "date \<Rightarrow> date \<Rightarrow> bool" where
  "(d::date) \<le> e \<longleftrightarrow> d < e \<or> d = e"

instance
proof
  fix x y z :: date
  show "(x < y) = (x \<le> y \<and> \<not> y \<le> x)"
    by (auto simp: less_date_def less_eq_date_def)
  show "x \<le> x" by (simp add: less_eq_date_def)
  show "x \<le> y \<Longrightarrow> y \<le> z \<Longrightarrow> x \<le> z"
    by (auto simp: less_date_def less_eq_date_def)
  show "x \<le> y \<Longrightarrow> y \<le> x \<Longrightarrow> x = y"
    by (auto simp: less_date_def less_eq_date_def)
  show "x \<le> y \<or> y \<le> x"
    by (cases x; cases y) (auto simp: less_date_def less_eq_date_def)
qed

end

lemma Date_less_iff [simp]:
  "Date y m d < Date y' m' d' \<longleftrightarrow> y < y' \<or> (y = y' \<and> (m < m' \<or> (m = m' \<and> d < d')))"
  by (simp add: less_date_def)

lemma Date_le_iff [simp]:
  "Date y m d \<le> Date y' m' d' \<longleftrightarrow> y < y' \<or> (y = y' \<and> (m < m' \<or> (m = m' \<and> d \<le> d')))"
  by (auto simp: less_eq_date_def)

definition is_leap :: "int \<Rightarrow> bool" where
  "is_leap y \<longleftrightarrow> y mod 4 = 0 \<and> (y mod 100 \<noteq> 0 \<or> y mod 400 = 0)"

definition days_in :: "int \<Rightarrow> int \<Rightarrow> int" where
  "days_in y m =
     (if m = 2 then (if is_leap y then 29 else 28)
      else if m = 4 \<or> m = 6 \<or> m = 9 \<or> m = 11 then 30 else 31)"

text \<open>Days of the year before month \<open>m\<close>; month 13 is the end of the year.\<close>

definition days_before :: "int \<Rightarrow> int \<Rightarrow> int" where
  "days_before y m =
     (let l = (if is_leap y then 1 else 0) in
      if m = 1 then 0 else if m = 2 then 31 else if m = 3 then 59 + l
      else if m = 4 then 90 + l else if m = 5 then 120 + l else if m = 6 then 151 + l
      else if m = 7 then 181 + l else if m = 8 then 212 + l else if m = 9 then 243 + l
      else if m = 10 then 273 + l else if m = 11 then 304 + l else if m = 12 then 334 + l
      else 365 + l)"

definition year_start :: "int \<Rightarrow> int" where
  "year_start y = 365 * (y - 1) + (y - 1) div 4 - (y - 1) div 100 + (y - 1) div 400"

definition valid_date :: "date \<Rightarrow> bool" where
  "valid_date d \<longleftrightarrow> 1 \<le> date_month d \<and> date_month d \<le> 12 \<and>
     1 \<le> date_day d \<and> date_day d \<le> days_in (date_year d) (date_month d)"

text \<open>
  \<^verbatim>\<open>time.Date\<close> carries an out-of-range month into the year (\<^verbatim>\<open>norm\<close>) and
  adds the day, whatever its sign, to the first of that month.
\<close>

definition days_of :: "int \<Rightarrow> int \<Rightarrow> int \<Rightarrow> int" where
  "days_of y m d =
     (let y' = y + (m - 1) div 12; m' = (m - 1) mod 12 + 1
      in year_start y' + days_before y' m' + (d - 1))"

definition day_number :: "date \<Rightarrow> int" where
  "day_number d = days_of (date_year d) (date_month d) (date_day d)"

section \<open>From a day number back to the calendar\<close>

definition year_of_day :: "int \<Rightarrow> int" where
  "year_of_day n =
     (let y = (400 * n) div 146097 + 1
      in if n < year_start y then y - 1
         else if year_start (y + 1) \<le> n then y + 1 else y)"

definition month_of_yday :: "int \<Rightarrow> int \<Rightarrow> int" where
  "month_of_yday y k =
     (if k < days_before y 2 then 1 else if k < days_before y 3 then 2
      else if k < days_before y 4 then 3 else if k < days_before y 5 then 4
      else if k < days_before y 6 then 5 else if k < days_before y 7 then 6
      else if k < days_before y 8 then 7 else if k < days_before y 9 then 8
      else if k < days_before y 10 then 9 else if k < days_before y 11 then 10
      else if k < days_before y 12 then 11 else 12)"

definition civil :: "int \<Rightarrow> date" where
  "civil n =
     (let y = year_of_day n; k = n - year_start y; m = month_of_yday y k
      in Date y m (k - days_before y m + 1))"

section \<open>Years and months tile the days\<close>

lemma div_pred:
  assumes "0 < n"
  shows "(y::int) div n = (y - 1) div n + (if y mod n = 0 then 1 else 0)"
proof (cases "y mod n = 0")
  case True
  have "y - 1 = n * (y div n - 1) + (n - 1)"
    using True mult_div_mod_eq [of n y] by (simp add: algebra_simps)
  then have "(y - 1) div n = y div n - 1"
    by (rule int_div_pos_eq) (use assms in auto)
  with True show ?thesis by simp
next
  case False
  have "y - 1 = n * (y div n) + (y mod n - 1)"
    using mult_div_mod_eq [of n y] by simp
  moreover have "0 \<le> y mod n - 1" "y mod n - 1 < n"
    using False assms pos_mod_bound [of n y] pos_mod_sign [of n y] by linarith+
  ultimately have "(y - 1) div n = y div n" by (rule int_div_pos_eq)
  with False show ?thesis by simp
qed

lemma mod_400_100_4: "(y::int) mod 400 = 0 \<Longrightarrow> y mod 100 = 0" "(y::int) mod 100 = 0 \<Longrightarrow> y mod 4 = 0"
  using mod_mod_cancel [of 100 400 y] mod_mod_cancel [of 4 100 y] by simp_all

lemma leap_count:
  fixes y a b c :: int
  assumes "p400 \<Longrightarrow> p100" "p100 \<Longrightarrow> p4"
  shows "365 * y + (a + (if p4 then 1 else 0)) - (b + (if p100 then 1 else 0))
      + (c + (if p400 then 1 else 0))
    = 365 * (y - 1) + a - b + c + (if p4 \<and> (\<not> p100 \<or> p400) then 366 else 365)"
  using assms by (cases p4; cases p100; cases p400) simp_all

lemma year_start_Suc: "year_start (y + 1) = year_start y + (if is_leap y then 366 else 365)"
proof -
  have s: "year_start (y + 1) = 365 * y + y div 4 - y div 100 + y div 400"
    by (simp add: year_start_def)
  have d: "y div 4 = (y - 1) div 4 + (if y mod 4 = 0 then 1 else 0)"
    "y div 100 = (y - 1) div 100 + (if y mod 100 = 0 then 1 else 0)"
    "y div 400 = (y - 1) div 400 + (if y mod 400 = 0 then 1 else 0)"
    by (rule div_pred, simp)+
  show ?thesis
    unfolding s unfolding d unfolding year_start_def is_leap_def
    by (rule leap_count) (erule mod_400_100_4)+
qed

lemma days_before_13: "days_before y 13 = (if is_leap y then 366 else 365)"
  by (simp add: days_before_def)

lemma month_cases:
  assumes "1 \<le> (m::int)" "m \<le> 12"
  obtains "m = 1" | "m = 2" | "m = 3" | "m = 4" | "m = 5" | "m = 6"
    | "m = 7" | "m = 8" | "m = 9" | "m = 10" | "m = 11" | "m = 12"
proof -
  have "m = 1 \<or> m = 2 \<or> m = 3 \<or> m = 4 \<or> m = 5 \<or> m = 6 \<or>
      m = 7 \<or> m = 8 \<or> m = 9 \<or> m = 10 \<or> m = 11 \<or> m = 12"
    using assms by presburger
  then show thesis using that by blast
qed

lemma days_before_Suc:
  assumes "1 \<le> m" "m \<le> 12"
  shows "days_before y (m + 1) = days_before y m + days_in y m"
  using assms by (rule month_cases) (simp_all add: days_before_def days_in_def)

lemma days_in_bounds: "28 \<le> days_in y m" "days_in y m \<le> 31"
  by (auto simp: days_in_def)

lemma days_before_bounds:
  assumes "1 \<le> m" "m \<le> 12"
  shows "0 \<le> days_before y m" "days_before y m + days_in y m \<le> days_before y 13"
  using assms by (rule month_cases; simp add: days_before_def days_in_def)+

lemma days_before_less:
  assumes "1 \<le> m" "m < m'" "m' \<le> 12"
  shows "days_before y m + days_in y m \<le> days_before y m'"
  using assms
proof (induction "nat (m' - m - 1)" arbitrary: m')
  case 0
  then have "m' = m + 1" by simp
  with 0 show ?case using days_before_Suc [of m y] by simp
next
  case (Suc k)
  then have "days_before y m + days_in y m \<le> days_before y (m' - 1)" by auto
  also have "\<dots> \<le> days_before y m'"
    using days_before_Suc [of "m' - 1" y] days_in_bounds(1) [of y "m' - 1"] Suc.prems Suc.hyps(2)
    by auto
  finally show ?case .
qed

lemma year_start_less:
  assumes "y < y'" shows "year_start (y + 1) \<le> year_start y'"
  using assms
proof (induction "nat (y' - y - 1)" arbitrary: y')
  case 0
  then have "y' = y + 1" by simp
  then show ?case by simp
next
  case (Suc k)
  then have "k = nat (y' - 1 - y - 1)" "y < y' - 1" by auto
  then have "year_start (y + 1) \<le> year_start (y' - 1)" by (rule Suc.hyps(1))
  also have "\<dots> \<le> year_start y'" using year_start_Suc [of "y' - 1"] by simp
  finally show ?case .
qed

lemma day_number_valid:
  assumes "valid_date (Date y m d)"
  shows "day_number (Date y m d) = year_start y + days_before y m + (d - 1)"
proof -
  have "1 \<le> m" "m \<le> 12" using assms by (auto simp: valid_date_def)
  then show ?thesis by (simp add: day_number_def days_of_def)
qed

lemma day_number_bounds:
  assumes "valid_date d"
  shows "year_start (date_year d) \<le> day_number d" "day_number d < year_start (date_year d + 1)"
proof -
  obtain y m k where d: "d = Date y m k" by (cases d)
  have m: "1 \<le> m" "m \<le> 12" and k: "1 \<le> k" "k \<le> days_in y m"
    using assms d by (auto simp: valid_date_def)
  note b = days_before_bounds [OF m, of y] days_before_13 [of y] year_start_Suc [of y]
  show "year_start (date_year d) \<le> day_number d" "day_number d < year_start (date_year d + 1)"
    using b k assms unfolding d by (auto simp: day_number_valid split: if_splits)
qed

lemma day_number_less:
  assumes "valid_date d" "valid_date e" "d < e"
  shows "day_number d < day_number e"
proof (cases "date_year d = date_year e")
  case False
  with assms(3) have "date_year d < date_year e" by (auto simp: less_date_def)
  then have "year_start (date_year d + 1) \<le> year_start (date_year e)" by (rule year_start_less)
  with day_number_bounds [OF assms(1)] day_number_bounds [OF assms(2)] show ?thesis by linarith
next
  case True
  obtain y m k m' k' where de: "d = Date y m k" "e = Date y m' k'"
    using True by (cases d; cases e) auto
  have v: "1 \<le> m" "m \<le> 12" "1 \<le> k" "k \<le> days_in y m" "1 \<le> m'" "m' \<le> 12" "1 \<le> k'"
    using assms(1,2) de by (auto simp: valid_date_def)
  from assms(3) de consider "m < m'" | "m = m'" "k < k'" by auto
  then show ?thesis
  proof cases
    case 1
    with days_before_less [of m m' y] v have "days_before y m + days_in y m \<le> days_before y m'"
      by simp
    with assms(1,2) v show ?thesis unfolding de by (simp add: day_number_valid)
  next
    case 2
    with assms(1,2) show ?thesis unfolding de by (simp add: day_number_valid)
  qed
qed

lemma day_number_less_iff:
  "valid_date d \<Longrightarrow> valid_date e \<Longrightarrow> day_number d < day_number e \<longleftrightarrow> d < e"
  using day_number_less by (metis less_asym linorder_neqE)

lemma day_number_inj: "valid_date d \<Longrightarrow> valid_date e \<Longrightarrow> day_number d = day_number e \<Longrightarrow> d = e"
  using day_number_less by (metis less_irrefl linorder_neqE)

section \<open>Reading a day number is inverse to numbering\<close>

text \<open>The estimate \<open>400 n div 146097\<close> is off by at most one year.\<close>

lemma year_start_estimate:
  "146097 * (y - 1) - 699 \<le> 400 * year_start y" "400 * year_start y \<le> 146097 * (y - 1) + 396"
proof -
  define x where "x = y - 1"
  have "x - 3 \<le> 4 * (x div 4)" "4 * (x div 4) \<le> x"
    "x - 99 \<le> 100 * (x div 100)" "100 * (x div 100) \<le> x"
    "x - 399 \<le> 400 * (x div 400)" "400 * (x div 400) \<le> x"
    by presburger+
  moreover have "year_start y = 365 * x + x div 4 - x div 100 + x div 400"
    by (simp add: year_start_def x_def)
  moreover define a b c where "a = x div 4" and "b = x div 100" and "c = x div 400"
  ultimately have "x - 3 \<le> 4 * a" "4 * a \<le> x" "x - 99 \<le> 100 * b" "100 * b \<le> x"
    "x - 399 \<le> 400 * c" "400 * c \<le> x" "year_start y = 365 * x + a - b + c"
    by simp_all
  then show "146097 * (y - 1) - 699 \<le> 400 * year_start y"
    "400 * year_start y \<le> 146097 * (y - 1) + 396"
    unfolding x_def [symmetric] by simp_all
qed

lemma year_of_day_bounds:
  "year_start (year_of_day n) \<le> n" "n < year_start (year_of_day n + 1)"
proof -
  define y where "y = (400 * n) div 146097 + 1"
  have e: "146097 * (y - 1) \<le> 400 * n" "400 * n < 146097 * y"
    using mult_div_mod_eq [of 146097 "400 * n"] pos_mod_bound [of 146097 "400 * n"]
      pos_mod_sign [of 146097 "400 * n"]
    by (simp_all add: y_def algebra_simps)
  have lo: "year_start (y - 1) \<le> n"
    using year_start_estimate(2) [of "y - 1"] e by simp
  have hi: "n < year_start (y + 2)"
    using year_start_estimate(1) [of "y + 2"] e by simp
  show "year_start (year_of_day n) \<le> n" "n < year_start (year_of_day n + 1)"
    using lo hi unfolding year_of_day_def y_def [symmetric] by (auto simp: Let_def add.commute)
qed

lemma month_of_yday_bounds:
  assumes "0 \<le> k" "k < days_before y 13"
  defines "m \<equiv> month_of_yday y k"
  shows "1 \<le> m" "m \<le> 12" "days_before y m \<le> k" "k < days_before y m + days_in y m"
proof -
  have "1 \<le> m \<and> m \<le> 12 \<and> days_before y m \<le> k \<and> k < days_before y (m + 1)"
    using assms(1,2) unfolding m_def month_of_yday_def
    by (simp add: days_before_def [of y 1] split: if_split)
  then show "1 \<le> m" "m \<le> 12" "days_before y m \<le> k" "k < days_before y m + days_in y m"
    using days_before_Suc [of m y] by simp_all
qed

lemma civil_valid: "valid_date (civil n)" and day_number_civil: "day_number (civil n) = n"
proof -
  define y where "y = year_of_day n"
  define k where "k = n - year_start y"
  define m where "m = month_of_yday y k"
  have "0 \<le> k" "k < days_before y 13"
    using year_of_day_bounds [of n] year_start_Suc [of y] days_before_13 [of y]
    unfolding k_def y_def by (auto split: if_splits)
  note m = month_of_yday_bounds [OF this, folded m_def]
  have c: "civil n = Date y m (k - days_before y m + 1)"
    by (simp add: civil_def y_def k_def m_def Let_def)
  then show v: "valid_date (civil n)" using m by (simp add: valid_date_def)
  show "day_number (civil n) = n"
    using v unfolding c by (simp add: day_number_valid k_def)
qed

lemma civil_day_number: "valid_date d \<Longrightarrow> civil (day_number d) = d"
  by (rule day_number_inj) (auto simp: civil_valid day_number_civil)

lemma civil_less_iff: "civil a < civil b \<longleftrightarrow> a < b"
  using day_number_less_iff [OF civil_valid civil_valid, of a b] by (simp add: day_number_civil)

lemma civil_le_iff: "civil a \<le> civil b \<longleftrightarrow> a \<le> b"
  using civil_less_iff [of b a] by (simp add: not_less [symmetric])

end
