(* ===== verification/Go_Time.thy ===== *)
theory Go_Time
  imports Go_Calendar
begin

text \<open>
  Go's \<^verbatim>\<open>time.Time\<close> as this program uses it: an instant (seconds and
  nanoseconds since 1970 UTC) with the location it is read in. The program only
  ever uses two locations, UTC (what a \<^verbatim>\<open>DATE\<close> column and \<^verbatim>\<open>time.Parse\<close>
  give) and the process's local zone. The local zone's rules come from the
  system's zone database, which is not part of the repository: they are a
  parameter \<open>tz\<close>, of which only the range of offsets that the file format
  documents (RFC 8536, section 3.2) is fixed. \<open>regular_location\<close> names the
  further assumption under which calendar days behave: every local midnight
  exists, and midnights come in the order of their days. Instants are
  unbounded integers; the code's are 64-bit, which years 0 to 9999 stay within.
\<close>

section \<open>Zones and locations\<close>

record zone =
  zone_offset :: int
  zone_start :: int
  zone_end :: int

definition fixed_zone :: "int \<Rightarrow> zone" where
  "fixed_zone off = \<lparr>zone_offset = off, zone_start = - (2 ^ 63), zone_end = 2 ^ 63 - 1\<rparr>"

lemma zone_offset_fixed_zone [simp]: "zone_offset (fixed_zone off) = off"
  by (simp add: fixed_zone_def)

typedef tz = "{f :: int \<Rightarrow> zone. \<forall>u. - 90000 < zone_offset (f u) \<and> zone_offset (f u) < 93600}"
  morphisms tz_lookup Tz
  by (rule exI [of _ "\<lambda>_. fixed_zone 0"]) simp

setup_lifting type_definition_tz

text \<open>The zone of a place with one constant offset, used in examples (clamped to the format's range).\<close>

lift_definition fixed_tz :: "int \<Rightarrow> tz" is
  "\<lambda>off _. fixed_zone (if - 90000 < off \<and> off < 93600 then off else 0)"
  by simp

datatype location = UTC | Local

definition lookup :: "tz \<Rightarrow> location \<Rightarrow> int \<Rightarrow> zone" where
  "lookup tz l u = (case l of UTC \<Rightarrow> fixed_zone 0 | Local \<Rightarrow> tz_lookup tz u)"

lemma lookup_UTC [simp]: "lookup tz UTC u = fixed_zone 0"
  by (simp add: lookup_def)

lemma tz_lookup_fixed_tz [simp]:
  "- 90000 < off \<Longrightarrow> off < 93600 \<Longrightarrow> tz_lookup (fixed_tz off) u = fixed_zone off"
  by (simp add: fixed_tz.rep_eq)

lemma lookup_offset_bounds:
  "- 90000 < zone_offset (lookup tz l u)" "zone_offset (lookup tz l u) < 93600"
  using tz_lookup [of tz] by (auto simp: lookup_def split: location.split)

section \<open>Instants\<close>

record time =
  time_sec :: int
  time_nsec :: nat
  time_loc :: location

definition Before :: "time \<Rightarrow> time \<Rightarrow> bool" where
  "Before t u \<longleftrightarrow> time_sec t < time_sec u \<or> (time_sec t = time_sec u \<and> time_nsec t < time_nsec u)"

definition After :: "time \<Rightarrow> time \<Rightarrow> bool" where
  "After t u \<longleftrightarrow> time_sec t > time_sec u \<or> (time_sec t = time_sec u \<and> time_nsec t > time_nsec u)"

definition unix_epoch_day :: int where "unix_epoch_day = 719162"

definition local_sec :: "tz \<Rightarrow> time \<Rightarrow> int" where
  "local_sec tz t = time_sec t + zone_offset (lookup tz (time_loc t) (time_sec t))"

definition time_date :: "tz \<Rightarrow> time \<Rightarrow> date" where
  "time_date tz t = civil (local_sec tz t div 86400 + unix_epoch_day)"

abbreviation Year :: "tz \<Rightarrow> time \<Rightarrow> int" where "Year tz t \<equiv> date_year (time_date tz t)"
abbreviation Month :: "tz \<Rightarrow> time \<Rightarrow> int" where "Month tz t \<equiv> date_month (time_date tz t)"
abbreviation Day :: "tz \<Rightarrow> time \<Rightarrow> int" where "Day tz t \<equiv> date_day (time_date tz t)"

text \<open>
  \<^verbatim>\<open>time.Date\<close> finds the zone by looking the wall-clock seconds up as if they
  were UTC, and looks again when the guess falls outside that zone's interval.
\<close>

definition resolve :: "tz \<Rightarrow> location \<Rightarrow> int \<Rightarrow> int" where
  "resolve tz l u =
     (let z = lookup tz l u in
      if zone_offset z = 0 then u
      else let utc = u - zone_offset z in
        if utc < zone_start z \<or> zone_end z \<le> utc
        then u - zone_offset (lookup tz l utc) else utc)"

definition time_Date :: "tz \<Rightarrow> int \<Rightarrow> int \<Rightarrow> int \<Rightarrow> int \<Rightarrow> int \<Rightarrow> int \<Rightarrow> int \<Rightarrow> location \<Rightarrow> time" where
  "time_Date tz y m d h mi s ns l =
     \<lparr>time_sec = resolve tz l ((days_of y m d - unix_epoch_day) * 86400
        + h * 3600 + mi * 60 + s + ns div 1000000000),
      time_nsec = nat (ns mod 1000000000), time_loc = l\<rparr>"

definition AddDate :: "tz \<Rightarrow> time \<Rightarrow> int \<Rightarrow> int \<Rightarrow> int \<Rightarrow> time" where
  "AddDate tz t ys ms ds =
     (let c = local_sec tz t mod 86400
      in time_Date tz (Year tz t + ys) (Month tz t + ms) (Day tz t + ds)
           (c div 3600) (c mod 3600 div 60) (c mod 60) (int (time_nsec t)) (time_loc t))"

text \<open>\<^verbatim>\<open>t.Add(24 * time.Hour)\<close> and \<^verbatim>\<open>t.Truncate(24 * time.Hour)\<close>.\<close>

definition add_24h :: "time \<Rightarrow> time" where
  "add_24h t = t\<lparr>time_sec := time_sec t + 86400\<rparr>"

definition truncate_24h :: "time \<Rightarrow> time" where
  "truncate_24h t = t\<lparr>time_sec := time_sec t - time_sec t mod 86400, time_nsec := 0\<rparr>"

text \<open>
  The start of the local day with a given number, and what it takes for local
  days to be well behaved.
\<close>

definition day_start :: "tz \<Rightarrow> location \<Rightarrow> int \<Rightarrow> time" where
  "day_start tz l n =
     \<lparr>time_sec = resolve tz l ((n - unix_epoch_day) * 86400), time_nsec = 0, time_loc = l\<rparr>"

definition regular_location :: "tz \<Rightarrow> location \<Rightarrow> bool" where
  "regular_location tz l \<longleftrightarrow>
     (\<forall>n. local_sec tz (day_start tz l n) = (n - unix_epoch_day) * 86400) \<and>
     (\<forall>m n. m < n \<longrightarrow> time_sec (day_start tz l m) < time_sec (day_start tz l n))"

section \<open>Months move forward\<close>

lemma days_of_add_day: "days_of y m (d + k) = days_of y m d + k"
  by (simp add: days_of_def Let_def)

lemma days_of_next_month:
  assumes "1 \<le> m" "m \<le> 12"
  shows "days_of y (m + 1) d = days_of y m d + days_in y m"
proof (cases "m = 12")
  case True
  have "year_start (y + 1) = year_start y + days_before y 12 + 31"
    using year_start_Suc [of y] by (simp add: days_before_def)
  then show ?thesis using True by (simp add: days_of_def Let_def days_before_def days_in_def)
next
  case False
  with assms have "(m + 1 - 1) div 12 = 0" "(m - 1) div 12 = 0" by simp_all
  with False assms days_before_Suc [of m y] show ?thesis
    by (simp add: days_of_def Let_def)
qed

lemma resolve_offset: "\<exists>v. resolve tz l u = u - zone_offset (lookup tz l v)"
  by (auto simp: resolve_def Let_def)

lemma resolve_bounds: "u - 93600 < resolve tz l u" "resolve tz l u < u + 90000"
proof -
  obtain v where "resolve tz l u = u - zone_offset (lookup tz l v)" using resolve_offset by blast
  then show "u - 93600 < resolve tz l u" "resolve tz l u < u + 90000"
    using lookup_offset_bounds [of tz l v] by simp_all
qed

lemma local_sec_bounds: "time_sec t - 90000 < local_sec tz t" "local_sec tz t < time_sec t + 93600"
  using lookup_offset_bounds [of tz "time_loc t" "time_sec t"] by (simp_all add: local_sec_def)

lemma time_date_valid: "valid_date (time_date tz t)"
  by (simp add: time_date_def civil_valid)

lemma days_of_time_date:
  "days_of (Year tz t) (Month tz t) (Day tz t) = local_sec tz t div 86400 + unix_epoch_day"
  using day_number_civil by (simp add: time_date_def day_number_def)

lemma clock_split: "c div 3600 * 3600 + c mod 3600 div 60 * 60 + c mod 60 = (c::int)"
proof -
  have "c mod 3600 mod 60 = c mod 60" by (rule mod_mod_cancel) simp
  then have "c mod 3600 div 60 * 60 + c mod 60 = c mod 3600"
    using div_mult_mod_eq [of "c mod 3600" 60] by simp
  then have "c div 3600 * 3600 + (c mod 3600 div 60 * 60 + c mod 60) = c"
    by (simp only: div_mult_mod_eq)
  then show ?thesis by (simp only: add.assoc)
qed

lemma AddDate_month_sec:
  "\<exists>v. time_sec (AddDate tz t 0 1 0) =
     local_sec tz t + days_in (Year tz t) (Month tz t) * 86400 + int (time_nsec t) div 1000000000
     - zone_offset (lookup tz (time_loc t) v)"
proof -
  define L where "L = local_sec tz t"
  have "1 \<le> Month tz t" "Month tz t \<le> 12"
    using time_date_valid [of tz t] by (auto simp: valid_date_def)
  note n = days_of_next_month [OF this, of "Year tz t" "Day tz t"]
  obtain v where v: "time_sec (AddDate tz t 0 1 0) =
      (days_of (Year tz t) (Month tz t + 1) (Day tz t) - unix_epoch_day) * 86400
      + (L mod 86400) div 3600 * 3600 + (L mod 86400) mod 3600 div 60 * 60 + (L mod 86400) mod 60
      + int (time_nsec t) div 1000000000 - zone_offset (lookup tz (time_loc t) v)"
    using resolve_offset by (simp add: AddDate_def time_Date_def Let_def L_def) blast
  define q r where "q = L div 86400" and "r = L mod 86400"
  define h mi s where "h = r div 3600" and "mi = r mod 3600 div 60" and "s = r mod 60"
  have "q * 86400 + r = L" "h * 3600 + mi * 60 + s = r"
    by (simp_all only: q_def r_def h_def mi_def s_def div_mult_mod_eq clock_split)
  then show ?thesis
    unfolding v n days_of_time_date L_def [symmetric] q_def [symmetric] r_def [symmetric]
      h_def [symmetric] mi_def [symmetric] s_def [symmetric]
    by (intro exI [of _ v]) (simp add: algebra_simps)
qed

text \<open>
  The month cursor of the schedule engine always moves forward, whatever the
  zone database says: a month is longer than any two offsets can differ.
\<close>

lemma AddDate_month_later: "time_sec t < time_sec (AddDate tz t 0 1 0)"
proof -
  obtain v where v: "time_sec (AddDate tz t 0 1 0) =
     local_sec tz t + days_in (Year tz t) (Month tz t) * 86400 + int (time_nsec t) div 1000000000
     - zone_offset (lookup tz (time_loc t) v)"
    using AddDate_month_sec by blast
  have "0 \<le> int (time_nsec t) div 1000000000" by simp
  with v lookup_offset_bounds [of tz "time_loc t" v] local_sec_bounds [where tz = tz and t = t]
    days_in_bounds(1) [of "Year tz t" "Month tz t"]
  show ?thesis by linarith
qed

section \<open>Local midnights\<close>

lemma day_start_simps [simp]:
  "time_nsec (day_start tz l n) = 0" "time_loc (day_start tz l n) = l"
  by (simp_all add: day_start_def)

lemma time_Date_midnight: "time_Date tz y m d 0 0 0 0 l = day_start tz l (days_of y m d)"
  by (simp add: time_Date_def day_start_def)

text \<open>The calendar interface the schedule engine relies on.\<close>

locale local_calendar =
  fixes tz :: tz and l :: location
  assumes midnight_exists: "local_sec tz (day_start tz l n) = (n - unix_epoch_day) * 86400"
    and midnight_order: "m < n \<Longrightarrow> time_sec (day_start tz l m) < time_sec (day_start tz l n)"
begin

lemma day_start_date: "time_date tz (day_start tz l n) = civil n"
  by (simp add: time_date_def midnight_exists)

lemma day_start_sec_less: "time_sec (day_start tz l m) < time_sec (day_start tz l n) \<longleftrightarrow> m < n"
  using midnight_order by (metis less_asym linorder_neqE not_less_iff_gr_or_eq)

lemma day_start_order:
  "Before (day_start tz l m) (day_start tz l n) \<longleftrightarrow> m < n"
  "After (day_start tz l m) (day_start tz l n) \<longleftrightarrow> n < m"
  using day_start_sec_less by (auto simp: Before_def After_def)

lemma day_start_AddDate:
  "AddDate tz (day_start tz l n) ys ms ds =
    day_start tz l (days_of (date_year (civil n) + ys) (date_month (civil n) + ms)
      (date_day (civil n) + ds))"
  by (simp add: AddDate_def midnight_exists day_start_date time_Date_midnight Let_def)

lemma day_start_inj: "day_start tz l m = day_start tz l n \<longleftrightarrow> m = n"
  using day_start_sec_less by (metis linorder_neqE order_less_irrefl)

lemma AddDate_days: "AddDate tz (day_start tz l n) 0 0 k = day_start tz l (n + k)"
  using day_number_civil [of n]
  by (simp add: day_start_AddDate days_of_add_day day_number_def)

end

lemma regular_location_iff: "regular_location tz l \<longleftrightarrow> local_calendar tz l"
  by (auto simp: regular_location_def local_calendar_def)

lemma midnight_of_date:
  "time_Date tz (Year tz t) (Month tz t) (Day tz t) 0 0 0 0 l =
    day_start tz l (day_number (time_date tz t))"
  by (simp add: time_Date_midnight day_number_def)

interpretation utc_days: local_calendar tz UTC for tz
  by unfold_locales (simp_all add: local_sec_def day_start_def resolve_def Let_def)

lemma regular_UTC [simp]: "regular_location tz UTC"
  by (simp add: regular_location_iff utc_days.local_calendar_axioms)

lemma regular_fixed_tz:
  assumes "- 90000 < off" "off < 93600"
  shows "regular_location (fixed_tz off) l"
proof (cases l)
  case Local
  have r: "resolve (fixed_tz off) Local u = u - off" for u
    using assms by (simp add: resolve_def lookup_def Let_def fixed_zone_def)
  show ?thesis
    using assms
    by (simp add: Local regular_location_def local_sec_def day_start_def r lookup_def)
qed simp

end
