(* ===== verification/Bill_Schedule.thy ===== *)
theory Bill_Schedule
  imports Go_Time
begin

text \<open>
  The bill definitions of \<^verbatim>\<open>internal/models/bill.go\<close> and the schedule engine
  \<^verbatim>\<open>NextDueDates\<close>: which calendar days a recurring or one-off rule falls
  due on. \<open>due_on\<close> is the reference specification, day by day; the loop over
  months is shown to enumerate exactly those days of the window, in order.
\<close>

section \<open>Bill definitions\<close>

datatype ScheduleType = ScheduleMonthly | ScheduleQuarterly | ScheduleOneOff | ScheduleVendor

record BillDefinition =
  bd_ID :: int
  bd_Name :: string
  bd_AmountCents :: int
  bd_ScheduleType :: ScheduleType
  bd_DayOfMonth :: "int option"
  bd_QuarterStartMonth :: "int option"
  bd_OneOffDate :: "time option"
  bd_VendorURL :: "string option"
  bd_SimpleFinAccountID :: "int option"
  bd_BootstrapManaged :: bool
  bd_CreatedAt :: time

section \<open>The schedule engine\<close>

definition go_mod :: "int \<Rightarrow> int \<Rightarrow> int" where
  \<comment> \<open>Go's \<open>%\<close> truncates towards zero: the result has the sign of the dividend.\<close>
  "go_mod a b = sgn a * (\<bar>a\<bar> mod \<bar>b\<bar>)"

definition monthDue :: "BillDefinition \<Rightarrow> int \<Rightarrow> bool" where
  "monthDue def m =
     (if bd_ScheduleType def \<noteq> ScheduleQuarterly then True
      else let start = (case bd_QuarterStartMonth def of None \<Rightarrow> 0 | Some start \<Rightarrow> start)
        in go_mod (go_mod (m - start) 3 + 3) 3 = 0)"

definition month_occurrence :: "tz \<Rightarrow> int \<Rightarrow> time \<Rightarrow> time" where
  "month_occurrence tz day cursor =
     (let lastDay = Day tz (AddDate tz cursor 0 1 (- 1));
          d = (if day > lastDay then lastDay else day)
      in time_Date tz (Year tz cursor) (Month tz cursor) d 0 0 0 0 (time_loc cursor))"

function due_loop :: "tz \<Rightarrow> BillDefinition \<Rightarrow> int \<Rightarrow> time \<Rightarrow> time \<Rightarrow> time \<Rightarrow> time list" where
  "due_loop tz def day from to cursor =
     (if After cursor to then []
      else
        (let occurrence = month_occurrence tz day cursor in
         if monthDue def (Month tz cursor) \<and> \<not> Before occurrence from \<and> \<not> After occurrence to
         then [occurrence] else [])
        @ due_loop tz def day from to (AddDate tz cursor 0 1 0))"
  by pat_completeness auto
termination
proof (relation "measure (\<lambda>(tz, def, day, from, to, cursor).
    nat (time_sec to - time_sec cursor + 1))", goal_cases)
  case (2 tz def day "from" to cursor)
  then show ?case
    using AddDate_month_later [of cursor tz] by (auto simp: After_def)
qed simp

declare due_loop.simps [simp del]

definition NextDueDates :: "tz \<Rightarrow> BillDefinition \<Rightarrow> time \<Rightarrow> time \<Rightarrow> time list" where
  "NextDueDates tz def from0 to0 =
     (let from = time_Date tz (Year tz from0) (Month tz from0) (Day tz from0) 0 0 0 0 (time_loc from0);
          to = time_Date tz (Year tz to0) (Month tz to0) (Day tz to0) 0 0 0 0 (time_loc to0)
      in
      if bd_ScheduleType def = ScheduleVendor then []
      else if bd_ScheduleType def = ScheduleOneOff then
        (case bd_OneOffDate def of
           None \<Rightarrow> []
         | Some od \<Rightarrow>
             let d = time_Date tz (Year tz od) (Month tz od) (Day tz od) 0 0 0 0 (time_loc from)
             in if Before d from \<or> After d to then [] else [d])
      else
        (case bd_DayOfMonth def of
           None \<Rightarrow> []
         | Some day \<Rightarrow>
             if bd_ScheduleType def = ScheduleQuarterly \<and> bd_QuarterStartMonth def = None then []
             else due_loop tz def day from to
               (time_Date tz (Year tz from) (Month tz from) 1 0 0 0 0 (time_loc from))))"

section \<open>The reference specification\<close>

text \<open>A definition falls due on day \<open>d\<close>. A short month takes the day to its last one.\<close>

definition due_on :: "tz \<Rightarrow> BillDefinition \<Rightarrow> date \<Rightarrow> bool" where
  "due_on tz def d \<longleftrightarrow>
     (case bd_ScheduleType def of
        ScheduleVendor \<Rightarrow> False
      | ScheduleOneOff \<Rightarrow>
          (case bd_OneOffDate def of None \<Rightarrow> False | Some od \<Rightarrow> d = time_date tz od)
      | ScheduleMonthly \<Rightarrow>
          (case bd_DayOfMonth def of None \<Rightarrow> False
           | Some day \<Rightarrow> date_day d = min day (days_in (date_year d) (date_month d)))
      | ScheduleQuarterly \<Rightarrow>
          (case (bd_DayOfMonth def, bd_QuarterStartMonth def) of
             (Some day, Some start) \<Rightarrow>
               date_day d = min day (days_in (date_year d) (date_month d)) \<and>
               (date_month d - start) mod 3 = 0
           | _ \<Rightarrow> False))"

text \<open>The days of a window, and the instant a day starts at.\<close>

definition date_range :: "date \<Rightarrow> date \<Rightarrow> date list" where
  "date_range d e = map civil [day_number d..day_number e]"

definition local_midnight :: "tz \<Rightarrow> location \<Rightarrow> date \<Rightarrow> time" where
  "local_midnight tz l d = time_Date tz (date_year d) (date_month d) (date_day d) 0 0 0 0 l"

lemma local_midnight_civil: "local_midnight tz l (civil n) = day_start tz l n"
  using day_number_civil [of n] by (simp add: local_midnight_def time_Date_midnight day_number_def)

section \<open>Correctness of the month loop\<close>

lemma go_mod_nonneg: "0 \<le> a \<Longrightarrow> 0 < b \<Longrightarrow> go_mod a b = a mod b"
  by (cases "a = 0") (simp_all add: go_mod_def)

lemma go_mod_3: "go_mod (go_mod a 3 + 3) 3 = 0 \<longleftrightarrow> a mod 3 = 0"
proof -
  have "0 \<le> go_mod a 3 + 3" by (auto simp: go_mod_def sgn_if intro: order_trans)
  then have "go_mod (go_mod a 3 + 3) 3 = (go_mod a 3 + 3) mod 3"
    by (simp add: go_mod_nonneg)
  also have "\<dots> = go_mod a 3 mod 3" by simp
  also have "\<dots> = a mod 3" by (auto simp: go_mod_def sgn_if mod_minus_eq)
  finally show ?thesis by simp
qed

lemma monthDue_simp:
  "monthDue def m \<longleftrightarrow> bd_ScheduleType def \<noteq> ScheduleQuarterly \<or>
     (m - (case bd_QuarterStartMonth def of None \<Rightarrow> 0 | Some s \<Rightarrow> s)) mod 3 = 0"
  by (simp add: monthDue_def go_mod_3 Let_def)

text \<open>The days of one month are consecutive day numbers.\<close>

lemma civil_in_month:
  assumes "civil c = Date y m 1" and "0 \<le> k" "k < days_in y m"
  shows "civil (c + k) = Date y m (1 + k)"
proof -
  have v: "valid_date (Date y m 1)" using civil_valid [of c] assms(1) by simp
  then have v': "valid_date (Date y m (1 + k))" using assms by (auto simp: valid_date_def)
  have "day_number (Date y m (1 + k)) = c + k"
    using v v' day_number_civil [of c] assms(1) by (simp add: day_number_valid)
  then show ?thesis using civil_day_number [OF v'] by simp
qed

lemma days_of_first:
  assumes "civil c = Date y m 1" shows "days_of y m 1 = c"
  using day_number_civil [of c] assms by (simp add: day_number_def)

lemma month_bounds_of_civil:
  assumes "civil c = Date y m d" shows "1 \<le> m" "m \<le> 12" "1 \<le> d" "d \<le> days_in y m"
  using civil_valid [of c] assms by (auto simp: valid_date_def)

lemma civil_next_month:
  assumes "civil c = Date y m 1"
  shows "date_day (civil (c + days_in y m)) = 1"
proof -
  note m = month_bounds_of_civil [OF assms]
  define e where "e = (if m = 12 then Date (y + 1) 1 1 else Date y (m + 1) 1)"
  have ve: "valid_date e" using m days_in_bounds(1) by (auto simp: e_def valid_date_def days_in_def)
  have "day_number e = days_of y (m + 1) 1"
    using m by (auto simp: e_def day_number_def days_of_def Let_def)
  also have "\<dots> = c + days_in y m"
    using days_of_next_month [OF m(1,2), of y 1] days_of_first [OF assms] by simp
  finally show ?thesis using civil_day_number [OF ve] by (auto simp: e_def split: if_splits)
qed

text \<open>Being due, for the schedules that name a day of the month.\<close>

definition monthly_day :: "BillDefinition \<Rightarrow> int \<Rightarrow> date \<Rightarrow> bool" where
  "monthly_day def day d \<longleftrightarrow>
     date_day d = min day (days_in (date_year d) (date_month d)) \<and> monthDue def (date_month d)"

lemma filter_upto_single:
  fixes a b k :: int
  assumes "\<And>n. a \<le> n \<Longrightarrow> n \<le> b \<Longrightarrow> P n \<longleftrightarrow> n = k \<and> Q"
  shows "filter P [a..b] = (if a \<le> k \<and> k \<le> b \<and> Q then [k] else [])"
proof (cases "a \<le> k \<and> k \<le> b \<and> Q")
  case True
  then have "[a..b] = [a..k - 1] @ k # [k + 1..b]" by (simp add: upto_split3)
  moreover have "filter P [a..k - 1] = []" "filter P [k + 1..b] = []" "P k"
    using assms True by (auto simp: filter_empty_conv)
  ultimately show ?thesis using True by simp
next
  case False
  then have "filter P [a..b] = []" using assms by (auto simp: filter_empty_conv)
  with False show ?thesis by simp
qed

lemma upto_split_max:
  fixes a c c' t :: int
  assumes "c \<le> c'" "c \<le> t"
  shows "[max a c..t] = [max a c..min t (c' - 1)] @ [max a c'..t]"
proof (cases "max a c \<le> c' \<and> c' \<le> t")
  case True
  with assms have "max a c' = c'" "min t (c' - 1) = c' - 1" by auto
  with True show ?thesis using upto_split1 [of "max a c" c' t] by simp
next
  case False
  then show ?thesis using assms by (auto simp: max_def min_def)
qed

context local_calendar
begin

lemma month_occurrence_regular:
  assumes "civil c = Date y m 1"
  shows "month_occurrence tz day (day_start tz l c) = day_start tz l (c + min day (days_in y m) - 1)"
proof -
  note m = month_bounds_of_civil [OF assms]
  have "days_of y (m + 1) 0 = c + (days_in y m - 1)"
    using days_of_next_month [OF m(1,2), of y 0] days_of_first [OF assms]
      days_of_add_day [of y m 0 1] by simp
  then have "AddDate tz (day_start tz l c) 0 1 (- 1) = day_start tz l (c + (days_in y m - 1))"
    by (simp add: day_start_AddDate assms)
  moreover have "civil (c + (days_in y m - 1)) = Date y m (days_in y m)"
    using civil_in_month [OF assms, of "days_in y m - 1"] days_in_bounds(1) [of y m] by simp
  ultimately have last: "Day tz (AddDate tz (day_start tz l c) 0 1 (- 1)) = days_in y m"
    by (simp add: day_start_date)
  have "days_of y m k = c + k - 1" for k
    using days_of_add_day [of y m 1 "k - 1"] days_of_first [OF assms] by simp
  then show ?thesis
    by (simp add: month_occurrence_def last day_start_date assms Let_def
        time_Date_midnight min_def)
qed

lemma next_month_regular:
  assumes "civil c = Date y m 1"
  shows "AddDate tz (day_start tz l c) 0 1 0 = day_start tz l (c + days_in y m)"
  using days_of_next_month [of m y 1] month_bounds_of_civil [OF assms] days_of_first [OF assms]
  by (simp add: day_start_AddDate assms)

lemma due_loop_regular:
  assumes "date_day (civil c) = 1" "1 \<le> day"
  shows "due_loop tz def day (day_start tz l f) (day_start tz l t) (day_start tz l c) =
    map (day_start tz l)
      (filter (\<lambda>n. monthly_day def day (civil n)) [max f c..t])"
  using assms(1)
proof (induction "nat (t - c + 1)" arbitrary: c rule: less_induct)
  case less
  obtain y m where c: "civil c = Date y m 1" using less.prems by (cases "civil c") auto
  define c' where "c' = c + days_in y m"
  define k where "k = c + min day (days_in y m) - 1"
  have dim: "28 \<le> days_in y m" by (rule days_in_bounds)
  show ?case
  proof (cases "t < c")
    case True
    then show ?thesis by (simp add: due_loop.simps day_start_order)
  next
    case False
    have k: "c \<le> k" "k < c'" using assms(2) dim by (auto simp: k_def c'_def)
    have in_month: "monthly_day def day (civil n) \<longleftrightarrow> n = k \<and> monthDue def m"
      if "c \<le> n" "n < c'" for n
      using civil_in_month [OF c, of "n - c"] that by (auto simp: c'_def k_def monthly_day_def)
    have "filter (\<lambda>n. monthly_day def day (civil n)) [max f c..min t (c' - 1)] =
        (if max f c \<le> k \<and> k \<le> min t (c' - 1) \<and> monthDue def m then [k] else [])"
      by (rule filter_upto_single) (simp add: in_month)
    moreover have "due_loop tz def day (day_start tz l f) (day_start tz l t) (day_start tz l c') =
        map (day_start tz l) (filter (\<lambda>n. monthly_day def day (civil n)) [max f c'..t])"
      by (rule less.hyps) (use False dim civil_next_month [OF c] in \<open>auto simp: c'_def\<close>)
    moreover have "[max f c..t] = [max f c..min t (c' - 1)] @ [max f c'..t]"
      by (rule upto_split_max) (use dim False in \<open>auto simp: c'_def\<close>)
    ultimately show ?thesis
      using False k
      by (simp add: due_loop.simps [of _ _ _ _ _ "day_start tz l c"] day_start_order day_start_date
          month_occurrence_regular [OF c] next_month_regular [OF c] c k_def [symmetric]
          c'_def [symmetric] not_less not_le)
  qed
qed

lemma local_midnight_date: "valid_date d \<Longrightarrow> time_date tz (local_midnight tz l d) = d"
  using civil_day_number [of d] by (metis local_midnight_civil day_start_date)

lemma one_off_regular:
  assumes "bd_ScheduleType def = ScheduleOneOff" "bd_OneOffDate def = Some od"
  defines "k \<equiv> day_number (time_date tz od)"
  shows "map (day_start tz l) (filter (\<lambda>n. due_on tz def (civil n)) [f..t]) =
    (if Before (day_start tz l k) (day_start tz l f) \<or> After (day_start tz l k) (day_start tz l t)
     then [] else [day_start tz l k])"
proof -
  have "due_on tz def (civil n) \<longleftrightarrow> n = k" for n
    using assms civil_day_number [OF time_date_valid, of tz od] day_number_civil [of n]
    by (auto simp: due_on_def k_def)
  then have "filter (\<lambda>n. due_on tz def (civil n)) [f..t] = (if f \<le> k \<and> k \<le> t \<and> True then [k] else [])"
    by (intro filter_upto_single) simp
  then show ?thesis by (auto simp: day_start_order)
qed

lemma NextDueDates_day_numbers:
  assumes "time_loc from = l" "time_loc to = l"
    and "\<forall>day. bd_DayOfMonth def = Some day \<longrightarrow> 1 \<le> day"
  shows "NextDueDates tz def from to =
    map (day_start tz l) (filter (\<lambda>n. due_on tz def (civil n))
      [day_number (time_date tz from)..day_number (time_date tz to)])"
proof -
  define f t where "f = day_number (time_date tz from)" and "t = day_number (time_date tz to)"
  define c where "c = days_of (date_year (civil f)) (date_month (civil f)) 1"
  have c: "civil c = Date (date_year (civil f)) (date_month (civil f)) 1"
    and cf: "c \<le> f"
  proof -
    define e where "e = Date (date_year (civil f)) (date_month (civil f)) 1"
    have ve: "valid_date e"
      using civil_valid [of f] days_in_bounds(1) [of "date_year (civil f)" "date_month (civil f)"]
      by (auto simp: e_def valid_date_def)
    have ce: "c = day_number e" by (simp add: c_def e_def day_number_def)
    then show "civil c = Date (date_year (civil f)) (date_month (civil f)) 1"
      using civil_day_number [OF ve] by (simp add: e_def)
    have "e \<le> civil f" using civil_valid [of f] by (cases "civil f") (auto simp: e_def valid_date_def)
    then show "c \<le> f" using civil_day_number [OF ve] ce civil_le_iff [of c f] by simp
  qed
  note midnights = midnight_of_date f_def [symmetric] t_def [symmetric]
    day_start_date time_Date_midnight [of tz _ _ 1] c_def [symmetric]
  show ?thesis
  proof (cases "bd_ScheduleType def")
    case ScheduleVendor
    then show ?thesis by (simp add: NextDueDates_def due_on_def)
  next
    case ScheduleOneOff
    then show ?thesis
    proof (cases "bd_OneOffDate def")
      case (Some od)
      note one_off = one_off_regular [OF ScheduleOneOff Some, of f t]
      show ?thesis
        unfolding f_def [symmetric] t_def [symmetric] one_off
        using ScheduleOneOff Some assms(1,2) by (simp add: NextDueDates_def midnights Let_def)
    qed (simp add: NextDueDates_def due_on_def)
  next
    case ScheduleMonthly
    then show ?thesis
    proof (cases "bd_DayOfMonth def")
      case (Some day)
      have "due_on tz def d = monthly_day def day d" for d
        using ScheduleMonthly Some by (simp add: due_on_def monthly_day_def monthDue_def)
      then show ?thesis
        using ScheduleMonthly Some assms c cf
        by (simp add: NextDueDates_def midnights Let_def due_loop_regular max_def)
    qed (simp add: NextDueDates_def due_on_def)
  next
    case ScheduleQuarterly
    then show ?thesis
    proof (cases "bd_DayOfMonth def"; cases "bd_QuarterStartMonth def")
      fix day start
      assume s: "bd_DayOfMonth def = Some day" "bd_QuarterStartMonth def = Some start"
      then have "due_on tz def d = monthly_day def day d" for d
        using ScheduleQuarterly by (simp add: due_on_def monthly_day_def monthDue_simp)
      then show ?thesis
        using ScheduleQuarterly s assms c cf
        by (simp add: NextDueDates_def midnights Let_def due_loop_regular max_def)
    qed (simp_all add: NextDueDates_def due_on_def)
  qed
qed

lemma month_hit:
  fixes y :: int
  assumes "bd_ScheduleType def = ScheduleMonthly" "bd_DayOfMonth def = Some day" "1 \<le> day"
    and "1 \<le> m" "m \<le> 12"
  defines "e \<equiv> Date y m (min day (days_in y m))"
  shows "due_on tz def (civil n) \<and> date_year (civil n) = y \<and> date_month (civil n) = m \<longleftrightarrow>
    n = day_number e"
proof -
  have ve: "valid_date e"
    using assms days_in_bounds(1) [of y m] by (auto simp: e_def valid_date_def)
  have "due_on tz def (civil n) \<and> date_year (civil n) = y \<and> date_month (civil n) = m \<longleftrightarrow> civil n = e"
    using assms(1,2) by (cases "civil n") (auto simp: due_on_def e_def)
  also have "\<dots> \<longleftrightarrow> n = day_number e"
    using civil_day_number [OF ve] day_number_civil [of n] by auto
  finally show ?thesis .
qed

end

section \<open>Properties\<close>

text \<open>
  C1. In a location whose local midnights exist in order, \<^verbatim>\<open>NextDueDates\<close>
  returns the local midnights of exactly the calendar days of the window (both
  ends included) on which the definition is due, in calendar order: no
  occurrence is missed, repeated, out of the window or off midnight.
\<close>

theorem NextDueDates_correct:
  assumes "regular_location tz (time_loc from)" and "time_loc to = time_loc from"
    and "\<forall>day. bd_DayOfMonth def = Some day \<longrightarrow> 1 \<le> day"
  shows "NextDueDates tz def from to =
    map (local_midnight tz (time_loc from))
      (filter (due_on tz def) (date_range (time_date tz from) (time_date tz to)))"
proof -
  have "local_calendar tz (time_loc from)" using assms(1) by (simp add: regular_location_iff)
  from local_calendar.NextDueDates_day_numbers [OF this refl assms(2,3)]
  show ?thesis by (simp add: date_range_def filter_map o_def local_midnight_civil)
qed

text \<open>The electricity bill of the example, due on the 31st, seen from a place five hours west of UTC.\<close>

definition day31_bill :: BillDefinition where
  "day31_bill = \<lparr>bd_ID = 1, bd_Name = ''Electric'', bd_AmountCents = 12843,
     bd_ScheduleType = ScheduleMonthly, bd_DayOfMonth = Some 31, bd_QuarterStartMonth = None,
     bd_OneOffDate = None, bd_VendorURL = None, bd_SimpleFinAccountID = None,
     bd_BootstrapManaged = False, bd_CreatedAt = \<lparr>time_sec = 0, time_nsec = 0, time_loc = UTC\<rparr>\<rparr>"

theorem NextDueDates_correct_witness:
  "regular_location (fixed_tz (- 18000)) Local \<and>
   map (time_date (fixed_tz (- 18000)))
     (NextDueDates (fixed_tz (- 18000)) day31_bill
       \<lparr>time_sec = 1768502700, time_nsec = 7, time_loc = Local\<rparr>
       \<lparr>time_sec = 1773686700, time_nsec = 7, time_loc = Local\<rparr>) =
   [Date 2026 1 31, Date 2026 2 28]"
proof -
  let ?tz = "fixed_tz (- 18000)"
  let ?f = "\<lparr>time_sec = 1768502700, time_nsec = 7, time_loc = Local\<rparr> :: time"
  let ?t = "\<lparr>time_sec = 1773686700, time_nsec = 7, time_loc = Local\<rparr> :: time"
  have r: "regular_location ?tz Local" by (rule regular_fixed_tz) simp_all
  have c: "valid_date d \<Longrightarrow> time_date ?tz (local_midnight ?tz Local d) = d" for d
    using r by (simp add: regular_location_iff local_calendar.local_midnight_date)
  have d: "time_date ?tz ?f = Date 2026 1 15" "time_date ?tz ?t = Date 2026 3 16"
    by (simp_all add: time_date_def local_sec_def lookup_def unix_epoch_day_def) (code_simp+)
  have "filter (due_on ?tz day31_bill) (date_range (Date 2026 1 15) (Date 2026 3 16)) =
      [Date 2026 1 31, Date 2026 2 28]"
    by (simp add: due_on_def day31_bill_def date_range_def) code_simp
  then have "map (time_date ?tz) (NextDueDates ?tz day31_bill ?f ?t) = [Date 2026 1 31, Date 2026 2 28]"
    using NextDueDates_correct [of ?tz ?f ?t day31_bill] r d c
    by (simp add: day31_bill_def [THEN arg_cong, of bd_DayOfMonth] valid_date_def days_in_def)
  with r show ?thesis by simp
qed

text \<open>
  A monthly bill is never skipped and never doubled: in every month that
  lies inside the window it falls due exactly once, on its day of the month or,
  in a month too short for that day, on the month's last day.
\<close>

theorem NextDueDates_once_per_month:
  assumes "regular_location tz (time_loc from)" and "time_loc to = time_loc from"
    and "bd_ScheduleType def = ScheduleMonthly" and "bd_DayOfMonth def = Some day" and "1 \<le> day"
    and "1 \<le> m" and "m \<le> 12"
    and "time_date tz from \<le> Date y m 1" and "Date y m (days_in y m) \<le> time_date tz to"
  shows "filter (\<lambda>t. Year tz t = y \<and> Month tz t = m) (NextDueDates tz def from to) =
    [local_midnight tz (time_loc from) (Date y m (min day (days_in y m)))]"
proof -
  let ?l = "time_loc from"
  let ?e = "Date y m (min day (days_in y m))"
  let ?f = "day_number (time_date tz from)" and ?t = "day_number (time_date tz to)"
  have lc: "local_calendar tz ?l" using assms(1) by (simp add: regular_location_iff)
  have ve: "valid_date ?e" using assms(5-7) days_in_bounds(1) [of y m] by (auto simp: valid_date_def)
  have "time_date tz from \<le> ?e" "?e \<le> time_date tz to"
    using assms(5,8,9) days_in_bounds(1) [of y m]
    by (cases "time_date tz from"; cases "time_date tz to"; auto)+
  then have b: "?f \<le> day_number ?e" "day_number ?e \<le> ?t"
    using civil_le_iff [of ?f "day_number ?e"] civil_le_iff [of "day_number ?e" ?t]
    by (simp_all add: civil_day_number ve time_date_valid)
  have n: "NextDueDates tz def from to = map (day_start tz ?l)
      (filter (\<lambda>n. due_on tz def (civil n)) [?f..?t])"
    using local_calendar.NextDueDates_day_numbers [OF lc refl assms(2)] assms(4,5) by simp
  have "filter (\<lambda>n. due_on tz def (civil n) \<and> date_year (civil n) = y \<and> date_month (civil n) = m) [?f..?t]
      = (if ?f \<le> day_number ?e \<and> day_number ?e \<le> ?t \<and> True then [day_number ?e] else [])"
    by (rule filter_upto_single) (simp add: local_calendar.month_hit [OF lc] assms)
  then show ?thesis
    using b local_midnight_civil [of tz ?l "day_number ?e"]
    by (simp add: n filter_map o_def local_calendar.day_start_date [OF lc] conj_ac
        civil_day_number [OF ve])
qed

text \<open>The bill of the 31st over the February of a leap year.\<close>

theorem NextDueDates_once_per_month_witness:
  "filter (\<lambda>t. Year (fixed_tz 3600) t = 2028 \<and> Month (fixed_tz 3600) t = 2)
     (NextDueDates (fixed_tz 3600) day31_bill
       \<lparr>time_sec = 1830639600, time_nsec = 0, time_loc = Local\<rparr>
       \<lparr>time_sec = 1835823600, time_nsec = 0, time_loc = Local\<rparr>) =
   [local_midnight (fixed_tz 3600) Local (Date 2028 2 29)]"
proof -
  let ?tz = "fixed_tz 3600"
  let ?f = "\<lparr>time_sec = 1830639600, time_nsec = 0, time_loc = Local\<rparr> :: time"
  let ?t = "\<lparr>time_sec = 1835823600, time_nsec = 0, time_loc = Local\<rparr> :: time"
  have r: "regular_location ?tz Local" by (rule regular_fixed_tz) simp_all
  have d: "time_date ?tz ?f = Date 2028 1 5" "time_date ?tz ?t = Date 2028 3 5"
    by (simp_all add: time_date_def local_sec_def lookup_def unix_epoch_day_def) (code_simp+)
  show ?thesis
    using NextDueDates_once_per_month [of ?tz ?f ?t day31_bill 31 2 2028] r d
    by (simp add: day31_bill_def days_in_def is_leap_def)
qed

section \<open>The month loop returns\<close>

text \<open>
  The loop of \<^verbatim>\<open>NextDueDates\<close> as it stands in the code: a condition on the cursor, a list
  that grows, and nothing that says it ends. \<open>None\<close> is a loop that never does.
\<close>

partial_function (option) due_while ::
    "tz \<Rightarrow> BillDefinition \<Rightarrow> int \<Rightarrow> time \<Rightarrow> time \<Rightarrow> time \<Rightarrow> time list \<Rightarrow> time list option" where
  "due_while tz def day from to cursor out =
     (if \<not> After cursor to then
        due_while tz def day from to (AddDate tz cursor 0 1 0)
          (if monthDue def (Month tz cursor) then
             (let occurrence = month_occurrence tz day cursor in
              if \<not> Before occurrence from \<and> \<not> After occurrence to then out @ [occurrence] else out)
           else out)
      else Some out)"

definition NextDueDates_while :: "tz \<Rightarrow> BillDefinition \<Rightarrow> time \<Rightarrow> time \<Rightarrow> time list option" where
  "NextDueDates_while tz def from0 to0 =
     (let from = time_Date tz (Year tz from0) (Month tz from0) (Day tz from0) 0 0 0 0 (time_loc from0);
          to = time_Date tz (Year tz to0) (Month tz to0) (Day tz to0) 0 0 0 0 (time_loc to0)
      in
      if bd_ScheduleType def = ScheduleVendor then Some []
      else if bd_ScheduleType def = ScheduleOneOff then
        (case bd_OneOffDate def of
           None \<Rightarrow> Some []
         | Some od \<Rightarrow>
             let d = time_Date tz (Year tz od) (Month tz od) (Day tz od) 0 0 0 0 (time_loc from)
             in if Before d from \<or> After d to then Some [] else Some [d])
      else
        (case bd_DayOfMonth def of
           None \<Rightarrow> Some []
         | Some day \<Rightarrow>
             if bd_ScheduleType def = ScheduleQuarterly \<and> bd_QuarterStartMonth def = None then Some []
             else due_while tz def day from to
               (time_Date tz (Year tz from) (Month tz from) 1 0 0 0 0 (time_loc from)) []))"

lemma due_while_loop: "due_while tz def day from to cursor out = Some (out @ due_loop tz def day from to cursor)"
proof (induction tz "def" day "from" to cursor arbitrary: out rule: due_loop.induct)
  case (1 tz "def" day "from" to cursor)
  show ?case
  proof (cases "After cursor to")
    case True
    then show ?thesis by (simp add: due_while.simps due_loop.simps [of tz "def"])
  next
    case False
    show ?thesis
      by (subst due_while.simps, subst due_loop.simps) (simp add: False 1 [OF False] Let_def)
  qed
qed

text \<open>
  C16. \<^verbatim>\<open>NextDueDates\<close> always returns: its month loop, which nothing in the code bounds, ends
  for every definition, every window and every zone whose offsets stay within 25 hours of UTC, however they change, and
  the list it has then collected is that of the recursive model.
\<close>

theorem NextDueDates_returns:
  "NextDueDates_while tz def from to = Some (NextDueDates tz def from to)"
  by (cases "bd_ScheduleType def"; cases "bd_OneOffDate def"; cases "bd_DayOfMonth def")
    (simp_all add: NextDueDates_while_def NextDueDates_def due_while_loop Let_def)

end
