(* ===== verification/Go_Dates.thy ===== *)
theory Go_Dates
  imports Bill_Schedule Money
begin

text \<open>
  \<^verbatim>\<open>time.Parse\<close> and \<^verbatim>\<open>Time.Format\<close> for the date-only layouts of the program. A layout
  is the list of chunks Go splits it into. Parsing follows Go's: a blank of the
  layout stands for any number of blanks, a two-digit chunk insists on its digits,
  a plain one takes one or two, month names match whatever their case, the month
  must be in range as it is read and the day once all is read. The text of a parse
  error is shortened to its first words.
\<close>

section \<open>Durations\<close>

text \<open>Durations are 64-bit nanoseconds; a difference of instants saturates, a product wraps.\<close>

definition time_nanos :: "time \<Rightarrow> int" where
  "time_nanos t = time_sec t * 1000000000 + int (time_nsec t)"

definition time_Since :: "time \<Rightarrow> time \<Rightarrow> int" where
  "time_Since now t = max (- (2 ^ 63)) (min (2 ^ 63 - 1) (time_nanos now - time_nanos t))"

definition minutes :: "int \<Rightarrow> int" where
  "minutes n = wrap64 (n * 60000000000)"

section \<open>Layouts\<close>

datatype chunk = Lit char | ZeroMonth | NumMonth | ZeroDay | NumDay | LongYear | ShortName | LongName

definition shortMonthNames :: "string list" where
  "shortMonthNames = [''Jan'', ''Feb'', ''Mar'', ''Apr'', ''May'', ''Jun'', ''Jul'', ''Aug'',
     ''Sep'', ''Oct'', ''Nov'', ''Dec'']"

definition longMonthNames :: "string list" where
  "longMonthNames = [''January'', ''February'', ''March'', ''April'', ''May'', ''June'', ''July'',
     ''August'', ''September'', ''October'', ''November'', ''December'']"

text \<open>\<^verbatim>\<open>2006-01-02\<close>, \<^verbatim>\<open>01/02/2006\<close>, \<^verbatim>\<open>1/2/2006\<close>, \<^verbatim>\<open>January 2, 2006\<close> and \<^verbatim>\<open>Jan 2, 2006\<close>.\<close>

definition layout_iso :: "chunk list" where
  "layout_iso = [LongYear, Lit (CHR ''-''), ZeroMonth, Lit (CHR ''-''), ZeroDay]"

definition layout_us :: "chunk list" where
  "layout_us = [ZeroMonth, Lit (CHR ''/''), ZeroDay, Lit (CHR ''/''), LongYear]"

definition layout_us_short :: "chunk list" where
  "layout_us_short = [NumMonth, Lit (CHR ''/''), NumDay, Lit (CHR ''/''), LongYear]"

definition layout_long :: "chunk list" where
  "layout_long = [LongName, Lit (CHR '' ''), NumDay, Lit (CHR '',''), Lit (CHR '' ''), LongYear]"

definition layout_medium :: "chunk list" where
  "layout_medium = [ShortName, Lit (CHR '' ''), NumDay, Lit (CHR '',''), Lit (CHR '' ''), LongYear]"

section \<open>Parsing\<close>

definition is_digit :: "char \<Rightarrow> bool" where "is_digit c \<longleftrightarrow> digit_val c \<noteq> None"

definition getnum :: "bool \<Rightarrow> string \<Rightarrow> (int \<times> string) option" where
  "getnum fixed s =
     (case s of
        [] \<Rightarrow> None
      | a # t \<Rightarrow>
          (case digit_val a of
             None \<Rightarrow> None
           | Some x \<Rightarrow>
               (case t of
                  b # u \<Rightarrow>
                    (case digit_val b of
                       Some y \<Rightarrow> Some (int (x * 10 + y), u)
                     | None \<Rightarrow> if fixed then None else Some (int x, t))
                | [] \<Rightarrow> if fixed then None else Some (int x, t))))"

fun skip_char :: "char \<Rightarrow> string \<Rightarrow> string option" where
  "skip_char c s =
     (if c = CHR '' ''
      then (if s \<noteq> [] \<and> hd s \<noteq> CHR '' '' then None else Some (dropWhile (\<lambda>x. x = CHR '' '') s))
      else (case s of [] \<Rightarrow> None | x # t \<Rightarrow> if x = c then Some t else None))"

fun lookup_name :: "string list \<Rightarrow> int \<Rightarrow> string \<Rightarrow> (int \<times> string) option" where
  "lookup_name [] i s = None"
| "lookup_name (v # vs) i s =
     (if length v \<le> length s \<and> EqualFold (take (length v) s) v then Some (i, drop (length v) s)
      else lookup_name vs (i + 1) s)"

definition parse_year :: "string \<Rightarrow> (int \<times> string) option" where
  "parse_year s =
     (if length s < 4 then None
      else map_option (\<lambda>n. (int n, drop 4 s)) (ParseUint (take 4 s)))"

text \<open>Year, month and day read so far (Go starts from year 0, and January 1 where unread).\<close>

definition month_chunk :: "(int \<times> string) option \<Rightarrow> (int \<times> string) option" where
  "month_chunk r =
     (case r of None \<Rightarrow> None | Some (m, s) \<Rightarrow> if m \<le> 0 \<or> 12 < m then None else Some (m, s))"

fun parse_chunks :: "chunk list \<Rightarrow> int \<Rightarrow> int \<Rightarrow> int \<Rightarrow> string \<Rightarrow> (int \<times> int \<times> int) option" where
  "parse_chunks [] y m d s = (if s = [] then Some (y, m, d) else None)"
| "parse_chunks (Lit c # l) y m d s =
     (case skip_char c s of None \<Rightarrow> None | Some t \<Rightarrow> parse_chunks l y m d t)"
| "parse_chunks (LongYear # l) y m d s =
     (case parse_year s of None \<Rightarrow> None | Some (y', t) \<Rightarrow> parse_chunks l y' m d t)"
| "parse_chunks (ZeroMonth # l) y m d s =
     (case month_chunk (getnum True s) of None \<Rightarrow> None | Some (m', t) \<Rightarrow> parse_chunks l y m' d t)"
| "parse_chunks (NumMonth # l) y m d s =
     (case month_chunk (getnum False s) of None \<Rightarrow> None | Some (m', t) \<Rightarrow> parse_chunks l y m' d t)"
| "parse_chunks (ShortName # l) y m d s =
     (case lookup_name shortMonthNames 1 s of None \<Rightarrow> None | Some (m', t) \<Rightarrow> parse_chunks l y m' d t)"
| "parse_chunks (LongName # l) y m d s =
     (case lookup_name longMonthNames 1 s of None \<Rightarrow> None | Some (m', t) \<Rightarrow> parse_chunks l y m' d t)"
| "parse_chunks (ZeroDay # l) y m d s =
     (case getnum True s of None \<Rightarrow> None | Some (d', t) \<Rightarrow> parse_chunks l y m d' t)"
| "parse_chunks (NumDay # l) y m d s =
     (case getnum False s of None \<Rightarrow> None | Some (d', t) \<Rightarrow> parse_chunks l y m d' t)"

definition ParseInLocation :: "tz \<Rightarrow> chunk list \<Rightarrow> string \<Rightarrow> location \<Rightarrow> (string, time) result" where
  "ParseInLocation tz layout s l =
     (case parse_chunks layout 0 1 1 s of
        None \<Rightarrow> Inl ''parsing time''
      | Some (y, m, d) \<Rightarrow>
          if d < 1 \<or> days_in y m < d then Inl ''parsing time''
          else Inr (time_Date tz y m d 0 0 0 0 l))"

section \<open>Formatting\<close>

definition four_digits :: "nat \<Rightarrow> string" where
  "four_digits n = two_digits (n div 100) @ two_digits (n mod 100)"

definition pad_year :: "int \<Rightarrow> string" where
  "pad_year y =
     (if y < 0 then ''-'' else '''') @
     (let n = nat \<bar>y\<bar> in if n \<le> 9999 then four_digits n else show_nat n)"

fun format_chunk :: "date \<Rightarrow> chunk \<Rightarrow> string" where
  "format_chunk d (Lit c) = [c]"
| "format_chunk d LongYear = pad_year (date_year d)"
| "format_chunk d ZeroMonth = two_digits (nat (date_month d))"
| "format_chunk d NumMonth = show_nat (nat (date_month d))"
| "format_chunk d ZeroDay = two_digits (nat (date_day d))"
| "format_chunk d NumDay = show_nat (nat (date_day d))"
| "format_chunk d ShortName = shortMonthNames ! nat (date_month d - 1)"
| "format_chunk d LongName = longMonthNames ! nat (date_month d - 1)"

definition Format :: "tz \<Rightarrow> time \<Rightarrow> chunk list \<Rightarrow> string" where
  "Format tz t layout = concat (map (format_chunk (time_date tz t)) layout)"

section \<open>Round trips\<close>

lemma getnum_two_digits: "n < 100 \<Longrightarrow> getnum fixed (two_digits n @ s) = Some (int n, s)"
  by (simp add: getnum_def two_digits_def)

lemma show_nat_small:
  "n < 100 \<Longrightarrow> show_nat n = (if n < 10 then [digit_char n] else two_digits n)"
proof -
  assume "n < 100"
  then have "n div 10 < 10" by simp
  then show ?thesis
    by (simp add: show_nat.simps [of n] show_nat.simps [of "n div 10"] two_digits_def)
qed

lemma getnum_show_nat:
  assumes "n < 100" "s = [] \<or> digit_val (hd s) = None"
  shows "getnum False (show_nat n @ s) = Some (int n, s)"
proof (cases "n < 10")
  case True
  then show ?thesis
    using assms by (cases s) (auto simp: getnum_def show_nat.simps [of n])
next
  case False
  then show ?thesis
    using assms getnum_two_digits [of n False s] by (simp add: show_nat_small)
qed

lemma getnum_fixed_digit: "n < 10 \<Longrightarrow> digit_val c = None \<Longrightarrow> getnum True (show_nat n @ c # s) = None"
  by (simp add: getnum_def show_nat.simps [of n])

lemma four_digits_year: "n \<le> 9999 \<Longrightarrow> parse_year (four_digits n @ s) = Some (int n, s)"
proof -
  assume "n \<le> 9999"
  then have "n div 100 < 100" by simp
  moreover have "n mod 100 < 100" by simp
  moreover have "n = n div 100 * 100 + n mod 100" by simp
  moreover have "read_digits 0 (four_digits n) = Some (10 * (10 * (10 * (n div 100 div 10 mod 10) +
      n div 100 mod 10) + n mod 100 div 10 mod 10) + n mod 100 mod 10)"
    by (simp add: four_digits_def two_digits_def)
  moreover have "10 * (10 * (10 * (a div 10 mod 10) + a mod 10) + b div 10 mod 10) + b mod 10 = a * 100 + b"
    if "a < 100" "b < 100" for a b :: nat
  proof -
    have "a div 10 mod 10 = a div 10" "b div 10 mod 10 = b div 10" using that by simp_all
    moreover have "10 * (a div 10) + a mod 10 = a" "10 * (b div 10) + b mod 10 = b" by simp_all
    ultimately show ?thesis by (simp add: algebra_simps)
  qed
  ultimately have "read_digits 0 (four_digits n) = Some n" by metis
  moreover have "length (four_digits n) = 4" "four_digits n \<noteq> []"
    by (simp_all add: four_digits_def)
  ultimately show ?thesis by (simp add: parse_year_def ParseUint_def)
qed

lemmas month_name_defs = shortMonthNames_def longMonthNames_def EqualFold_def lower_char_def

lemma lookup_short_name:
  assumes "1 \<le> m" "m \<le> (12::int)"
  shows "lookup_name shortMonthNames 1 (shortMonthNames ! nat (m - 1) @ s) = Some (m, s)"
  using assms by (rule month_cases) (simp_all add: month_name_defs)

lemma lookup_long_name:
  assumes "1 \<le> m" "m \<le> (12::int)"
  shows "lookup_name longMonthNames 1 (longMonthNames ! nat (m - 1) @ s) = Some (m, s)"
  using assms by (rule month_cases) (simp_all add: month_name_defs)

text \<open>The layouts of the program, and the dates a four-digit year can write.\<close>

definition date_layouts :: "chunk list list" where
  "date_layouts = [layout_us, layout_us_short, layout_long, layout_medium, layout_iso]"

definition writable :: "date \<Rightarrow> bool" where
  "writable d \<longleftrightarrow> valid_date d \<and> 0 \<le> date_year d \<and> date_year d \<le> 9999"

definition write_date :: "date \<Rightarrow> chunk list \<Rightarrow> string" where
  "write_date d layout = concat (map (format_chunk d) layout)"

lemma digit_val_separators [simp]:
  "digit_val (CHR ''/'') = None" "digit_val (CHR '','') = None" "digit_val (CHR '' '') = None"
  "digit_val (CHR ''-'') = None"
  by (simp_all add: digit_val_def)

lemma digit_char_not_blank: "d < 10 \<Longrightarrow> digit_char d \<noteq> CHR '' ''"
  using digit_val_digit_char digit_val_separators(3) by (metis option.distinct(1))

lemma skip_blank: "s \<noteq> [] \<Longrightarrow> hd s \<noteq> CHR '' '' \<Longrightarrow> skip_char (CHR '' '') (CHR '' '' # s) = Some s"
  by (cases s) auto

lemma skip_blank_num: "skip_char (CHR '' '') (CHR '' '' # show_nat n @ s) = Some (show_nat n @ s)"
proof (rule skip_blank)
  obtain d where "d < 10" "hd (show_nat n) = digit_char d" using hd_show_nat by blast
  then show "hd (show_nat n @ s) \<noteq> CHR '' ''" by (simp add: digit_char_not_blank)
qed simp

lemma skip_blank_year:
  "0 \<le> y \<Longrightarrow> y \<le> 9999 \<Longrightarrow> skip_char (CHR '' '') (CHR '' '' # pad_year y) = Some (pad_year y)"
  by (rule skip_blank)
    (auto simp: pad_year_def four_digits_def two_digits_def Let_def digit_char_not_blank)

lemma skip_other: "c \<noteq> CHR '' '' \<Longrightarrow> skip_char c (x # s) = (if x = c then Some s else None)"
  by simp

declare skip_char.simps [simp del]

lemma parse_pad_year: "0 \<le> y \<Longrightarrow> y \<le> 9999 \<Longrightarrow> parse_year (pad_year y @ s) = Some (y, s)"
proof -
  assume y: "0 \<le> y" "y \<le> 9999"
  then have "nat y \<le> 9999" by simp
  with y show ?thesis by (simp add: pad_year_def Let_def four_digits_year)
qed

lemma parse_pad_year_end: "0 \<le> y \<Longrightarrow> y \<le> 9999 \<Longrightarrow> parse_year (pad_year y) = Some (y, [])"
  using parse_pad_year [of y "[]"] by simp

lemma getnum_two_digits_end: "n < 100 \<Longrightarrow> getnum fixed (two_digits n) = Some (int n, [])"
  using getnum_two_digits [of n fixed "[]"] by simp

lemmas chunk_rules = getnum_two_digits getnum_two_digits_end getnum_show_nat parse_pad_year
  parse_pad_year_end skip_blank_num skip_blank_year skip_other lookup_short_name lookup_long_name
  month_chunk_def

lemma parse_write_date:
  assumes "writable d" "layout \<in> set date_layouts"
  shows "parse_chunks layout 0 1 1 (write_date d layout) = Some (date_year d, date_month d, date_day d)"
proof -
  obtain y m k where d: "d = Date y m k" by (cases d)
  have b: "0 \<le> y" "y \<le> 9999" "1 \<le> m" "m \<le> 12" "1 \<le> k" "k \<le> 31"
    using assms(1) days_in_bounds(2) [of y m] by (auto simp: d writable_def valid_date_def)
  then have n: "nat m < 100" "nat k < 100" "int (nat m) = m" "int (nat k) = k" by auto
  note rules = chunk_rules write_date_def d
  consider "layout = layout_us" | "layout = layout_us_short" | "layout = layout_long"
    | "layout = layout_medium" | "layout = layout_iso"
    using assms(2) by (auto simp: date_layouts_def)
  then show ?thesis
  proof cases
    case 1
    then show ?thesis using b n by (simp add: rules layout_us_def)
  next
    case 2
    then show ?thesis using b n by (simp add: rules layout_us_short_def)
  next
    case 3
    then show ?thesis using b n by (simp add: rules layout_long_def)
  next
    case 4
    then show ?thesis using b n by (simp add: rules layout_medium_def)
  next
    case 5
    then show ?thesis using b n by (simp add: rules layout_iso_def)
  qed
qed

lemma ParseInLocation_write_date:
  assumes "writable d" "layout \<in> set date_layouts"
  shows "ParseInLocation tz layout (write_date d layout) l = Inr (local_midnight tz l d)"
  using assms parse_write_date [OF assms]
  by (cases d) (auto simp: ParseInLocation_def local_midnight_def writable_def valid_date_def)

end
