(* ===== verification/Connectors.thy ===== *)
theory Connectors
  imports Go_Dates
begin

text \<open>
  \<^verbatim>\<open>internal/connectors\<close>: the registry of vendor portals and the two portals it
  holds, \<^verbatim>\<open>billeriq\<close> and \<^verbatim>\<open>columbiagaspa\<close>. The HTML parser is a third-party package
  and the portals are other people's servers; both are parameters: \<open>html_Parse\<close> turns a
  page into a tree, and \<open>portal\<close> answers the last of the requests a login session
  has sent so far (its cookies make an answer depend on the earlier ones). Each
  package carries its own copy of the tree searches: \<^verbatim>\<open>billeriq\<close>'s is written structurally, that of
  \<^verbatim>\<open>columbiagaspa\<close> loop by loop as the code has it, and both are shown to be the same functions.
\<close>

section \<open>Page trees\<close>

datatype node_type = TextNode | ElementNode | OtherNode

datatype node = Node node_type string "(string \<times> string) list" "node list"

fun attr :: "node \<Rightarrow> string \<Rightarrow> string" where
  "attr (Node ty data as cs) key =
     (case find (\<lambda>a. fst a = key) as of None \<Rightarrow> '''' | Some a \<Rightarrow> snd a)"

definition hasClass :: "node \<Rightarrow> string \<Rightarrow> bool" where
  "hasClass n cl \<longleftrightarrow> cl \<in> set (Fields (attr n ''class''))"

fun textContent :: "node \<Rightarrow> string" where
  "textContent (Node ty data as cs) =
     (if ty = TextNode then data else []) @ concat (map textContent cs)"

fun node_kind :: "node \<Rightarrow> node_type" where "node_kind (Node ty data as cs) = ty"
fun node_data :: "node \<Rightarrow> string" where "node_data (Node ty data as cs) = data"

text \<open>The searches go down the first child before its siblings.\<close>

fun findHiddenInputValue :: "node \<Rightarrow> string \<Rightarrow> string option"
  and findHiddenInputValue_in :: "node list \<Rightarrow> string \<Rightarrow> string option" where
  "findHiddenInputValue (Node ty data as cs) name =
     (if ty = ElementNode \<and> data = ''input'' \<and> attr (Node ty data as cs) ''name'' = name
      then Some (attr (Node ty data as cs) ''value'')
      else findHiddenInputValue_in cs name)"
| "findHiddenInputValue_in [] name = None"
| "findHiddenInputValue_in (c # cs) name =
     (case findHiddenInputValue c name of Some v \<Rightarrow> Some v | None \<Rightarrow> findHiddenInputValue_in cs name)"

fun findFirstByClass :: "node \<Rightarrow> string \<Rightarrow> node option"
  and findFirstByClass_in :: "node list \<Rightarrow> string \<Rightarrow> node option" where
  "findFirstByClass (Node ty data as cs) cl =
     (if ty = ElementNode \<and> hasClass (Node ty data as cs) cl then Some (Node ty data as cs)
      else findFirstByClass_in cs cl)"
| "findFirstByClass_in [] cl = None"
| "findFirstByClass_in (c # cs) cl =
     (case findFirstByClass c cl of Some v \<Rightarrow> Some v | None \<Rightarrow> findFirstByClass_in cs cl)"

fun findTextByClass :: "node \<Rightarrow> string \<Rightarrow> string option"
  and findTextByClass_in :: "node list \<Rightarrow> string \<Rightarrow> string option" where
  "findTextByClass (Node ty data as cs) cl =
     (if ty = ElementNode \<and> hasClass (Node ty data as cs) cl
      then Some (TrimSpace (textContent (Node ty data as cs)))
      else findTextByClass_in cs cl)"
| "findTextByClass_in [] cl = None"
| "findTextByClass_in (c # cs) cl =
     (case findTextByClass c cl of Some v \<Rightarrow> Some v | None \<Rightarrow> findTextByClass_in cs cl)"

section \<open>The copies of the other package\<close>

fun columbiagaspa_attr_in :: "(string \<times> string) list \<Rightarrow> string \<Rightarrow> string" where
  "columbiagaspa_attr_in [] key = ''''"
| "columbiagaspa_attr_in ((k, v) # as) key = (if k = key then v else columbiagaspa_attr_in as key)"

fun columbiagaspa_attr :: "node \<Rightarrow> string \<Rightarrow> string" where
  "columbiagaspa_attr (Node ty data as cs) key = columbiagaspa_attr_in as key"

fun columbiagaspa_hasClass_in :: "string list \<Rightarrow> string \<Rightarrow> bool" where
  "columbiagaspa_hasClass_in [] cl = False"
| "columbiagaspa_hasClass_in (c # cs) cl = (if c = cl then True else columbiagaspa_hasClass_in cs cl)"

definition columbiagaspa_hasClass :: "node \<Rightarrow> string \<Rightarrow> bool" where
  "columbiagaspa_hasClass n cl = columbiagaspa_hasClass_in (Fields (columbiagaspa_attr n ''class'')) cl"

text \<open>The walk carries the string builder along.\<close>

fun columbiagaspa_walk :: "node \<Rightarrow> string \<Rightarrow> string"
  and columbiagaspa_walk_in :: "node list \<Rightarrow> string \<Rightarrow> string" where
  "columbiagaspa_walk (Node ty data as cs) sb =
     columbiagaspa_walk_in cs (if ty = TextNode then sb @ data else sb)"
| "columbiagaspa_walk_in [] sb = sb"
| "columbiagaspa_walk_in (c # cs) sb = columbiagaspa_walk_in cs (columbiagaspa_walk c sb)"

definition columbiagaspa_textContent :: "node \<Rightarrow> string" where
  "columbiagaspa_textContent n = columbiagaspa_walk n []"

fun columbiagaspa_findFirstByClass :: "node \<Rightarrow> string \<Rightarrow> node option"
  and columbiagaspa_findFirstByClass_in :: "node list \<Rightarrow> string \<Rightarrow> node option" where
  "columbiagaspa_findFirstByClass (Node ty data as cs) cl =
     (if ty = ElementNode \<and> columbiagaspa_hasClass (Node ty data as cs) cl then Some (Node ty data as cs)
      else columbiagaspa_findFirstByClass_in cs cl)"
| "columbiagaspa_findFirstByClass_in [] cl = None"
| "columbiagaspa_findFirstByClass_in (c # cs) cl =
     (case columbiagaspa_findFirstByClass c cl of Some v \<Rightarrow> Some v
      | None \<Rightarrow> columbiagaspa_findFirstByClass_in cs cl)"

fun columbiagaspa_findTextByClass :: "node \<Rightarrow> string \<Rightarrow> string option"
  and columbiagaspa_findTextByClass_in :: "node list \<Rightarrow> string \<Rightarrow> string option" where
  "columbiagaspa_findTextByClass (Node ty data as cs) cl =
     (if ty = ElementNode \<and> columbiagaspa_hasClass (Node ty data as cs) cl
      then Some (TrimSpace (columbiagaspa_textContent (Node ty data as cs)))
      else columbiagaspa_findTextByClass_in cs cl)"
| "columbiagaspa_findTextByClass_in [] cl = None"
| "columbiagaspa_findTextByClass_in (c # cs) cl =
     (case columbiagaspa_findTextByClass c cl of Some v \<Rightarrow> Some v
      | None \<Rightarrow> columbiagaspa_findTextByClass_in cs cl)"

lemma columbiagaspa_attr [simp]: "columbiagaspa_attr n key = attr n key"
proof -
  have "columbiagaspa_attr_in as key = (case find (\<lambda>a. fst a = key) as of None \<Rightarrow> '''' | Some a \<Rightarrow> snd a)" for as
    by (induction as key rule: columbiagaspa_attr_in.induct) simp_all
  then show ?thesis by (cases n) simp
qed

lemma columbiagaspa_hasClass [simp]: "columbiagaspa_hasClass n cl = hasClass n cl"
proof -
  have "columbiagaspa_hasClass_in cs cl \<longleftrightarrow> cl \<in> set cs" for cs by (induction cs) auto
  then show ?thesis by (simp add: columbiagaspa_hasClass_def hasClass_def)
qed

lemma columbiagaspa_walk:
  "columbiagaspa_walk n sb = sb @ textContent n"
  "columbiagaspa_walk_in ns sb = sb @ concat (map textContent ns)"
  by (induction n sb and ns sb rule: columbiagaspa_walk_columbiagaspa_walk_in.induct) simp_all

lemma columbiagaspa_textContent [simp]: "columbiagaspa_textContent n = textContent n"
  by (simp add: columbiagaspa_textContent_def columbiagaspa_walk)

lemma columbiagaspa_findFirstByClass [simp]:
  "columbiagaspa_findFirstByClass n cl = findFirstByClass n cl"
  "columbiagaspa_findFirstByClass_in ns cl = findFirstByClass_in ns cl"
proof (induction n cl and ns cl rule: findFirstByClass_findFirstByClass_in.induct)
  case (1 ty data as cs cl)
  then show ?case by (cases ty) simp_all
qed (simp_all split: option.split)

lemma columbiagaspa_findTextByClass [simp]:
  "columbiagaspa_findTextByClass n cl = findTextByClass n cl"
  "columbiagaspa_findTextByClass_in ns cl = findTextByClass_in ns cl"
proof (induction n cl and ns cl rule: findTextByClass_findTextByClass_in.induct)
  case (1 ty data as cs cl)
  then show ?case by (cases ty) simp_all
qed (simp_all split: option.split)

section \<open>Due dates as the portals write them\<close>

fun first_layout :: "tz \<Rightarrow> chunk list list \<Rightarrow> string \<Rightarrow> (string, time) result" where
  "first_layout tz [] s = Inl ''''"
| "first_layout tz (f # fs) s =
     (case ParseInLocation tz f s Local of
        Inr t \<Rightarrow> Inr t
      | Inl e \<Rightarrow> if fs = [] then Inl e else first_layout tz fs s)"

definition parseDueDate :: "tz \<Rightarrow> string \<Rightarrow> (string, time) result" where
  "parseDueDate tz s = first_layout tz date_layouts (TrimSpace s)"

definition regex_space :: "char \<Rightarrow> bool" where
  "regex_space c \<longleftrightarrow> of_char c \<in> {9, 10, 12, 13, 32 :: nat}"

text \<open>\<^verbatim>\<open>(?i)^Due on\s+\<close> replaced by nothing.\<close>

definition strip_due_on :: "string \<Rightarrow> string" where
  "strip_due_on s =
     (if EqualFold (take 6 s) ''Due on'' \<and> drop 6 s \<noteq> [] \<and> regex_space (hd (drop 6 s))
      then dropWhile regex_space (drop 6 s) else s)"

definition columbiagaspa_parseDueDate :: "tz \<Rightarrow> string \<Rightarrow> (string, time) result" where
  "columbiagaspa_parseDueDate tz s =
     (let s' = TrimSpace (strip_due_on (TrimSpace s)) in
      case ParseInLocation tz layout_medium s' Local of
        Inr t \<Rightarrow> Inr t
      | Inl e \<Rightarrow> ParseInLocation tz layout_long s' Local)"

section \<open>Portals\<close>

record Credentials =
  cred_Tenant :: string
  cred_Username :: string
  cred_Password :: string

record BillSnapshot =
  snap_AmountCents :: int
  snap_DueDate :: time
  snap_AccountNumber :: string

record web_request =
  wr_Method :: string
  wr_URL :: string
  wr_Form :: "(string \<times> string) list"
  wr_Header :: "(string \<times> string) list"

record web_page =
  wp_StatusCode :: int
  wp_Path :: string
  wp_Body :: "(string, string) result"

type_synonym portal = "web_request list \<Rightarrow> (string, web_page) result"
type_synonym connector = "Credentials \<Rightarrow> (string, BillSnapshot) result"

definition wrap_error :: "string \<Rightarrow> (string, 'a) result \<Rightarrow> (string, 'a) result" where
  "wrap_error msg r = (case r of Inl e \<Rightarrow> Inl (msg @ e) | Inr x \<Rightarrow> Inr x)"

definition bindR :: "(string, 'a) result \<Rightarrow> ('a \<Rightarrow> (string, 'b) result) \<Rightarrow> (string, 'b) result" where
  "bindR r f = (case r of Inl e \<Rightarrow> Inl e | Inr x \<Rightarrow> f x)"

definition orFail :: "'a option \<Rightarrow> string \<Rightarrow> (string, 'a) result" where
  "orFail x e = (case x of None \<Rightarrow> Inl e | Some v \<Rightarrow> Inr v)"

text \<open>
  \<^verbatim>\<open>http.NewRequest\<close> parses the URL it is given; which texts it refuses, and with what error, is
  the parameter \<open>check\<close>.
\<close>

type_synonym url_check = "string \<Rightarrow> string option"

definition NewRequest :: "url_check \<Rightarrow> string \<Rightarrow> (string, unit) result" where
  "NewRequest check url = (case check url of None \<Rightarrow> Inr () | Some e \<Rightarrow> Inl e)"

definition fetchLoginTokens ::
    "url_check \<Rightarrow> portal \<Rightarrow> (string \<Rightarrow> node) \<Rightarrow> string \<Rightarrow> (string, string \<times> string) result" where
  "fetchLoginTokens check portal html_Parse loginPageURL =
     bindR (NewRequest check loginPageURL) (\<lambda>_.
     case portal [\<lparr>wr_Method = ''GET'', wr_URL = loginPageURL, wr_Form = [], wr_Header = []\<rparr>] of
        Inl e \<Rightarrow> Inl e
      | Inr resp \<Rightarrow>
          if wp_StatusCode resp \<noteq> 200 then Inl (''unexpected status '' @ Itoa (wp_StatusCode resp))
          else
            bindR (wrap_error ''parsing login page: '' (wp_Body resp)) (\<lambda>body.
            let doc = html_Parse body in
            bindR (orFail (findHiddenInputValue doc ''__RequestVerificationToken'')
              ''__RequestVerificationToken not found on login page'') (\<lambda>token.
            bindR (orFail (findHiddenInputValue doc ''FastPaySelection'')
              ''FastPaySelection not found on login page'') (\<lambda>fastPay.
            Inr (token, fastPay)))))"

definition billeriq_scrape :: "tz \<Rightarrow> node \<Rightarrow> (string, BillSnapshot) result" where
  "billeriq_scrape tz doc =
     (let searchRoot = (case findFirstByClass doc ''collection-body'' of None \<Rightarrow> doc | Some n \<Rightarrow> n) in
      bindR (orFail (findTextByClass searchRoot ''due-date'')
        ''billeriq: due-date not found on BillPay page'') (\<lambda>dueDateText.
      bindR (orFail (findTextByClass searchRoot ''invoice-amount'')
        ''billeriq: invoice-amount not found on BillPay page'') (\<lambda>amountText.
      let acctText = (case findTextByClass searchRoot ''account-display-first-line'' of
            None \<Rightarrow> '''' | Some t \<Rightarrow> t) in
      bindR (wrap_error (''billeriq: parsing due date '' @ Quote dueDateText @ '': '')
        (parseDueDate tz dueDateText)) (\<lambda>dueDate.
      bindR (wrap_error (''billeriq: parsing invoice amount '' @ Quote amountText @ '': '')
        (parseDollarsToCents amountText)) (\<lambda>amountCents.
      Inr \<lparr>snap_AmountCents = amountCents, snap_DueDate = dueDate,
           snap_AccountNumber = TrimSpace acctText\<rparr>)))))"

text \<open>
  A client has the base URL of its portal and, in tests, an HTTP client of its own; otherwise each
  fetch makes a fresh one with an empty cookie jar, the parameter \<open>fresh\<close>. Cookies are a matter of the
  portal, which sees all requests of a session.
\<close>

record Client =
  cl_BaseURL :: string
  cl_HTTP :: "portal option"

type_synonym columbiagaspa_Client = Client

definition billeriq_slug :: string where
  "billeriq_slug = ''billeriq''"

definition billeriq_DefaultBaseURL :: string where
  "billeriq_DefaultBaseURL = ''https://fnbezinvoice.billeriq.com''"

definition billeriq_New :: Client where
  "billeriq_New = \<lparr>cl_BaseURL = billeriq_DefaultBaseURL, cl_HTTP = None\<rparr>"

definition billeriq_Slug :: "Client \<Rightarrow> string" where
  "billeriq_Slug c = billeriq_slug"

definition billeriq_httpClient :: "portal \<Rightarrow> Client \<Rightarrow> portal" where
  "billeriq_httpClient fresh c = (case cl_HTTP c of Some http \<Rightarrow> http | None \<Rightarrow> fresh)"

definition columbiagaspa_slug :: string where
  "columbiagaspa_slug = ''columbiagaspa''"

definition columbiagaspa_DefaultBaseURL :: string where
  "columbiagaspa_DefaultBaseURL = ''https://myaccount.columbiagaspa.com''"

definition columbiagaspa_New :: columbiagaspa_Client where
  "columbiagaspa_New = \<lparr>cl_BaseURL = columbiagaspa_DefaultBaseURL, cl_HTTP = None\<rparr>"

definition columbiagaspa_Slug :: "columbiagaspa_Client \<Rightarrow> string" where
  "columbiagaspa_Slug c = columbiagaspa_slug"

definition columbiagaspa_httpClient :: "portal \<Rightarrow> columbiagaspa_Client \<Rightarrow> portal" where
  "columbiagaspa_httpClient fresh c = (case cl_HTTP c of Some http \<Rightarrow> http | None \<Rightarrow> fresh)"

definition billeriq_FetchBill ::
    "tz \<Rightarrow> url_check \<Rightarrow> portal \<Rightarrow> (string \<Rightarrow> node) \<Rightarrow> Client \<Rightarrow> connector" where
  "billeriq_FetchBill tz check fresh html_Parse c creds =
     (if cred_Tenant creds = '''' then Inl ''billeriq: tenant is required''
      else
        let portal = billeriq_httpClient fresh c;
            base = TrimRight (cl_BaseURL c) (CHR ''/'');
            loginPageURL = base @ ''/ebpp/'' @ cred_Tenant creds @ ''/Login/Index'';
            loginPostURL = base @ ''/ebpp/'' @ cred_Tenant creds @ ''/Login'' in
        bindR (wrap_error ''billeriq: fetching login page: ''
          (fetchLoginTokens check portal html_Parse loginPageURL)) (\<lambda>(token, fastPay).
        let login = \<lparr>wr_Method = ''POST'', wr_URL = loginPostURL,
              wr_Form = [(''FastPaySelection'', fastPay), (''Login'', cred_Username creds),
                (''Password'', cred_Password creds), (''__RequestVerificationToken'', token)],
              wr_Header = [(''Content-Type'', ''application/x-www-form-urlencoded'')]\<rparr> in
        bindR (NewRequest check loginPostURL) (\<lambda>_.
        bindR (wrap_error ''billeriq: logging in: ''
          (portal [\<lparr>wr_Method = ''GET'', wr_URL = loginPageURL, wr_Form = [], wr_Header = []\<rparr>, login])) (\<lambda>resp.
        bindR (wrap_error ''billeriq: reading BillPay response: '' (wp_Body resp)) (\<lambda>body.
        if wp_StatusCode resp \<noteq> 200
        then Inl (''billeriq: unexpected status '' @ Itoa (wp_StatusCode resp) @ '' fetching BillPay page'')
        else if \<not> Contains (wp_Path resp) ''/BillPay''
        then Inl (''billeriq: login did not reach BillPay (landed on '' @ wp_Path resp @
               '') - check username/password'')
        else billeriq_scrape tz (html_Parse body))))))"

definition columbiagaspa_scrape :: "tz \<Rightarrow> node \<Rightarrow> (string, BillSnapshot) result" where
  "columbiagaspa_scrape tz doc =
     bindR (orFail (columbiagaspa_findFirstByClass doc ''box--balance-details'')
       ''columbiagaspa: login did not reach the account dashboard - check username/password'') (\<lambda>searchRoot.
     bindR (orFail (columbiagaspa_findTextByClass searchRoot ''balance-due-on'')
       ''columbiagaspa: balance-due-on not found on account page'') (\<lambda>dueDateText.
     bindR (orFail (columbiagaspa_findTextByClass searchRoot ''h1'')
       ''columbiagaspa: current-charges amount not found on account page'') (\<lambda>amountText.
     bindR (wrap_error (''columbiagaspa: parsing due date '' @ Quote dueDateText @ '': '')
       (columbiagaspa_parseDueDate tz dueDateText)) (\<lambda>dueDate.
     bindR (wrap_error (''columbiagaspa: parsing current charges '' @ Quote amountText @ '': '')
       (columbiagaspa_parseDollarsToCents amountText)) (\<lambda>amountCents.
     Inr \<lparr>snap_AmountCents = amountCents, snap_DueDate = dueDate, snap_AccountNumber = ''''\<rparr>)))))"

definition columbiagaspa_userAgent :: string where
  "columbiagaspa_userAgent = ''Mozilla/5.0 (Windows NT 10.0; Win64; x64) AppleWebKit/537.36 (KHTML, like Gecko) Chrome/150.0.0.0 Safari/537.36''"

definition columbia_headers :: "(string \<times> string) list" where
  "columbia_headers =
     [(''Content-Type'', ''application/x-www-form-urlencoded''),
      (''User-Agent'', columbiagaspa_userAgent),
      (''Accept'', ''text/html,application/xhtml+xml,application/xml;q=0.9,*/*;q=0.8''),
      (''Origin'', ''https://www.columbiagaspa.com''),
      (''Referer'', ''https://www.columbiagaspa.com/'')]"

definition columbiagaspa_FetchBill ::
    "tz \<Rightarrow> url_check \<Rightarrow> portal \<Rightarrow> (string \<Rightarrow> node) \<Rightarrow> columbiagaspa_Client \<Rightarrow> connector" where
  "columbiagaspa_FetchBill tz check fresh html_Parse c creds =
     (let portal = columbiagaspa_httpClient fresh c;
          base = TrimRight (cl_BaseURL c) (CHR ''/'');
          login = \<lparr>wr_Method = ''POST'', wr_URL = base @ ''/login'',
            wr_Form = [(''password'', cred_Password creds), (''rememberme'', ''true''),
              (''username'', cred_Username creds)],
            wr_Header = columbia_headers\<rparr> in
      bindR (NewRequest check (base @ ''/login'')) (\<lambda>_.
      bindR (wrap_error ''columbiagaspa: logging in: '' (portal [login])) (\<lambda>resp.
      bindR (wrap_error ''columbiagaspa: reading login response: '' (wp_Body resp)) (\<lambda>body.
      if wp_StatusCode resp \<noteq> 200
      then Inl (''columbiagaspa: unexpected status '' @ Itoa (wp_StatusCode resp) @ '' logging in'')
      else columbiagaspa_scrape tz (html_Parse body)))))"

section \<open>The registry\<close>

type_synonym registry = "string \<rightharpoonup> connector"

definition connectors_Register :: "string \<Rightarrow> connector \<Rightarrow> registry \<Rightarrow> registry" where
  "connectors_Register slug c reg = reg(slug \<mapsto> c)"

definition connectors_Get :: "registry \<Rightarrow> string \<Rightarrow> (string, connector) result" where
  "connectors_Get reg slug =
     (case reg slug of None \<Rightarrow> Inl (''no connector registered for '' @ Quote slug) | Some c \<Rightarrow> Inr c)"

text \<open>
  Each package registers a client with its default base URL under its slug; the server imports
  both packages for that effect alone.
\<close>

definition billeriq_init :: "tz \<Rightarrow> url_check \<Rightarrow> portal \<Rightarrow> (string \<Rightarrow> node) \<Rightarrow> registry \<Rightarrow> registry" where
  "billeriq_init tz check fresh html_Parse =
     connectors_Register (billeriq_Slug billeriq_New) (billeriq_FetchBill tz check fresh html_Parse billeriq_New)"

definition columbiagaspa_init :: "tz \<Rightarrow> url_check \<Rightarrow> portal \<Rightarrow> (string \<Rightarrow> node) \<Rightarrow> registry \<Rightarrow> registry" where
  "columbiagaspa_init tz check fresh html_Parse =
     connectors_Register (columbiagaspa_Slug columbiagaspa_New) (columbiagaspa_FetchBill tz check fresh html_Parse columbiagaspa_New)"

definition init_registry :: "tz \<Rightarrow> url_check \<Rightarrow> portal \<Rightarrow> (string \<Rightarrow> node) \<Rightarrow> registry" where
  "init_registry tz check portal html_Parse =
     columbiagaspa_init tz check portal html_Parse (billeriq_init tz check portal html_Parse Map.empty)"

section \<open>The searches find the first match in document order\<close>

fun preorder :: "node \<Rightarrow> node list" where
  "preorder (Node ty data as cs) = Node ty data as cs # concat (map preorder cs)"

lemma find_append: "find P (xs @ ys) = (case find P xs of Some x \<Rightarrow> Some x | None \<Rightarrow> find P ys)"
  by (induction xs) auto

lemma findFirstByClass_preorder:
  "findFirstByClass n cl = find (\<lambda>m. node_kind m = ElementNode \<and> hasClass m cl) (preorder n)"
  "findFirstByClass_in ns cl =
     find (\<lambda>m. node_kind m = ElementNode \<and> hasClass m cl) (concat (map preorder ns))"
  by (induction n cl and ns cl rule: findFirstByClass_findFirstByClass_in.induct)
    (auto simp: find_append split: option.split)

lemma findTextByClass_first:
  "findTextByClass n cl = map_option (\<lambda>m. TrimSpace (textContent m)) (findFirstByClass n cl)"
  "findTextByClass_in ns cl = map_option (\<lambda>m. TrimSpace (textContent m)) (findFirstByClass_in ns cl)"
  by (induction n cl and ns cl rule: findFirstByClass_findFirstByClass_in.induct)
    (auto split: option.split)

text \<open>
  The text a portal page yields for a class is the trimmed text of the first
  element of the page, in document order, whose class list names that class, in both packages.
\<close>

theorem findTextByClass_document_order:
  "findTextByClass n cl = map_option (\<lambda>m. TrimSpace (textContent m))
     (find (\<lambda>m. node_kind m = ElementNode \<and> hasClass m cl) (preorder n)) \<and>
   columbiagaspa_findTextByClass n cl = findTextByClass n cl"
  by (simp add: findTextByClass_first findFirstByClass_preorder)

section \<open>Every layout a portal may use\<close>

lemma first_layout_agrees:
  assumes "ParseInLocation tz f s Local = Inr t"
    and "\<forall>g \<in> set pre. parse_chunks g 0 1 1 s \<in> {None, parse_chunks f 0 1 1 s}"
  shows "first_layout tz (pre @ f # post) s = Inr t"
  using assms(2)
proof (induction pre)
  case (Cons g gs)
  then show ?case
    using assms(1) by (auto simp: ParseInLocation_def)
qed (use assms(1) in simp)

lemma parse_us_of_short_text:
  assumes "m < 100" "k < 100" "m < 10 \<or> k < 10"
  shows "parse_chunks layout_us y0 m0 d0 (show_nat m @ CHR ''/'' # show_nat k @ CHR ''/'' # s) = None"
proof (cases "m < 10")
  case True
  then show ?thesis by (simp add: layout_us_def getnum_fixed_digit month_chunk_def)
next
  case False
  then have "getnum True (show_nat m @ u) = Some (int m, u)" for u
    using assms by (simp add: show_nat_small getnum_two_digits)
  with False assms show ?thesis
    by (simp add: layout_us_def month_chunk_def skip_other getnum_fixed_digit)
qed

lemma getnum_letter: "digit_val c = None \<Longrightarrow> getnum f (c # s) = None"
  by (simp add: getnum_def)

lemma getnum_then_digit:
  assumes "getnum f (a # b # c # s) = Some (n, t)" "digit_val b \<noteq> None"
  shows "t = c # s"
  using assms by (auto simp: getnum_def split: option.splits)

lemma parse_year_digits:
  assumes "digit_val a \<noteq> None" "digit_val b \<noteq> None" "digit_val c \<noteq> None"
  shows "parse_chunks layout_us y m d (a # b # c # s) = None"
    and "parse_chunks layout_us_short y m d (a # b # c # s) = None"
proof -
  have "c \<noteq> CHR ''/''" using assms(3) by auto
  moreover obtain x z where "digit_val a = Some x" "digit_val b = Some z" using assms by auto
  ultimately show "parse_chunks layout_us y m d (a # b # c # s) = None"
      and "parse_chunks layout_us_short y m d (a # b # c # s) = None"
    by (auto simp: layout_us_def layout_us_short_def getnum_def month_chunk_def skip_other)
qed

lemma parse_us_letter:
  assumes "digit_val c = None"
  shows "parse_chunks layout_us y m d (c # s) = None" "parse_chunks layout_us_short y m d (c # s) = None"
  using assms by (simp_all add: layout_us_def layout_us_short_def getnum_letter month_chunk_def)

lemma lookup_name_no_letter:
  assumes "lower_char a = a" "\<And>v. v \<in> set vs \<Longrightarrow> v \<noteq> [] \<and> lower_char (hd v) \<noteq> a"
  shows "lookup_name vs i (a # s) = None"
  using assms(2)
proof (induction vs arbitrary: i)
  case (Cons v vs)
  then have "v \<noteq> [] \<and> lower_char (hd v) \<noteq> a" by simp
  then obtain b u where "v = b # u" "lower_char b \<noteq> a" by (cases v) auto
  then have "\<not> EqualFold (take (length v) (a # s)) v"
    using assms(1) by (auto simp: EqualFold_def)
  with Cons show ?case by auto
qed simp

lemma month_names_lower:
  "v \<in> set shortMonthNames \<union> set longMonthNames \<Longrightarrow>
     v \<noteq> [] \<and> digit_val (hd v) = None \<and> digit_val (lower_char (hd v)) = None"
  by (auto simp: month_name_defs digit_val_def)

lemma parse_names_digit:
  assumes "digit_val a \<noteq> None"
  shows "parse_chunks layout_long y m d (a # s) = None" "parse_chunks layout_medium y m d (a # s) = None"
proof -
  have "lookup_name vs i (a # s) = None" if "vs = longMonthNames \<or> vs = shortMonthNames" for vs i
    by (rule lookup_name_no_letter [OF lower_digit [OF assms]])
      (use that assms month_names_lower in force)
  then show "parse_chunks layout_long y m d (a # s) = None" "parse_chunks layout_medium y m d (a # s) = None"
    by (simp_all add: layout_long_def layout_medium_def)
qed

lemma parse_long_of_medium_text:
  assumes "1 \<le> m" "m \<le> 12"
  shows "parse_chunks layout_long y m0 d (shortMonthNames ! nat (m - 1) @ CHR '' '' # s) =
    (if m = 5 then parse_chunks layout_medium y m0 d (shortMonthNames ! nat (m - 1) @ CHR '' '' # s) else None)"
  using assms
  by (rule month_cases) (simp_all add: layout_long_def layout_medium_def month_name_defs)

lemma parse_medium_of_long_text:
  assumes "1 \<le> m" "m \<le> 12"
  shows "parse_chunks layout_medium y m0 d (longMonthNames ! nat (m - 1) @ CHR '' '' # s) =
    (if m = 5 then parse_chunks layout_long y m0 d (longMonthNames ! nat (m - 1) @ CHR '' '' # s) else None)"
  using assms
  by (rule month_cases) (simp_all add: layout_long_def layout_medium_def month_name_defs skip_char.simps)

lemma write_date_simps:
  assumes "writable d"
  shows "write_date d layout_us_short = show_nat (nat (date_month d)) @ CHR ''/'' #
      show_nat (nat (date_day d)) @ CHR ''/'' # pad_year (date_year d)"
    and "write_date d layout_us = two_digits (nat (date_month d)) @ CHR ''/'' #
      two_digits (nat (date_day d)) @ CHR ''/'' # pad_year (date_year d)"
    and "write_date d layout_long = longMonthNames ! nat (date_month d - 1) @ CHR '' '' #
      show_nat (nat (date_day d)) @ '', '' @ pad_year (date_year d)"
    and "write_date d layout_medium = shortMonthNames ! nat (date_month d - 1) @ CHR '' '' #
      show_nat (nat (date_day d)) @ '', '' @ pad_year (date_year d)"
    and "write_date d layout_iso = pad_year (date_year d) @ CHR ''-'' #
      two_digits (nat (date_month d)) @ CHR ''-'' # two_digits (nat (date_day d))"
  by (simp_all add: write_date_def layout_us_short_def layout_us_def layout_long_def layout_medium_def
      layout_iso_def)

lemma writable_bounds:
  assumes "writable d"
  shows "1 \<le> date_month d" "date_month d \<le> 12" "nat (date_month d) < 100" "nat (date_day d) < 100"
    "0 \<le> date_year d" "date_year d \<le> 9999"
  using assms days_in_bounds(2) [of "date_year d" "date_month d"]
  by (cases d; auto simp: writable_def valid_date_def)+

lemma month_name_letter:
  assumes "1 \<le> m" "m \<le> 12"
  obtains c u where "longMonthNames ! nat (m - 1) = c # u" "digit_val c = None"
  using assms by (rule month_cases) (auto simp: longMonthNames_def digit_val_def)

lemma short_name_letter:
  assumes "1 \<le> m" "m \<le> 12"
  obtains c u where "shortMonthNames ! nat (m - 1) = c # u" "digit_val c = None"
  using assms by (rule month_cases) (auto simp: shortMonthNames_def digit_val_def)

lemma pad_year_digits:
  assumes "0 \<le> y" "y \<le> 9999"
  obtains a b c e where "pad_year y = [a, b, c, e]" "digit_val a \<noteq> None" "digit_val b \<noteq> None"
    "digit_val c \<noteq> None"
proof -
  have "nat y \<le> 9999" using assms by simp
  then have "pad_year y = four_digits (nat y)" using assms by (simp add: pad_year_def)
  then show thesis by (intro that) (auto simp: four_digits_def two_digits_def)
qed

lemma first_layout_writes:
  assumes d: "writable d" and L: "layout \<in> set date_layouts"
  shows "first_layout tz date_layouts (write_date d layout) = Inr (local_midnight tz Local d)"
proof -
  note ok = ParseInLocation_write_date [OF assms, of tz Local]
  note b = writable_bounds [OF d]
  note written = write_date_simps [OF d]
  consider "layout = layout_us" | "layout = layout_us_short" | "layout = layout_long"
    | "layout = layout_medium" | "layout = layout_iso"
    using L by (auto simp: date_layouts_def)
  then show ?thesis
  proof cases
    case 1
    with ok first_layout_agrees [of tz layout _ _ "[]"] show ?thesis by (simp add: date_layouts_def)
  next
    case 2
    have "parse_chunks layout_us 0 1 1 (write_date d layout_us_short) \<in>
        {None, parse_chunks layout_us_short 0 1 1 (write_date d layout_us_short)}"
    proof (cases "nat (date_month d) < 10 \<or> nat (date_day d) < 10")
      case True
      with b show ?thesis by (simp add: written parse_us_of_short_text)
    next
      case False
      then have "write_date d layout_us_short = write_date d layout_us"
        using b by (simp add: written show_nat_small)
      then show ?thesis
        using parse_write_date [OF d, of layout_us] parse_write_date [OF d, of layout_us_short]
        by (simp add: date_layouts_def)
    qed
    with ok 2 first_layout_agrees [of tz layout _ _ "[layout_us]"] show ?thesis
      by (simp add: date_layouts_def)
  next
    case 3
    obtain c u where "longMonthNames ! nat (date_month d - 1) = c # u" "digit_val c = None"
      using month_name_letter [OF b(1,2)] .
    then have "\<forall>g \<in> set [layout_us, layout_us_short]. parse_chunks g 0 1 1 (write_date d layout) = None"
      by (simp add: 3 written parse_us_letter)
    with ok 3 first_layout_agrees [of tz layout _ _ "[layout_us, layout_us_short]"] show ?thesis
      by (simp add: date_layouts_def)
  next
    case 4
    obtain c u where "shortMonthNames ! nat (date_month d - 1) = c # u" "digit_val c = None"
      using short_name_letter [OF b(1,2)] .
    then have "\<forall>g \<in> set [layout_us, layout_us_short]. parse_chunks g 0 1 1 (write_date d layout) = None"
      by (simp add: 4 written parse_us_letter)
    moreover have "parse_chunks layout_long 0 1 1 (write_date d layout) \<in>
        {None, parse_chunks layout_medium 0 1 1 (write_date d layout)}"
      using parse_long_of_medium_text [OF b(1,2)] by (simp add: 4 written)
    ultimately show ?thesis
      using ok 4 first_layout_agrees [of tz layout _ _ "[layout_us, layout_us_short, layout_long]"]
      by (simp add: date_layouts_def)
  next
    case 5
    obtain a b c e where "pad_year (date_year d) = [a, b, c, e]" "digit_val a \<noteq> None"
        "digit_val b \<noteq> None" "digit_val c \<noteq> None"
      using pad_year_digits [OF b(5,6)] .
    then have "\<forall>g \<in> set [layout_us, layout_us_short, layout_long, layout_medium].
        parse_chunks g 0 1 1 (write_date d layout) = None"
      by (simp add: 5 written parse_year_digits parse_names_digit)
    with ok 5 first_layout_agrees [of tz layout _ _ "[layout_us, layout_us_short, layout_long, layout_medium]"]
    show ?thesis by (simp add: date_layouts_def)
  qed
qed

lemma plain_ends_Trim:
  assumes "plain_char (hd s)" "plain_char (last s)" shows "TrimSpace s = s"
  using assms by (simp add: TrimSpace_def TrimLeftSpace_plain TrimRightSpace_plain)

lemma pad_year_ends:
  assumes "0 \<le> y" "y \<le> 9999"
  shows "pad_year y \<noteq> []" "plain_char (hd (pad_year y))" "plain_char (last (pad_year y))"
proof -
  have "nat y \<le> 9999" using assms by simp
  then have "pad_year y = four_digits (nat y)" using assms by (simp add: pad_year_def)
  then show "pad_year y \<noteq> []" "plain_char (hd (pad_year y))" "plain_char (last (pad_year y))"
    by (simp_all add: four_digits_def two_digits_def plain_digit_char)
qed

lemma month_name_plain:
  assumes "1 \<le> m" "m \<le> 12" "names = shortMonthNames \<or> names = longMonthNames"
  shows "names ! nat (m - 1) \<noteq> [] \<and> plain_char (hd (names ! nat (m - 1))) \<and>
    \<not> regex_space (hd (names ! nat (m - 1))) \<and>
    \<not> EqualFold (take 6 (names ! nat (m - 1) @ CHR '' '' # s)) ''Due on''"
  by (rule disjE [OF assms(3)]; rule month_cases [OF assms(1,2)];
      simp add: month_name_defs plain_char_def regex_space_def)

lemma write_date_Trim:
  assumes "writable d" "layout \<in> set date_layouts"
  shows "TrimSpace (write_date d layout) = write_date d layout"
proof (rule plain_ends_Trim)
  note b = writable_bounds [OF assms(1)]
  obtain k where k: "k < 10" "hd (show_nat (nat (date_month d))) = digit_char k" using hd_show_nat by blast
  consider "layout = layout_us" | "layout = layout_us_short" | "layout = layout_long"
    | "layout = layout_medium" | "layout = layout_iso"
    using assms(2) by (auto simp: date_layouts_def)
  then show "plain_char (hd (write_date d layout))"
    using k month_name_plain [OF b(1,2)] pad_year_ends [OF b(5,6)]
    by cases (simp_all add: write_date_simps [OF assms(1)] two_digits_def plain_digit_char)
  consider "layout = layout_us" | "layout = layout_us_short" | "layout = layout_long"
    | "layout = layout_medium" | "layout = layout_iso"
    using assms(2) by (auto simp: date_layouts_def)
  then show "plain_char (last (write_date d layout))"
    using pad_year_ends [OF b(5,6)]
    by cases (simp_all add: write_date_simps [OF assms(1)] two_digits_def plain_digit_char)
qed

lemma named_date_strip:
  assumes "writable d" "layout = layout_medium \<or> layout = layout_long"
  shows "strip_due_on (write_date d layout) = write_date d layout"
    and "strip_due_on (''Due on '' @ write_date d layout) = write_date d layout"
proof -
  define names where "names = (if layout = layout_medium then shortMonthNames else longMonthNames)"
  define s where "s = show_nat (nat (date_day d)) @ '', '' @ pad_year (date_year d)"
  have written: "write_date d layout = names ! nat (date_month d - 1) @ CHR '' '' # s"
    using assms(2) by (auto simp: write_date_def names_def s_def layout_medium_def layout_long_def)
  have "names = shortMonthNames \<or> names = longMonthNames" by (simp add: names_def)
  note plain = month_name_plain [OF writable_bounds(1,2) [OF assms(1)] this]
  show "strip_due_on (write_date d layout) = write_date d layout"
    unfolding written strip_due_on_def using plain by simp
  obtain c v where "names ! nat (date_month d - 1) = c # v" "\<not> regex_space c"
    using plain by (cases "names ! nat (date_month d - 1)") auto
  then show "strip_due_on (''Due on '' @ write_date d layout) = write_date d layout"
    by (simp add: written strip_due_on_def EqualFold_def regex_space_def)
qed

text \<open>
  C35. A due date reads as local midnight of its day in every layout: on a billeriq
  page in any of the five it may use, on a Columbia page spelled with the short or
  the long month name, with or without its \<^verbatim>\<open>Due on\<close>; blank space around it does not matter.
\<close>

theorem due_dates_read:
  assumes "writable d" "layout \<in> set date_layouts"
  shows "(TrimSpace s = write_date d layout \<longrightarrow> parseDueDate tz s = Inr (local_midnight tz Local d)) \<and>
    (layout = layout_medium \<or> layout = layout_long \<longrightarrow>
     TrimSpace s = write_date d layout \<or> TrimSpace s = ''Due on '' @ write_date d layout \<longrightarrow>
     columbiagaspa_parseDueDate tz s = Inr (local_midnight tz Local d))"
proof (intro conjI impI)
  assume "TrimSpace s = write_date d layout"
  then show "parseDueDate tz s = Inr (local_midnight tz Local d)"
    using first_layout_writes [OF assms] by (simp add: parseDueDate_def)
next
  assume L: "layout = layout_medium \<or> layout = layout_long"
    and "TrimSpace s = write_date d layout \<or> TrimSpace s = ''Due on '' @ write_date d layout"
  then have s: "TrimSpace (strip_due_on (TrimSpace s)) = write_date d layout"
    using named_date_strip [OF assms(1) L] write_date_Trim [OF assms] by auto
  have "parse_chunks layout_medium 0 1 1 (write_date d layout_long) \<in>
      {None, parse_chunks layout_long 0 1 1 (write_date d layout_long)}"
    using parse_medium_of_long_text writable_bounds(1,2) [OF assms(1)]
    by (simp add: write_date_simps [OF assms(1)])
  then have "ParseInLocation tz layout_medium (write_date d layout_long) Local \<in>
      {Inl ''parsing time'', ParseInLocation tz layout_long (write_date d layout_long) Local}"
    by (auto simp: ParseInLocation_def)
  then show "columbiagaspa_parseDueDate tz s = Inr (local_midnight tz Local d)"
    using L ParseInLocation_write_date [OF assms, of tz Local] unfolding columbiagaspa_parseDueDate_def s
    by auto
qed

theorem due_dates_read_witness:
  "parseDueDate (fixed_tz (- 18000)) '' 7/20/2026 '' = Inr (local_midnight (fixed_tz (- 18000)) Local (Date 2026 7 20)) \<and>
   columbiagaspa_parseDueDate (fixed_tz (- 18000)) ''Due on Jul 20, 2026 '' = Inr (local_midnight (fixed_tz (- 18000)) Local (Date 2026 7 20))"
proof -
  have d: "writable (Date 2026 7 20)" by (simp add: writable_def valid_date_def days_in_def)
  have L: "layout_us_short \<in> set date_layouts" "layout_medium \<in> set date_layouts"
    by (simp_all add: date_layouts_def)
  have "TrimSpace '' 7/20/2026 '' = write_date (Date 2026 7 20) layout_us_short"
    "TrimSpace ''Due on Jul 20, 2026 '' = ''Due on '' @ write_date (Date 2026 7 20) layout_medium"
    by code_simp+
  then show ?thesis
    using due_dates_read [OF d L(1), of "'' 7/20/2026 ''" "fixed_tz (- 18000)"]
      due_dates_read [OF d L(2), of "''Due on Jul 20, 2026 ''" "fixed_tz (- 18000)"] by blast
qed

section \<open>What a portal's page yields\<close>

definition first_of_class :: "node \<Rightarrow> string \<Rightarrow> node option" where
  "first_of_class n cl = find (\<lambda>m. node_kind m = ElementNode \<and> hasClass m cl) (preorder n)"

lemma find_first_of_class:
  "findFirstByClass n cl = first_of_class n cl"
  "findTextByClass n cl = map_option (\<lambda>m. TrimSpace (textContent m)) (first_of_class n cl)"
  by (simp_all add: first_of_class_def findTextByClass_first findFirstByClass_preorder)

text \<open>
  C34. A billeriq page yields the amount, due date and account number shown inside the
  first invoice list, in document order, whatever carries the same class names before
  it (the column headings do); the amount is exact to the cent and the date is local
  midnight of the day shown.
\<close>

theorem billeriq_scrape_reads:
  assumes "first_of_class doc ''collection-body'' = Some root"
    and "first_of_class root ''due-date'' = Some due"
    and "TrimSpace (textContent due) = write_date d layout" "writable d" "layout \<in> set date_layouts"
    and "first_of_class root ''invoice-amount'' = Some amount"
    and "filter dollar_char (TrimSpace (textContent amount)) = render_cents c @ extra"
    and "\<bar>c\<bar> < 2 ^ 63" "all_digits extra"
  shows "billeriq_scrape tz doc = Inr \<lparr>snap_AmountCents = c,
    snap_DueDate = local_midnight tz Local d,
    snap_AccountNumber = (case first_of_class root ''account-display-first-line'' of
      None \<Rightarrow> TrimSpace '''' | Some n \<Rightarrow> TrimSpace (TrimSpace (textContent n)))\<rparr>"
proof -
  have "parseDueDate tz (TrimSpace (textContent due)) = Inr (local_midnight tz Local d)"
    using first_layout_writes [OF assms(4,5)] assms(3) write_date_Trim [OF assms(4,5)]
    by (simp add: parseDueDate_def)
  moreover have "parseDollarsToCents (TrimSpace (textContent amount)) = Inr c"
    by (rule vendor_text_amount [OF assms(8,9,7)])
  ultimately show ?thesis
    using assms(1,2,6)
    by (simp add: billeriq_scrape_def find_first_of_class bindR_def orFail_def wrap_error_def
        split: option.split)
qed

text \<open>A page with a heading row that repeats the class names.\<close>

definition span :: "string \<Rightarrow> string \<Rightarrow> node" where
  "span cl t = Node ElementNode ''span'' [(''class'', cl)] [Node TextNode t [] []]"

definition sample_page :: node where
  "sample_page = Node OtherNode '''' []
     [Node ElementNode ''div'' [(''class'', ''collection-header'')]
        [span ''due-date sort'' ''Due Date'', span ''invoice-amount'' ''Amount''],
      Node ElementNode ''div'' [(''class'', ''row collection-body'')]
        [span ''account-display-first-line'' '' 0042-17 '', span ''due-date'' '' 07/20/2026 '',
         span ''invoice-amount'' ''$1,234.50'']]"

theorem billeriq_scrape_reads_witness:
  "billeriq_scrape (fixed_tz 0) sample_page = Inr \<lparr>snap_AmountCents = 123450,
     snap_DueDate = local_midnight (fixed_tz 0) Local (Date 2026 7 20), snap_AccountNumber = ''0042-17''\<rparr>"
proof -
  let ?root = "Node ElementNode ''div'' [(''class'', ''row collection-body'')]
        [span ''account-display-first-line'' '' 0042-17 '', span ''due-date'' '' 07/20/2026 '',
         span ''invoice-amount'' ''$1,234.50'']"
  have nodes: "first_of_class sample_page ''collection-body'' = Some ?root"
    "first_of_class ?root ''due-date'' = Some (span ''due-date'' '' 07/20/2026 '')"
    "first_of_class ?root ''invoice-amount'' = Some (span ''invoice-amount'' ''$1,234.50'')"
    "first_of_class ?root ''account-display-first-line'' = Some (span ''account-display-first-line'' '' 0042-17 '')"
    by code_simp+
  have texts: "TrimSpace (textContent (span ''due-date'' '' 07/20/2026 '')) = write_date (Date 2026 7 20) layout_us"
    "TrimSpace (textContent (span ''account-display-first-line'' '' 0042-17 '')) = ''0042-17''"
    "TrimSpace (textContent (span ''invoice-amount'' ''$1,234.50'')) = ''$1,234.50''" "TrimSpace ''0042-17'' = ''0042-17''"
    by code_simp+
  have "filter dollar_char (TrimSpace (textContent (span ''invoice-amount'' ''$1,234.50''))) = render_cents 123450 @ ''''"
    by (simp add: texts dollar_char_def digit_val_def render_cents_def two_digits_def show_nat.simps)
  moreover have "writable (Date 2026 7 20)" "layout_us \<in> set date_layouts"
    by (simp_all add: writable_def valid_date_def days_in_def date_layouts_def)
  ultimately show ?thesis
    using billeriq_scrape_reads [OF nodes(1,2) texts(1) _ _ nodes(3), of 123450 "''''" "fixed_tz 0"] nodes(4) texts(2,4)
    by simp
qed

end
