(* ===== verification/SimpleFin.thy ===== *)
theory SimpleFin
  imports Json Money Connectors "HOL-Library.Word"
begin

unbundle bit_operations_syntax

text \<open>
  \<^verbatim>\<open>internal/simplefin/client.go\<close>: claiming a setup token, fetching balances, and the
  dialler that keeps both away from internal addresses. Name resolution, dialling,
  the URL parser and the bridge's answers are parameters; addresses are byte lists
  as in Go's \<^verbatim>\<open>net.IP\<close>, and the address tests and base64 are written out.
\<close>

section \<open>Addresses\<close>

type_synonym ip = "nat list"

definition To4 :: "ip \<Rightarrow> ip option" where
  "To4 ip =
     (if length ip = 4 then Some ip
      else if length ip = 16 \<and> take 10 ip = replicate 10 0 \<and> ip ! 10 = 255 \<and> ip ! 11 = 255
      then Some (drop 12 ip)
      else None)"

definition ip_Equal :: "ip \<Rightarrow> ip \<Rightarrow> bool" where
  "ip_Equal a b \<longleftrightarrow>
     (if length a = length b then a = b
      else if length a = 4 \<and> length b = 16
      then take 12 b = replicate 10 0 @ [255, 255] \<and> a = drop 12 b
      else if length a = 16 \<and> length b = 4
      then take 12 a = replicate 10 0 @ [255, 255] \<and> drop 12 a = b
      else False)"

definition IPv6loopback :: ip where "IPv6loopback = replicate 15 0 @ [1]"
definition IPv4zero :: ip where "IPv4zero = replicate 10 0 @ [255, 255, 0, 0, 0, 0]"
definition IPv6unspecified :: ip where "IPv6unspecified = replicate 16 0"

definition IsUnspecified :: "ip \<Rightarrow> bool" where
  "IsUnspecified ip \<longleftrightarrow> ip_Equal ip IPv4zero \<or> ip_Equal ip IPv6unspecified"

definition IsLoopback :: "ip \<Rightarrow> bool" where
  "IsLoopback ip =
     (case To4 ip of Some ip4 \<Rightarrow> ip4 ! 0 = 127 | None \<Rightarrow> ip_Equal ip IPv6loopback)"

definition IsPrivate :: "ip \<Rightarrow> bool" where
  "IsPrivate ip =
     (case To4 ip of
        Some ip4 \<Rightarrow> ip4 ! 0 = 10 \<or> (ip4 ! 0 = 172 \<and> (ip4 ! 1) AND 0xf0 = 16) \<or>
          (ip4 ! 0 = 192 \<and> ip4 ! 1 = 168)
      | None \<Rightarrow> length ip = 16 \<and> (ip ! 0) AND 0xfe = 0xfc)"

definition IsMulticast :: "ip \<Rightarrow> bool" where
  "IsMulticast ip =
     (case To4 ip of
        Some ip4 \<Rightarrow> (ip4 ! 0) AND 0xf0 = 0xe0
      | None \<Rightarrow> length ip = 16 \<and> ip ! 0 = 0xff)"

definition IsLinkLocalMulticast :: "ip \<Rightarrow> bool" where
  "IsLinkLocalMulticast ip =
     (case To4 ip of
        Some ip4 \<Rightarrow> ip4 ! 0 = 224 \<and> ip4 ! 1 = 0 \<and> ip4 ! 2 = 0
      | None \<Rightarrow> length ip = 16 \<and> ip ! 0 = 0xff \<and> (ip ! 1) AND 0x0f = 0x02)"

definition IsLinkLocalUnicast :: "ip \<Rightarrow> bool" where
  "IsLinkLocalUnicast ip =
     (case To4 ip of
        Some ip4 \<Rightarrow> ip4 ! 0 = 169 \<and> ip4 ! 1 = 254
      | None \<Rightarrow> length ip = 16 \<and> ip ! 0 = 0xfe \<and> (ip ! 1) AND 0xc0 = 0x80)"

definition isDisallowedIP :: "ip \<Rightarrow> bool" where
  "isDisallowedIP ip \<longleftrightarrow>
     IsLoopback ip \<or> IsPrivate ip \<or> IsLinkLocalUnicast ip \<or>
     IsLinkLocalMulticast ip \<or> IsMulticast ip \<or> IsUnspecified ip"

section \<open>The dialler\<close>

definition addr_error :: "string \<Rightarrow> string \<Rightarrow> string" where
  "addr_error hostport msg = ''address '' @ hostport @ '': '' @ msg"

definition before_last :: "char \<Rightarrow> string \<Rightarrow> string" where
  "before_last c s = rev (tl (dropWhile (\<lambda>x. x \<noteq> c) (rev s)))"

definition after_last :: "char \<Rightarrow> string \<Rightarrow> string" where
  "after_last c s = rev (takeWhile (\<lambda>x. x \<noteq> c) (rev s))"

text \<open>\<^verbatim>\<open>net.SplitHostPort\<close>: the last colon separates host and port; an address with
  colons of its own is in brackets.\<close>

definition SplitHostPort :: "string \<Rightarrow> (string, string \<times> string) result" where
  "SplitHostPort hostport =
     (if CHR '':'' \<notin> set hostport then Inl (addr_error hostport ''missing port in address'')
      else if hd hostport = CHR ''[''
      then (if CHR '']'' \<notin> set hostport then Inl (addr_error hostport ''missing ']' in address'')
        else let inside = takeWhile (\<lambda>x. x \<noteq> CHR '']'') (tl hostport);
                 rest = tl (dropWhile (\<lambda>x. x \<noteq> CHR '']'') hostport) in
          if rest = [] \<or> hd rest \<noteq> CHR '':'' then Inl (addr_error hostport ''missing port in address'')
          else if CHR '':'' \<in> set (tl rest) then Inl (addr_error hostport ''too many colons in address'')
          else if CHR ''['' \<in> set (tl hostport) then Inl (addr_error hostport ''unexpected '[' in address'')
          else if CHR '']'' \<in> set rest then Inl (addr_error hostport ''unexpected ']' in address'')
          else Inr (inside, tl rest))
      else
        let host = before_last (CHR '':'') hostport in
        if CHR '':'' \<in> set host then Inl (addr_error hostport ''too many colons in address'')
        else if CHR ''['' \<in> set hostport then Inl (addr_error hostport ''unexpected '[' in address'')
        else if CHR '']'' \<in> set hostport then Inl (addr_error hostport ''unexpected ']' in address'')
        else Inr (host, after_last (CHR '':'') hostport))"

definition safeDialContext ::
    "bool \<Rightarrow> (string \<Rightarrow> (string, ip list) result) \<Rightarrow> (ip \<Rightarrow> string \<Rightarrow> (string, 'conn) result) \<Rightarrow>
     string \<Rightarrow> (string, 'conn) result" where
  "safeDialContext insecureTestMode lookupIP dial addr =
     (case SplitHostPort addr of
        Inl e \<Rightarrow> Inl e
      | Inr (host, port) \<Rightarrow>
          (case lookupIP host of
             Inl e \<Rightarrow> Inl (''resolving '' @ Quote host @ '': '' @ e)
           | Inr ips \<Rightarrow>
               (case find (\<lambda>ip. insecureTestMode \<or> \<not> isDisallowedIP ip) ips of
                  None \<Rightarrow> Inl (''host '' @ Quote host @
                    '' has no allowed address (refusing loopback/private/link-local/multicast targets)'')
                | Some chosen \<Rightarrow> dial chosen port)))"

section \<open>Which addresses are refused\<close>

definition ipv4_number :: "ip \<Rightarrow> nat" where
  "ipv4_number ip = ip ! 0 * 2 ^ 24 + ip ! 1 * 2 ^ 16 + ip ! 2 * 2 ^ 8 + ip ! 3"

text \<open>An address block in CIDR notation: the addresses that agree on the first \<open>len\<close> bits.\<close>

definition in_block :: "nat \<Rightarrow> nat \<times> nat \<Rightarrow> bool" where
  "in_block n blk \<longleftrightarrow> n div 2 ^ (32 - snd blk) = fst blk div 2 ^ (32 - snd blk)"

definition refused_blocks :: "(nat \<times> nat) list" where
  "refused_blocks = map (\<lambda>(ip, len). (ipv4_number ip, len))
     [([127, 0, 0, 0], 8), ([10, 0, 0, 0], 8), ([172, 16, 0, 0], 12), ([192, 168, 0, 0], 16),
      ([169, 254, 0, 0], 16), ([224, 0, 0, 0], 4), ([0, 0, 0, 0], 32)]"

definition bytes :: "ip \<Rightarrow> bool" where "bytes ip \<longleftrightarrow> (\<forall>b \<in> set ip. b < 256)"

lemma and_shifted_mask:
  "(b::nat) AND push_bit k (mask m) = push_bit k (take_bit m (drop_bit k b))"
  by (rule bit_eqI) (auto simp: bit_simps)

lemma byte_masks:
  assumes "b < (256::nat)"
  shows "b AND 0xf0 = 16 \<longleftrightarrow> b div 16 = 1" "b AND 0xf0 = 0xe0 \<longleftrightarrow> b div 16 = 14"
    "b AND 0xfe = 0xfc \<longleftrightarrow> b div 2 = 126" "b AND 0xc0 = 0x80 \<longleftrightarrow> b div 64 = 2"
proof -
  have m: "(0xf0::nat) = push_bit 4 (mask 4)" "(0xfe::nat) = push_bit 1 (mask 7)" "(0xc0::nat) = push_bit 6 (mask 2)"
    by (simp_all add: push_bit_eq_mult mask_eq_exp_minus_1)
  have "b div 16 mod 16 = b div 16" "b div 2 mod 128 = b div 2" "b div 64 mod 4 = b div 64"
    using assms by simp_all
  then have "b AND 0xf0 = b div 16 * 16" "b AND 0xfe = b div 2 * 2" "b AND 0xc0 = b div 64 * 64"
    unfolding m and_shifted_mask by (simp_all add: push_bit_eq_mult take_bit_eq_mod drop_bit_eq_div)
  then show "b AND 0xf0 = 16 \<longleftrightarrow> b div 16 = 1" "b AND 0xf0 = 0xe0 \<longleftrightarrow> b div 16 = 14"
    "b AND 0xfe = 0xfc \<longleftrightarrow> b div 2 = 126" "b AND 0xc0 = 0x80 \<longleftrightarrow> b div 64 = 2"
    by simp_all
qed

lemma div_split: "0 < (k::nat) \<Longrightarrow> y < k \<Longrightarrow> (x * k + y) div k = x"
  by simp

lemma place_value_eq:
  "x < (k::nat) \<Longrightarrow> y < k \<Longrightarrow> a * k + x = b * k + y \<longleftrightarrow> a = b \<and> x = y"
  by (metis add_left_cancel div_split less_nat_zero_code neq0_conv)

lemma ipv4_prefixes:
  assumes "a < 256" "b < 256" "c < 256" "d < (256::nat)"
  defines "n \<equiv> ipv4_number [a, b, c, d]"
  shows "n div 2 ^ 28 = a div 16" "n div 2 ^ 24 = a" "n div 2 ^ 20 = a * 16 + b div 16"
    "n div 2 ^ 16 = a * 256 + b"
proof -
  have n: "n = (a * 256 + b) * 2 ^ 16 + (c * 256 + d)" "c * 256 + d < 2 ^ 16"
    using assms(3,4) by (simp_all add: n_def ipv4_number_def)
  then show p16: "n div 2 ^ 16 = a * 256 + b" using div_split by simp
  have "n div 2 ^ 20 = n div 2 ^ 16 div 2 ^ 4" by (simp add: div_mult2_eq [symmetric])
  also have "\<dots> = (a * 16 * 16 + b) div 16" unfolding p16 by simp
  also have "\<dots> = a * 16 + b div 16" by (rule div_mult_self3) simp
  finally show "n div 2 ^ 20 = a * 16 + b div 16" .
  have "n div 2 ^ 24 = n div 2 ^ 16 div 2 ^ 8" by (simp add: div_mult2_eq [symmetric])
  also have "\<dots> = a" unfolding p16 using assms(2) by simp
  finally show p24: "n div 2 ^ 24 = a" .
  have "n div 2 ^ 28 = n div 2 ^ 24 div 2 ^ 4" by (simp add: div_mult2_eq [symmetric])
  then show "n div 2 ^ 28 = a div 16" unfolding p24 by simp
qed

lemma refused_blocks_iff:
  assumes "a < 256" "b < 256" "c < 256" "d < (256::nat)"
  shows "(\<exists>blk \<in> set refused_blocks. in_block (ipv4_number [a, b, c, d]) blk) \<longleftrightarrow>
    a = 127 \<or> a = 10 \<or> (a = 172 \<and> b div 16 = 1) \<or> (a = 192 \<and> b = 168) \<or> (a = 169 \<and> b = 254) \<or>
    a div 16 = 14 \<or> (a = 0 \<and> b = 0 \<and> c = 0 \<and> d = 0)"
proof -
  define n where "n = ipv4_number [a, b, c, d]"
  have blocks: "(\<exists>blk \<in> set refused_blocks. in_block n blk) \<longleftrightarrow>
      n div 2 ^ 24 = 127 \<or> n div 2 ^ 24 = 10 \<or> n div 2 ^ 20 = 2753 \<or> n div 2 ^ 16 = 49320 \<or>
      n div 2 ^ 16 = 43518 \<or> n div 2 ^ 28 = 14 \<or> n = 0"
    by (simp add: refused_blocks_def in_block_def ipv4_number_def)
  have "b div 16 < 16" using assms(2) by simp
  then have "a * 16 + b div 16 = 2753 \<longleftrightarrow> a = 172 \<and> b div 16 = 1"
    using place_value_eq [of "b div 16" 16 1 a 172] by simp
  moreover have "a * 256 + b = 49320 \<longleftrightarrow> a = 192 \<and> b = 168" "a * 256 + b = 43518 \<longleftrightarrow> a = 169 \<and> b = 254"
    using place_value_eq [of b 256 168 a 192] place_value_eq [of b 256 254 a 169] assms(2) by simp_all
  moreover have "n = 0 \<longleftrightarrow> a = 0 \<and> b = 0 \<and> c = 0 \<and> d = 0" by (simp add: n_def ipv4_number_def)
  ultimately show ?thesis
    using blocks ipv4_prefixes [OF assms] unfolding n_def by simp
qed

lemma mapped_To4: "To4 (replicate 10 0 @ [255, 255, a, b, c, d]) = Some [a, b, c, d]"
  by (simp add: To4_def nth_append)

lemma isDisallowedIP_v4:
  assumes "To4 ip = Some [a, b, c, d]" "a < 256" "b < 256"
    and "ip = [a, b, c, d] \<or> ip = replicate 10 0 @ [255, 255, a, b, c, d]"
  shows "isDisallowedIP ip \<longleftrightarrow>
    a = 127 \<or> a = 10 \<or> (a = 172 \<and> b div 16 = 1) \<or> (a = 192 \<and> b = 168) \<or> (a = 169 \<and> b = 254) \<or>
    a div 16 = 14 \<or> (a = 0 \<and> b = 0 \<and> c = 0 \<and> d = 0)"
proof -
  have u: "IsUnspecified ip \<longleftrightarrow> a = 0 \<and> b = 0 \<and> c = 0 \<and> d = 0"
    using assms(4)
    by (auto simp: IsUnspecified_def ip_Equal_def IPv4zero_def IPv6unspecified_def numeral_eq_Suc)
  have l: "IsLoopback ip \<longleftrightarrow> a = 127" "IsLinkLocalUnicast ip \<longleftrightarrow> a = 169 \<and> b = 254"
    "IsLinkLocalMulticast ip \<longleftrightarrow> a = 224 \<and> b = 0 \<and> c = 0"
    using assms(1) by (simp_all add: IsLoopback_def IsLinkLocalUnicast_def IsLinkLocalMulticast_def)
  have p: "IsPrivate ip \<longleftrightarrow> a = 10 \<or> (a = 172 \<and> b div 16 = 1) \<or> (a = 192 \<and> b = 168)"
    using assms(1) by (simp add: IsPrivate_def byte_masks(1) [OF assms(3)])
  have m: "IsMulticast ip \<longleftrightarrow> a div 16 = 14"
    using assms(1) by (simp add: IsMulticast_def byte_masks(2) [OF assms(2)])
  show ?thesis
  proof (cases "a div 16 = 14")
    case False
    then have "a \<noteq> 224" by auto
    with False show ?thesis unfolding isDisallowedIP_def u l p m by simp
  qed (simp add: isDisallowedIP_def m)
qed

text \<open>
  C29. The dialler's address test refuses exactly the reserved blocks: of IPv4
  (also when written as an IPv4-mapped IPv6 address) \<^verbatim>\<open>127.0.0.0/8\<close>,
  \<^verbatim>\<open>10.0.0.0/8\<close>, \<^verbatim>\<open>172.16.0.0/12\<close>, \<^verbatim>\<open>192.168.0.0/16\<close>, \<^verbatim>\<open>169.254.0.0/16\<close>,
  \<^verbatim>\<open>224.0.0.0/4\<close> and \<^verbatim>\<open>0.0.0.0\<close>, and of the other IPv6 addresses \<^verbatim>\<open>::1\<close>, \<^verbatim>\<open>::\<close>,
  \<^verbatim>\<open>fc00::/7\<close>, \<^verbatim>\<open>fe80::/10\<close> and \<^verbatim>\<open>ff00::/8\<close>.
\<close>

theorem isDisallowedIP_exact:
  assumes "bytes ip"
  shows "(length ip = 4 \<longrightarrow>
      isDisallowedIP ip = (\<exists>blk \<in> set refused_blocks. in_block (ipv4_number ip) blk) \<and>
      isDisallowedIP (replicate 10 0 @ [255, 255] @ ip) = isDisallowedIP ip) \<and>
    (length ip = 16 \<longrightarrow> To4 ip = None \<longrightarrow>
      isDisallowedIP ip = (ip = IPv6loopback \<or> ip = IPv6unspecified \<or> ip ! 0 div 2 = 0xfc div 2 \<or>
        (ip ! 0 = 0xfe \<and> ip ! 1 div 64 = 0x80 div 64) \<or> ip ! 0 = 0xff))"
proof (intro conjI impI)
  assume "length ip = 4"
  then obtain a b c d where ip: "ip = [a, b, c, d]" by (auto simp: numeral_eq_Suc length_Suc_conv)
  then have byte: "a < 256" "b < 256" "c < 256" "d < 256" using assms by (auto simp: bytes_def)
  have t: "To4 [a, b, c, d] = Some [a, b, c, d]" by (simp add: To4_def)
  show "isDisallowedIP ip = (\<exists>blk \<in> set refused_blocks. in_block (ipv4_number ip) blk)"
    unfolding ip refused_blocks_iff [OF byte] by (rule isDisallowedIP_v4 [OF t byte(1,2)]) simp
  show "isDisallowedIP (replicate 10 0 @ [255, 255] @ ip) = isDisallowedIP ip"
    using isDisallowedIP_v4 [OF t byte(1,2)] isDisallowedIP_v4 [OF mapped_To4 byte(1,2)] by (simp add: ip)
next
  assume len: "length ip = 16" and t: "To4 ip = None"
  then have "ip ! 0 < 256" "ip ! 1 < 256" using assms by (auto simp: bytes_def)
  note masks = byte_masks [OF this(1)] byte_masks [OF this(2)]
  have "IsUnspecified ip \<longleftrightarrow> ip = IPv6unspecified" "IsLoopback ip \<longleftrightarrow> ip = IPv6loopback"
    using len t
    by (auto simp: IsUnspecified_def IsLoopback_def ip_Equal_def IPv4zero_def IPv6unspecified_def
        IPv6loopback_def To4_def nth_append)
  moreover have "IsPrivate ip \<longleftrightarrow> ip ! 0 div 2 = 126" "IsMulticast ip \<longleftrightarrow> ip ! 0 = 255"
    "IsLinkLocalUnicast ip \<longleftrightarrow> ip ! 0 = 254 \<and> ip ! 1 div 64 = 2"
    using len t masks by (simp_all add: IsPrivate_def IsMulticast_def IsLinkLocalUnicast_def)
  moreover have "IsLinkLocalMulticast ip \<Longrightarrow> ip ! 0 = 255"
    using t by (simp add: IsLinkLocalMulticast_def)
  ultimately show "isDisallowedIP ip = (ip = IPv6loopback \<or> ip = IPv6unspecified \<or> ip ! 0 div 2 = 0xfc div 2 \<or>
        (ip ! 0 = 0xfe \<and> ip ! 1 div 64 = 0x80 div 64) \<or> ip ! 0 = 0xff)"
    unfolding isDisallowedIP_def by auto
qed

theorem isDisallowedIP_exact_witness:
  "bytes [172, 31, 255, 1] \<and> isDisallowedIP [172, 31, 255, 1] \<and> \<not> isDisallowedIP [172, 32, 0, 1] \<and>
   isDisallowedIP (replicate 10 0 @ [255, 255] @ [172, 31, 255, 1])"
  using isDisallowedIP_exact [of "[172, 31, 255, 1]"] isDisallowedIP_exact [of "[172, 32, 0, 1]"]
  by (simp add: bytes_def refused_blocks_def in_block_def ipv4_number_def)

lemma find_filter: "find P (filter P xs) = find P xs"
  by (induction xs) auto

text \<open>
  Outside test mode the dialler only ever connects to an address that is not
  refused, taken from what the resolver answered at that moment: with every
  refused address taken out of the answer it does the same, and with nothing
  left it fails without dialling.
\<close>

theorem safeDialContext_only_allowed:
  assumes "SplitHostPort addr = Inr (host, port)" "lookupIP host = Inr ips"
  shows "(if \<exists>ip \<in> set ips. \<not> isDisallowedIP ip
     then \<exists>ip \<in> set ips. \<not> isDisallowedIP ip \<and> safeDialContext False lookupIP dial addr = dial ip port
     else \<forall>dial'. safeDialContext False lookupIP dial' addr = Inl (''host '' @ Quote host @
       '' has no allowed address (refusing loopback/private/link-local/multicast targets)'')) \<and>
    safeDialContext False lookupIP dial addr =
      safeDialContext False (\<lambda>h. Inr (filter (\<lambda>ip. \<not> isDisallowedIP ip) ips)) dial addr"
proof (cases "find (\<lambda>ip. \<not> isDisallowedIP ip) ips")
  case None
  then have "\<forall>ip \<in> set ips. isDisallowedIP ip" by (auto simp: find_None_iff)
  with None assms show ?thesis by (auto simp: safeDialContext_def find_filter)
next
  case (Some ip)
  then have "ip \<in> set ips \<and> \<not> isDisallowedIP ip" by (rule find_Some_member)
  with Some assms show ?thesis by (auto simp: safeDialContext_def find_filter)
qed

theorem safeDialContext_only_allowed_witness:
  "safeDialContext False (\<lambda>h. Inr [[10, 0, 0, 7], [172, 32, 0, 1]]) (\<lambda>ip port. Inr (ip, port))
     ''bridge.example:443'' = Inr ([172, 32, 0, 1], ''443'')"
proof -
  have split: "SplitHostPort ''bridge.example:443'' = Inr (''bridge.example'', ''443'')"
    by code_simp
  have "\<not> isDisallowedIP [172, 32, 0, 1]" "isDisallowedIP [10, 0, 0, 7]"
    using isDisallowedIP_v4 [of "[172, 32, 0, 1]" 172 32 0 1] isDisallowedIP_v4 [of "[10, 0, 0, 7]" 10 0 0 7]
    by (simp_all add: To4_def)
  then show ?thesis
    using safeDialContext_only_allowed [of "''bridge.example:443''" "''bridge.example''" "''443''"
        "\<lambda>h. Inr [[10, 0, 0, 7], [172, 32, 0, 1]]" "[[10, 0, 0, 7], [172, 32, 0, 1]]" "\<lambda>ip port. Inr (ip, port)"] split
    by simp
qed

end
