(* ===== verification/SimpleFin_Client.thy ===== *)
theory SimpleFin_Client
  imports SimpleFin
begin

text \<open>
  The two exchanges with the SimpleFIN bridge. A setup token is the base64 form of a
  claim URL; base64 (\<^verbatim>\<open>StdEncoding\<close>) is written out. The URL parser and the bridge
  are parameters: \<open>parse\<close> gives scheme, user, how the URL prints with one query
  parameter set and the error \<^verbatim>\<open>http.NewRequest\<close> reports for its text, \<open>bridge\<close> answers a request.
\<close>

section \<open>Base64\<close>

definition b64_char :: "nat \<Rightarrow> char" where
  "b64_char n =
     (if n < 26 then char_of (n + 65) else if n < 52 then char_of (n + 71)
      else if n < 62 then char_of (n - 4) else if n = 62 then CHR ''+'' else CHR ''/'')"

definition b64_val :: "char \<Rightarrow> nat option" where
  "b64_val c = (let n = of_char c :: nat in
     if 65 \<le> n \<and> n \<le> 90 then Some (n - 65)
     else if 97 \<le> n \<and> n \<le> 122 then Some (n - 71)
     else if 48 \<le> n \<and> n \<le> 57 then Some (n + 4)
     else if n = 43 then Some 62 else if n = 47 then Some 63 else None)"

definition byte_of :: "char \<Rightarrow> nat" where "byte_of c = of_char c"

fun b64_encode :: "string \<Rightarrow> string" where
  "b64_encode [] = []"
| "b64_encode [x] =
     (let a = byte_of x in [b64_char (a div 4), b64_char (a mod 4 * 16), CHR ''='', CHR ''=''])"
| "b64_encode [x, y] =
     (let a = byte_of x; b = byte_of y in
      [b64_char (a div 4), b64_char (a mod 4 * 16 + b div 16), b64_char (b mod 16 * 4), CHR ''=''])"
| "b64_encode (x # y # z # r) =
     (let a = byte_of x; b = byte_of y; c = byte_of z in
      [b64_char (a div 4), b64_char (a mod 4 * 16 + b div 16), b64_char (b mod 16 * 4 + c div 64),
       b64_char (c mod 64)] @ b64_encode r)"

fun b64_quanta :: "string \<Rightarrow> string option" where
  "b64_quanta [] = Some []"
| "b64_quanta (w # x # y # z # r) =
     (case (b64_val w, b64_val x) of
        (Some a, Some b) \<Rightarrow>
          if y = CHR ''='' then
            (if z = CHR ''='' \<and> r = [] then Some [char_of (a * 4 + b div 16)] else None)
          else
            (case b64_val y of
               None \<Rightarrow> None
             | Some c \<Rightarrow>
                 if z = CHR ''='' then
                   (if r = [] then Some [char_of (a * 4 + b div 16), char_of (b mod 16 * 16 + c div 4)]
                    else None)
                 else
                   (case b64_val z of
                      None \<Rightarrow> None
                    | Some d \<Rightarrow> map_option (\<lambda>t. char_of (a * 4 + b div 16) #
                        char_of (b mod 16 * 16 + c div 4) # char_of (c mod 4 * 64 + d) # t) (b64_quanta r)))
      | _ \<Rightarrow> None)"
| "b64_quanta _ = None"

text \<open>Line breaks are skipped.\<close>

definition b64_DecodeString :: "string \<Rightarrow> string option" where
  "b64_DecodeString s = b64_quanta (filter (\<lambda>c. c \<noteq> CHR 0x0A \<and> c \<noteq> CHR 0x0D) s)"

text \<open>
  The input byte that \<^verbatim>\<open>CorruptInputError\<close> names: \<open>j\<close> characters of the quantum are read, \<open>si\<close> is the
  position. An input that breaks off points back by the characters read, one that stops
  in its padding to its end, a character that is no padding where it must be to the byte before it.
\<close>

definition line_break :: "char \<Rightarrow> bool" where
  "line_break c \<longleftrightarrow> c = CHR 0x0A \<or> c = CHR 0x0D"

definition b64_trailing :: "nat \<Rightarrow> string \<Rightarrow> nat option" where
  "b64_trailing si s = (if dropWhile line_break s = [] then None
     else Some (si + length (takeWhile line_break s)))"

fun b64_corrupt :: "nat \<Rightarrow> nat \<Rightarrow> string \<Rightarrow> nat option" where
  "b64_corrupt j si [] = (if j = 0 then None else Some (si - j))"
| "b64_corrupt j si (c # s) =
     (if b64_val c \<noteq> None then b64_corrupt (if j = 3 then 0 else Suc j) (Suc si) s
      else if line_break c then b64_corrupt j (Suc si) s
      else if c \<noteq> CHR ''='' \<or> j < 2 then Some si
      else if j = 3 then b64_trailing (Suc si) s
      else let at = Suc si + length (takeWhile line_break s) in
        case dropWhile line_break s of
          [] \<Rightarrow> Some at
        | d # s' \<Rightarrow> if d \<noteq> CHR ''='' then Some (at - 1) else b64_trailing (Suc at) s')"

definition CorruptInputError :: "string \<Rightarrow> string" where
  "CorruptInputError s = ''illegal base64 data at input byte '' @
     (case b64_corrupt 0 0 s of None \<Rightarrow> [] | Some n \<Rightarrow> Itoa (int n))"

section \<open>Claiming a setup token\<close>

record URL =
  url_Scheme :: string
  url_User :: "(string \<times> string) option"
  url_with_query :: "string \<Rightarrow> string \<Rightarrow> string"
  url_NewRequest :: "string option"

type_synonym url_parser = "string \<Rightarrow> (string, URL) result"

record bridge_request =
  br_Method :: string
  br_URL :: string
  br_BasicAuth :: "(string \<times> string) option"

record bridge_reply =
  bp_StatusCode :: int
  bp_Body :: "(string, string) result"
  bp_Json :: "(string, json) result"

type_synonym bridge = "bridge_request \<Rightarrow> (string, bridge_reply) result"

text \<open>
  The claim is one-shot, so what it sends matters beside what it returns. It is a tree: the
  exchange is over, or a request goes out and the answer decides how it goes on. To run it, a
  bridge answers; what it says may depend on the requests it got before.
\<close>

datatype 'a exchange =
    Done "(string, 'a) result"
  | Ask bridge_request "(string, bridge_reply) result \<Rightarrow> 'a exchange"

primrec converse ::
    "(bridge_request list \<Rightarrow> bridge) \<Rightarrow> 'a exchange \<Rightarrow> bridge_request list \<Rightarrow>
     (string, 'a) result \<times> bridge_request list" where
  "converse bridge (Done res) sent = (res, sent)"
| "converse bridge (Ask q go) sent = converse bridge (go (bridge sent q)) (sent @ [q])"

definition orStop :: "(string, 'b) result \<Rightarrow> ('b \<Rightarrow> 'a exchange) \<Rightarrow> 'a exchange" where
  "orStop r go = (case r of Inl e \<Rightarrow> Done (Inl e) | Inr x \<Rightarrow> go x)"

definition claim_exchange :: "bool \<Rightarrow> url_parser \<Rightarrow> string \<Rightarrow> string exchange" where
  "claim_exchange insecureTestMode parseRequestURI setupToken =
     orStop (orFail (b64_DecodeString (TrimSpace setupToken))
       (''setup token is not valid base64: '' @ CorruptInputError (TrimSpace setupToken))) (\<lambda>claimURL.
     orStop (wrap_error ''decoded setup token is not a valid URL: '' (parseRequestURI claimURL)) (\<lambda>parsedClaimURL.
     if \<not> insecureTestMode \<and> url_Scheme parsedClaimURL \<noteq> ''https''
     then Done (Inl ''decoded setup token URL must use https'')
     else case url_NewRequest parsedClaimURL of
       Some e \<Rightarrow> Done (Inl e)
     | None \<Rightarrow>
         Ask \<lparr>br_Method = ''POST'', br_URL = claimURL, br_BasicAuth = None\<rparr> (\<lambda>answer.
         orStop (wrap_error ''claiming setup token: '' answer) (\<lambda>resp.
         orStop (wrap_error ''reading claim response: '' (bp_Body resp)) (\<lambda>body.
         if bp_StatusCode resp \<noteq> 200
         then Done (Inl (''claiming setup token: unexpected status '' @ Itoa (bp_StatusCode resp) @
           '': '' @ TrimSpace body))
         else let accessURL = TrimSpace body in
           orStop (wrap_error ''claim response is not a valid access URL: '' (parseRequestURI accessURL)) (\<lambda>_.
           Done (Inr accessURL)))))))"

definition ClaimSetupToken :: "bool \<Rightarrow> url_parser \<Rightarrow> bridge \<Rightarrow> string \<Rightarrow> (string, string) result" where
  "ClaimSetupToken insecureTestMode parseRequestURI bridge setupToken =
     fst (converse (\<lambda>_. bridge) (claim_exchange insecureTestMode parseRequestURI setupToken) [])"

section \<open>Fetching balances\<close>

record sf_Account =
  sf_ID :: string
  sf_OrgName :: string
  sf_Name :: string
  sf_Currency :: string
  sf_BalanceCents :: int
  sf_AvailableBalanceCents :: "int option"
  sf_BalanceDate :: "time option"

text \<open>One account of the response, and the response.\<close>

record sf_account_json =
  sj_OrgName :: string
  sj_ID :: string
  sj_Name :: string
  sj_Currency :: string
  sj_Balance :: string
  sj_AvailableBalance :: string
  sj_BalanceDate :: int

record simplefinAccountsResponse =
  sr_Accounts :: "sf_account_json list"
  sr_Errors :: "string list"

definition decode_account :: "json \<Rightarrow> (string, sf_account_json) result" where
  "decode_account v = decode_struct
     [(''org'', decode_struct [(''name'', decode_string (\<lambda>s x. x\<lparr>sj_OrgName := s\<rparr>))]),
      (''id'', decode_string (\<lambda>s x. x\<lparr>sj_ID := s\<rparr>)),
      (''name'', decode_string (\<lambda>s x. x\<lparr>sj_Name := s\<rparr>)),
      (''currency'', decode_string (\<lambda>s x. x\<lparr>sj_Currency := s\<rparr>)),
      (''balance'', decode_string (\<lambda>s x. x\<lparr>sj_Balance := s\<rparr>)),
      (''available-balance'', decode_string (\<lambda>s x. x\<lparr>sj_AvailableBalance := s\<rparr>)),
      (''balance-date'', decode_int (\<lambda>n x. x\<lparr>sj_BalanceDate := n\<rparr>))]
     v \<lparr>sj_OrgName = '''', sj_ID = '''', sj_Name = '''', sj_Currency = '''', sj_Balance = '''',
        sj_AvailableBalance = '''', sj_BalanceDate = 0\<rparr>"

definition decode_accounts_response :: "json \<Rightarrow> (string, simplefinAccountsResponse) result" where
  "decode_accounts_response v = decode_struct
     [(''accounts'', \<lambda>w x. bindR (decode_slice decode_account w) (\<lambda>as. Inr (x\<lparr>sr_Accounts := as\<rparr>))),
      (''errors'', \<lambda>w x. bindR (decode_slice (\<lambda>u. decode_string (\<lambda>s _. s) u '''') w)
         (\<lambda>es. Inr (x\<lparr>sr_Errors := es\<rparr>)))]
     v \<lparr>sr_Accounts = [], sr_Errors = []\<rparr>"

definition account_of_json :: "sf_account_json \<Rightarrow> (string, sf_Account) result" where
  "account_of_json a =
     bindR (wrap_error (''account '' @ sj_ID a @ '': parsing balance '' @ Quote (sj_Balance a) @ '': '')
       (parseMoneyToCents (sj_Balance a))) (\<lambda>balanceCents.
     Inr \<lparr>sf_ID = sj_ID a, sf_OrgName = sj_OrgName a, sf_Name = sj_Name a, sf_Currency = sj_Currency a,
          sf_BalanceCents = balanceCents,
          sf_AvailableBalanceCents =
            (if sj_AvailableBalance a \<noteq> '''' then
               (case parseMoneyToCents (sj_AvailableBalance a) of Inl _ \<Rightarrow> None | Inr avail \<Rightarrow> Some avail)
             else None),
          sf_BalanceDate =
            (if sj_BalanceDate a > 0
             then Some \<lparr>time_sec = sj_BalanceDate a, time_nsec = 0, time_loc = UTC\<rparr> else None)\<rparr>)"

fun accounts_of_json :: "sf_account_json list \<Rightarrow> (string, sf_Account list) result" where
  "accounts_of_json [] = Inr []"
| "accounts_of_json (a # as) =
     bindR (account_of_json a) (\<lambda>out. bindR (accounts_of_json as) (\<lambda>rest. Inr (out # rest)))"

definition FetchAccounts :: "bool \<Rightarrow> url_parser \<Rightarrow> bridge \<Rightarrow> string \<Rightarrow> (string, sf_Account list) result" where
  "FetchAccounts insecureTestMode parse bridge accessURL =
     bindR (wrap_error ''invalid access URL: '' (parse (TrimRight accessURL (CHR ''/'') @ ''/accounts''))) (\<lambda>u.
     if \<not> insecureTestMode \<and> url_Scheme u \<noteq> ''https'' then Inl ''access URL must use https''
     else
       bindR (wrap_error ''fetching accounts: ''
         (bridge \<lparr>br_Method = ''GET'', br_URL = url_with_query u ''balances-only'' ''1'',
                  br_BasicAuth = url_User u\<rparr>)) (\<lambda>resp.
       if bp_StatusCode resp \<noteq> 200
       then Inl (''fetching accounts: unexpected status '' @ Itoa (bp_StatusCode resp) @ '': '' @
              TrimSpace (case bp_Body resp of Inl _ \<Rightarrow> '''' | Inr b \<Rightarrow> b))
       else
         bindR (wrap_error ''decoding accounts response: '' (bindR (bp_Json resp) decode_accounts_response)) (\<lambda>decoded.
         if sr_Errors decoded \<noteq> []
         then Inl (''SimpleFIN reported errors: '' @ Join (sr_Errors decoded) ''; '')
         else accounts_of_json (sr_Accounts decoded))))"

section \<open>The base64 round trip\<close>

lemma b64_val_char [simp]: "n < 64 \<Longrightarrow> b64_val (b64_char n) = Some n"
  by (auto simp: b64_val_def b64_char_def Let_def)

lemma b64_char_neq [simp]:
  assumes "n < 64"
  shows "b64_char n \<noteq> CHR ''=''" "b64_char n \<noteq> CHR 0x0A" "b64_char n \<noteq> CHR 0x0D"
proof -
  have "b64_val (CHR ''='') = None" "b64_val (CHR 0x0A) = None" "b64_val (CHR 0x0D) = None"
    by (simp_all add: b64_val_def)
  then show "b64_char n \<noteq> CHR ''=''" "b64_char n \<noteq> CHR 0x0A" "b64_char n \<noteq> CHR 0x0D"
    using b64_val_char [OF assms] by (metis option.distinct(1))+
qed

lemma byte_of_bound: "byte_of c < 256"
  by (simp add: byte_of_def)

lemma char_of_byte [simp]: "char_of (byte_of c) = c"
  by (simp add: byte_of_def)

lemma split_byte: "a mod 4 * 16 div 16 = a mod (4::nat)" "(b mod 16 * 4) mod 4 = (0::nat)"
  by simp_all

lemma b64_pieces:
  assumes "a < 256" "b < 256" "c < (256::nat)"
  shows "a div 4 < 64" "a mod 4 * 16 < 64" "a mod 4 * 16 + b div 16 < 64" "b mod 16 * 4 < 64"
    "b mod 16 * 4 + c div 64 < 64" "c mod 64 < 64"
    "a div 4 * 4 + a mod 4 = a"
    "(a mod 4 * 16 + b div 16) div 16 = a mod 4" "(a mod 4 * 16 + b div 16) mod 16 = b div 16"
    "(b mod 16 * 4 + c div 64) div 4 = b mod 16" "(b mod 16 * 4 + c div 64) mod 4 = c div 64"
    "b div 16 * 16 + b mod 16 = b" "c div 64 * 64 + c mod 64 = c"
proof -
  have q: "b div 16 < 16" "c div 64 < 4" "a mod 4 < 4" "b mod 16 < 16" using assms by simp_all
  then show "a mod 4 * 16 + b div 16 < 64" "b mod 16 * 4 + c div 64 < 64" by linarith+
  show "(a mod 4 * 16 + b div 16) div 16 = a mod 4" "(b mod 16 * 4 + c div 64) div 4 = b mod 16"
    using q by (simp_all add: div_split)
  show "(a mod 4 * 16 + b div 16) mod 16 = b div 16" "(b mod 16 * 4 + c div 64) mod 4 = c div 64"
    using q by simp_all
qed (use assms in simp_all)

lemma b64_quantum:
  assumes "p < 64" "q < 64" "u < 64" "v < 64"
  shows "b64_quanta (b64_char p # b64_char q # b64_char u # b64_char v # r) =
      map_option (\<lambda>t. char_of (p * 4 + q div 16) # char_of (q mod 16 * 16 + u div 4) #
        char_of (u mod 4 * 64 + v) # t) (b64_quanta r)"
    and "b64_quanta [b64_char p, b64_char q, b64_char u, CHR ''=''] =
      Some [char_of (p * 4 + q div 16), char_of (q mod 16 * 16 + u div 4)]"
    and "b64_quanta [b64_char p, b64_char q, CHR ''='', CHR ''=''] = Some [char_of (p * 4 + q div 16)]"
  using assms by simp_all

lemma b64_bytes:
  fixes x y z :: char
  defines "a \<equiv> byte_of x" and "b \<equiv> byte_of y" and "c \<equiv> byte_of z"
  shows "char_of (a div 4 * 4 + (a mod 4 * 16 + b div 16) div 16) = x"
    "char_of ((a mod 4 * 16 + b div 16) mod 16 * 16 + (b mod 16 * 4 + c div 64) div 4) = y"
    "char_of ((b mod 16 * 4 + c div 64) mod 4 * 64 + c mod 64) = z"
    "char_of (a div 4 * 4 + (a mod 4 * 16) div 16) = x"
    "char_of ((a mod 4 * 16 + b div 16) mod 16 * 16 + (b mod 16 * 4) div 4) = y"
proof -
  have bound: "a < 256" "b < 256" "c < 256" by (simp_all add: a_def b_def c_def byte_of_bound)
  have ch: "char_of a = x" "char_of b = y" "char_of c = z" by (simp_all add: a_def b_def c_def)
  show "char_of (a div 4 * 4 + (a mod 4 * 16 + b div 16) div 16) = x"
    "char_of ((a mod 4 * 16 + b div 16) mod 16 * 16 + (b mod 16 * 4 + c div 64) div 4) = y"
    "char_of ((b mod 16 * 4 + c div 64) mod 4 * 64 + c mod 64) = z"
    by (simp_all only: b64_pieces(7-13) [OF bound] ch)
  have "a mod 4 * 16 div 16 = a mod 4" "b mod 16 * 4 div 4 = b mod 16" by simp_all
  then show "char_of (a div 4 * 4 + (a mod 4 * 16) div 16) = x"
    "char_of ((a mod 4 * 16 + b div 16) mod 16 * 16 + (b mod 16 * 4) div 4) = y"
    by (simp_all only: b64_pieces(7-13) [OF bound] ch)
qed

lemma b64_quanta_encode: "b64_quanta (b64_encode s) = Some s"
proof (induction s rule: b64_encode.induct)
  case (2 x)
  note p = b64_pieces(1-6) [OF byte_of_bound [of x] byte_of_bound [of x] byte_of_bound [of x]]
  show ?case by (simp only: b64_encode.simps Let_def b64_quantum(3) [OF p(1,2) p(1,1)] b64_bytes)
next
  case (3 x y)
  note p = b64_pieces(1-6) [OF byte_of_bound [of x] byte_of_bound [of y] byte_of_bound [of y]]
  show ?case by (simp only: b64_encode.simps Let_def b64_quantum(2) [OF p(1,3,4,1)] b64_bytes)
next
  case (4 x y z r)
  note p = b64_pieces(1-6) [OF byte_of_bound [of x] byte_of_bound [of y] byte_of_bound [of z]]
  show ?case
    by (simp only: b64_encode.simps Let_def append.simps b64_quantum(1) [OF p(1,3,5,6)] 4 option.map b64_bytes)
qed simp

lemma b64_encode_chars: "c \<in> set (b64_encode s) \<Longrightarrow> c = CHR ''='' \<or> (\<exists>n < 64. c = b64_char n)"
proof (induction s rule: b64_encode.induct)
  case (2 x)
  note p = b64_pieces(1,2) [OF byte_of_bound [of x] byte_of_bound [of x] byte_of_bound [of x]]
  show ?case using 2 p by (simp only: b64_encode.simps Let_def list.set) blast
next
  case (3 x y)
  note p = b64_pieces(1,3,4) [OF byte_of_bound [of x] byte_of_bound [of y] byte_of_bound [of y]]
  show ?case using 3 p by (simp only: b64_encode.simps Let_def list.set) blast
next
  case (4 x y z r)
  note p = b64_pieces(1,3,5,6) [OF byte_of_bound [of x] byte_of_bound [of y] byte_of_bound [of z]]
  show ?case using 4 p by (simp only: b64_encode.simps Let_def append.simps list.set) blast
qed simp

lemma b64_char_plain: "n < 64 \<Longrightarrow> plain_char (b64_char n)"
  by (auto simp: b64_char_def plain_char_def)

lemma b64_round_trip: "b64_DecodeString (b64_encode s) = Some s"
proof -
  have "filter (\<lambda>c. c \<noteq> CHR 0x0A \<and> c \<noteq> CHR 0x0D) (b64_encode s) = b64_encode s"
    by (rule filter_True) (auto dest!: b64_encode_chars)
  then show ?thesis by (simp add: b64_DecodeString_def b64_quanta_encode)
qed

lemma TrimSpace_b64: "TrimSpace (b64_encode s) = b64_encode s"
proof (rule TrimSpace_plain)
  have "plain_char (CHR ''='')" by (simp add: plain_char_def)
  then show "\<forall>c \<in> set (b64_encode s). plain_char c"
    using b64_encode_chars b64_char_plain by blast
qed

text \<open>The decoder fails exactly when there is a byte to name.\<close>

lemma b64_val_special [simp]:
  "b64_val (CHR ''='') = None" "line_break c \<Longrightarrow> b64_val c = None"
  by (auto simp: b64_val_def line_break_def)

lemma filter_dropWhile_breaks:
  "filter (\<lambda>c. \<not> line_break c) (dropWhile line_break s) = filter (\<lambda>c. \<not> line_break c) s"
  by (induction s) auto

lemma filter_breaks_empty: "filter (\<lambda>c. \<not> line_break c) s = [] \<longleftrightarrow> dropWhile line_break s = []"
  by (induction s) auto

lemma b64_trailing_iff: "b64_trailing si s = None \<longleftrightarrow> filter (\<lambda>c. \<not> line_break c) s = []"
  by (simp add: b64_trailing_def filter_breaks_empty)

lemma b64_quanta_bad:
  assumes "length ws < 4" "\<forall>w \<in> set ws. b64_val w \<noteq> None" "b64_val c = None" "c \<noteq> CHR ''='' \<or> length ws < 2"
  shows "b64_quanta (ws @ c # r) = None"
proof (cases "ws @ c # r" rule: b64_quanta.cases)
  case (2 w x y z r')
  with assms show ?thesis
    by (cases ws; cases "tl ws"; cases "tl (tl ws)")
      (auto split: option.splits)
qed simp_all

lemma b64_corrupt_quanta:
  "length ws < 4 \<Longrightarrow> \<forall>w \<in> set ws. b64_val w \<noteq> None \<Longrightarrow>
   b64_corrupt (length ws) si s = None \<longleftrightarrow> b64_quanta (ws @ filter (\<lambda>c. \<not> line_break c) s) \<noteq> None"
proof (induction s arbitrary: ws si)
  case Nil
  then show ?case by (cases ws rule: b64_quanta.cases) auto
next
  case (Cons c s)
  let ?f = "filter (\<lambda>c. \<not> line_break c)"
  consider (val) "b64_val c \<noteq> None" | (break) "line_break c" | (bad) "b64_val c = None" "\<not> line_break c"
      "c \<noteq> CHR ''='' \<or> length ws < 2"
    | (pad) "c = CHR ''=''" "\<not> length ws < 2" by (cases "b64_val c") auto
  then show ?case
  proof cases
    case val
    then have keep: "\<not> line_break c" "c \<noteq> CHR ''=''" by auto
    show ?thesis
    proof (cases "length ws = 3")
      case True
      then obtain w x y where ws: "ws = [w, x, y]" by (auto simp: length_Suc_conv numeral_3_eq_3)
      then have "y \<noteq> CHR ''=''" using Cons.prems by auto
      with ws keep val Cons.prems Cons.IH [of "[]" "Suc si"] show ?thesis by auto
    next
      case False
      with keep val Cons.prems Cons.IH [of "ws @ [c]" "Suc si"] show ?thesis by auto
    qed
  next
    case break
    with Cons.prems Cons.IH [of ws "Suc si"] show ?thesis by simp
  next
    case bad
    with Cons.prems b64_quanta_bad [of ws c "?f s"] show ?thesis by auto
  next
    case pad
    have brk: "\<not> line_break c" using pad by (simp add: line_break_def)
    show ?thesis
    proof (cases "length ws = 3")
      case True
      then obtain w x y where ws: "ws = [w, x, y]" by (auto simp: length_Suc_conv numeral_3_eq_3)
      then have "y \<noteq> CHR ''=''" using Cons.prems by auto
      with ws brk pad Cons.prems show ?thesis by (auto simp: b64_trailing_iff split: if_splits)
    next
      case False
      then have "length ws = 2" using pad Cons.prems by simp
      then obtain w x where ws: "ws = [w, x]" by (auto simp: length_Suc_conv numeral_2_eq_2)
      show ?thesis
      proof (cases "dropWhile line_break s")
        case Nil
        then have "?f s = []" by (simp add: filter_breaks_empty)
        with ws brk pad Nil show ?thesis by (simp add: Let_def del: dropWhile_eq_Nil_conv)
      next
        case (Cons d s')
        then have "\<not> line_break d" by (metis hd_dropWhile list.distinct(1) list.sel(1))
        then have "?f s = d # ?f s'" using Cons filter_dropWhile_breaks [of s] by simp
        with ws brk pad Cons \<open>\<forall>w \<in> set ws. b64_val w \<noteq> None\<close> show ?thesis
          by (auto simp: Let_def b64_trailing_iff split: if_splits)
      qed
    qed
  qed
qed

lemma b64_corrupt_iff: "b64_DecodeString s = None \<longleftrightarrow> (\<exists>n. b64_corrupt 0 0 s = Some n)"
  using b64_corrupt_quanta [of "[]" 0 s] by (auto simp: b64_DecodeString_def line_break_def)

lemma CorruptInputError_sample:
  "CorruptInputError ''aHR0$HM6'' = ''illegal base64 data at input byte 4''"
  "CorruptInputError ''aHR0cHM'' = ''illegal base64 data at input byte 4''"
  "CorruptInputError ''aHR0cH=A'' = ''illegal base64 data at input byte 6''"
  by code_simp+

section \<open>Properties of the client\<close>

lemmas step_defs = bindR_def orFail_def wrap_error_def

lemmas exchange_defs = orStop_def orFail_def wrap_error_def Let_def

definition claim_post :: "string \<Rightarrow> bridge_request" where
  "claim_post url = \<lparr>br_Method = ''POST'', br_URL = url, br_BasicAuth = None\<rparr>"


text \<open>A bridge that takes a token once.\<close>

definition one_shot :: "bridge_request list \<Rightarrow> bridge" where
  "one_shot sent q =
     (if sent = [] \<and> br_URL q = ''https://b/claim''
      then Inr \<lparr>bp_StatusCode = 200, bp_Body = Inr ''https://u:p@b '', bp_Json = Inl ''''\<rparr>
      else Inr \<lparr>bp_StatusCode = 403, bp_Body = Inr '''', bp_Json = Inl ''''\<rparr>)"


text \<open>
  Outside test mode both exchanges refuse a URL whose scheme is not https, and do so without asking the bridge:
  the claim sends no request at all, and the outcome of a fetch is the same whatever the bridge would answer.
\<close>

theorem only_https:
  assumes "\<forall>s u. parse s = Inr u \<longrightarrow> url_Scheme u \<noteq> ''https''"
  shows "(\<exists>e. \<forall>bridge. converse bridge (claim_exchange False parse tok) [] = (Inl e, [])) \<and>
    (\<exists>e. \<forall>bridge. FetchAccounts False parse bridge accessURL = Inl e)"
proof
  show "\<exists>e. \<forall>bridge. FetchAccounts False parse bridge accessURL = Inl e"
  proof (cases "parse (TrimRight accessURL (CHR ''/'') @ ''/accounts'')")
    case (Inr u)
    then have "url_Scheme u \<noteq> ''https''" using assms by blast
    with Inr show ?thesis by (simp add: FetchAccounts_def step_defs)
  qed (simp add: FetchAccounts_def step_defs)
  show "\<exists>e. \<forall>bridge. converse bridge (claim_exchange False parse tok) [] = (Inl e, [])"
  proof (cases "b64_DecodeString (TrimSpace tok)")
    case (Some url)
    show ?thesis
    proof (cases "parse url")
      case (Inr u)
      then have "url_Scheme u \<noteq> ''https''" using assms by blast
      with Inr Some show ?thesis by (simp add: claim_exchange_def exchange_defs)
    qed (simp add: claim_exchange_def exchange_defs Some)
  qed (simp add: claim_exchange_def exchange_defs)
qed

theorem only_https_witness:
  "\<exists>e. \<forall>bridge. FetchAccounts False
     (\<lambda>s. Inr \<lparr>url_Scheme = ''http'', url_User = None, url_with_query = (\<lambda>_ _. s), url_NewRequest = None\<rparr>) bridge ''http://u:p@b'' = Inl e"
  by (rule only_https [THEN conjunct2]) simp

lemma accounts_of_json_all:
  "accounts_of_json as = Inr outs \<longleftrightarrow> list_all2 (\<lambda>a out. account_of_json a = Inr out) as outs"
proof (induction as arbitrary: outs)
  case (Cons a as)
  show ?case
  proof (cases "account_of_json a")
    case (Inr out)
    have "accounts_of_json (a # as) = Inr outs \<longleftrightarrow> (\<exists>zs. outs = out # zs \<and> accounts_of_json as = Inr zs)"
      using Inr by (cases "accounts_of_json as") (auto simp: bindR_def)
    also have "\<dots> \<longleftrightarrow> list_all2 (\<lambda>a out. account_of_json a = Inr out) (a # as) outs"
      using Inr Cons.IH by (auto simp: list_all2_Cons1)
    finally show ?thesis .
  qed (simp add: bindR_def list_all2_Cons1)
qed auto

text \<open>
  C30. A fetch that gets a clean answer is all or nothing: when the balance of every
  account reads as an amount, it gives the accounts in the order of the answer, each
  with its own identity and exactly that balance; when one does not, it gives no
  account at all.
\<close>

theorem FetchAccounts_all_or_nothing:
  assumes "parse (TrimRight accessURL (CHR ''/'') @ ''/accounts'') = Inr u" "url_Scheme u = ''https''"
    and "bridge \<lparr>br_Method = ''GET'', br_URL = url_with_query u ''balances-only'' ''1'',
       br_BasicAuth = url_User u\<rparr> = Inr resp"
    and "bp_StatusCode resp = 200" "bp_Json resp = Inr v" "decode_accounts_response v = Inr decoded"
    and "sr_Errors decoded = []"
  shows "if \<forall>a \<in> set (sr_Accounts decoded). ok (parseMoneyToCents (sj_Balance a))
    then \<exists>outs. FetchAccounts False parse bridge accessURL = Inr outs \<and>
      list_all2 (\<lambda>a out. sf_ID out = sj_ID a \<and> sf_Name out = sj_Name a \<and> sf_OrgName out = sj_OrgName a \<and>
        parseMoneyToCents (sj_Balance a) = Inr (sf_BalanceCents out)) (sr_Accounts decoded) outs
    else \<exists>e. FetchAccounts False parse bridge accessURL = Inl e"
proof -
  let ?as = "sr_Accounts decoded"
  have run: "FetchAccounts False parse bridge accessURL = accounts_of_json ?as"
    using assms by (simp add: FetchAccounts_def step_defs)
  have one: "account_of_json a = Inr out \<Longrightarrow> sf_ID out = sj_ID a \<and> sf_Name out = sj_Name a \<and>
      sf_OrgName out = sj_OrgName a \<and> parseMoneyToCents (sj_Balance a) = Inr (sf_BalanceCents out)" for a out
    by (auto simp: account_of_json_def step_defs split: sum.splits)
  have reads: "(\<exists>out. account_of_json a = Inr out) \<longleftrightarrow> ok (parseMoneyToCents (sj_Balance a))" for a
    by (auto simp: account_of_json_def step_defs ok_def split: sum.splits)
  show ?thesis
  proof (cases "\<forall>a \<in> set ?as. ok (parseMoneyToCents (sj_Balance a))")
    case True
    then have "\<forall>a \<in> set ?as. \<exists>out. account_of_json a = Inr out" by (simp add: reads)
    then obtain f where "\<forall>a \<in> set ?as. account_of_json a = Inr (f a)" by metis
    then have all: "list_all2 (\<lambda>a out. account_of_json a = Inr out) ?as (map f ?as)"
      by (simp add: list_all2_map2 list_all2_same)
    have "accounts_of_json ?as = Inr (map f ?as)" using all by (simp only: accounts_of_json_all)
    moreover have "list_all2 (\<lambda>a out. sf_ID out = sj_ID a \<and> sf_Name out = sj_Name a \<and>
        sf_OrgName out = sj_OrgName a \<and> parseMoneyToCents (sj_Balance a) = Inr (sf_BalanceCents out)) ?as (map f ?as)"
      by (rule list_all2_mono [OF all]) (rule one)
    ultimately show ?thesis using True run by auto
  next
    case False
    then obtain a where a: "a \<in> set ?as" "\<not> (\<exists>out. account_of_json a = Inr out)" by (auto simp: reads)
    have "accounts_of_json ?as \<noteq> Inr outs" for outs
      using a by (auto simp: accounts_of_json_all list_all2_conv_all_nth in_set_conv_nth)
    then show ?thesis using False run by (cases "accounts_of_json ?as") auto
  qed
qed

theorem FetchAccounts_all_or_nothing_witness:
  "\<exists>outs. FetchAccounts False
     (\<lambda>s. Inr \<lparr>url_Scheme = ''https'', url_User = Some (''u'', ''p''), url_with_query = (\<lambda>k v. s @ ''?'' @ k @ ''='' @ v), url_NewRequest = None\<rparr>)
     (\<lambda>q. Inr \<lparr>bp_StatusCode = 200, bp_Body = Inr '''', bp_Json = Inr (JObj [(''accounts'', JArr
        [JObj [(''id'', JStr ''ACT-1''), (''balance'', JStr ''-12.34'')]])])\<rparr>) ''https://u:p@b/'' = Inr outs \<and>
     map sf_ID outs = [''ACT-1''] \<and> map sf_BalanceCents outs = [- 1234]"
proof -
  define a where "a = \<lparr>sj_OrgName = '''', sj_ID = ''ACT-1'', sj_Name = '''', sj_Currency = '''',
    sj_Balance = ''-12.34'', sj_AvailableBalance = '''', sj_BalanceDate = 0\<rparr>"
  have dec: "decode_accounts_response (JObj [(''accounts'', JArr
        [JObj [(''id'', JStr ''ACT-1''), (''balance'', JStr ''-12.34'')]])]) = Inr \<lparr>sr_Accounts = [a], sr_Errors = []\<rparr>"
    unfolding a_def by code_simp
  have money: "parseMoneyToCents (sj_Balance a) = Inr (- 1234)"
  proof -
    have "''-12.34'' = render_cents (- 1234)"
      by (simp add: render_cents_def two_digits_def show_nat.simps)
    then show ?thesis using simplefin_money.parse_render [of "- 1234"] by (simp add: a_def)
  qed
  have "\<exists>outs. FetchAccounts False
     (\<lambda>s. Inr \<lparr>url_Scheme = ''https'', url_User = Some (''u'', ''p''), url_with_query = (\<lambda>k v. s @ ''?'' @ k @ ''='' @ v), url_NewRequest = None\<rparr>)
     (\<lambda>q. Inr \<lparr>bp_StatusCode = 200, bp_Body = Inr '''', bp_Json = Inr (JObj [(''accounts'', JArr
        [JObj [(''id'', JStr ''ACT-1''), (''balance'', JStr ''-12.34'')]])])\<rparr>) ''https://u:p@b/'' = Inr outs \<and>
      list_all2 (\<lambda>a out. sf_ID out = sj_ID a \<and> sf_Name out = sj_Name a \<and> sf_OrgName out = sj_OrgName a \<and>
        parseMoneyToCents (sj_Balance a) = Inr (sf_BalanceCents out)) [a] outs"
    using FetchAccounts_all_or_nothing [OF refl _ refl _ _ dec, where accessURL = "''https://u:p@b/''"] money
    by simp
  then obtain outs where "FetchAccounts False
     (\<lambda>s. Inr \<lparr>url_Scheme = ''https'', url_User = Some (''u'', ''p''), url_with_query = (\<lambda>k v. s @ ''?'' @ k @ ''='' @ v), url_NewRequest = None\<rparr>)
     (\<lambda>q. Inr \<lparr>bp_StatusCode = 200, bp_Body = Inr '''', bp_Json = Inr (JObj [(''accounts'', JArr
        [JObj [(''id'', JStr ''ACT-1''), (''balance'', JStr ''-12.34'')]])])\<rparr>) ''https://u:p@b/'' = Inr outs"
    "list_all2 (\<lambda>a out. sf_ID out = sj_ID a \<and> sf_Name out = sj_Name a \<and> sf_OrgName out = sj_OrgName a \<and>
        parseMoneyToCents (sj_Balance a) = Inr (sf_BalanceCents out)) [a] outs" by blast
  then show ?thesis using money by (auto simp: list_all2_Cons1 a_def)
qed

end
