(* ===== verification/Database.thy ===== *)
theory Database
  imports Bill_Schedule Go_Strings
begin

text \<open>
  The plugin's Postgres tables (\<^verbatim>\<open>internal/db/migrations/00001_initial_schema.sql\<close>)
  as one record, and how a statement runs against them. A table is the list of
  its rows; their order stands for the order in which the server happens to scan
  them, so a query without \<^verbatim>\<open>ORDER BY\<close> answers in list order. A \<^verbatim>\<open>SERIAL\<close>
  column takes its next value from a counter that never goes back.

  What the program cannot control is part of the state: \<open>db_now\<close> is the server's
  clock at the time of a statement, \<open>db_faults\<close> a script of failures (entry \<open>Some e\<close>
  makes the statement that meets it fail with text \<open>e\<close> and change nothing; past
  the end of the script statements run), \<open>pg_message\<close> the driver's text for a broken
  constraint and \<open>pg_collate\<close> the collation of text columns. Theorems quantify
  over all of them. A scripted failure leaves no trace of its statement; that a statement runs
  and its answer is lost is a step of the threads (\<^verbatim>\<open>Threads\<close>, \<^verbatim>\<open>Shutdown\<close>).
\<close>

section \<open>Errors\<close>

datatype error =
    ErrBillNotFound
  | ErrNoSimpleFinConnection
  | ErrVendorConnectionNotFound
  | Error string

fun error_text :: "error \<Rightarrow> string" where
  "error_text ErrBillNotFound = ''bill definition not found''"
| "error_text ErrNoSimpleFinConnection = ''no SimpleFIN connection configured''"
| "error_text ErrVendorConnectionNotFound = ''vendor connection not found''"
| "error_text (Error e) = e"

section \<open>Rows\<close>

text \<open>A \<^verbatim>\<open>DATE\<close> column is a calendar day; the Go struct shows it as UTC midnight.\<close>

record BillInstance =
  bi_ID :: int
  bi_BillDefinitionID :: int
  bi_DueDate :: date
  bi_Paid :: bool
  bi_PaidAt :: "time option"

record Account =
  acc_ID :: int
  acc_SimpleFinID :: string
  acc_OrgName :: "string option"
  acc_Name :: string
  acc_DisplayName :: "string option"
  acc_Currency :: string
  acc_BalanceCents :: int
  acc_AvailableBalanceCents :: "int option"
  acc_BalanceDate :: "time option"
  acc_Visible :: bool
  acc_LastSyncedAt :: "time option"
  acc_LastSyncError :: "string option"
  acc_CreatedAt :: time

record SimpleFinConnection =
  sfc_ID :: int
  sfc_EncryptedAccessURL :: string
  sfc_ConnectedAt :: time
  sfc_LastSyncedAt :: "time option"
  sfc_LastSyncError :: "string option"

record VendorConnection =
  vc_ID :: int
  vc_BillDefinitionID :: int
  vc_Connector :: string
  vc_Tenant :: string
  vc_Username :: string
  vc_EncryptedPassword :: string
  vc_LastAccountNumber :: "string option"
  vc_LastSyncedAt :: "time option"
  vc_LastSyncError :: "string option"
  vc_BootstrapManaged :: bool
  vc_CreatedAt :: time

record db =
  bt_bill_definitions :: "BillDefinition list"
  bt_bill_instances :: "BillInstance list"
  bt_accounts :: "Account list"
  bt_simplefin_connection :: "SimpleFinConnection list"
  bt_settings :: "(string \<times> string) list"
  bt_vendor_connections :: "VendorConnection list"
  seq_definitions :: int
  seq_instances :: int
  seq_accounts :: int
  seq_simplefin :: int
  seq_vendors :: int
  db_now :: time
  db_faults :: "string option list"
  pg_message :: "string \<Rightarrow> string"
  pg_collate :: "string \<Rightarrow> string \<Rightarrow> bool"

type_synonym 'a dbm = "db \<Rightarrow> (error, 'a) result \<times> db"

section \<open>Running statements\<close>

definition sql :: "'a dbm \<Rightarrow> 'a dbm" where
  "sql stmt s =
     (case db_faults s of
        [] \<Rightarrow> stmt s
      | None # fs \<Rightarrow> stmt (s\<lparr>db_faults := fs\<rparr>)
      | Some e # fs \<Rightarrow> (Inl (Error e), s\<lparr>db_faults := fs\<rparr>))"

text \<open>The next statement runs only after the one before succeeded.\<close>

definition andThen :: "'a dbm \<Rightarrow> ('a \<Rightarrow> 'b dbm) \<Rightarrow> 'b dbm" where
  "andThen m f s = (case m s of (Inl e, s') \<Rightarrow> (Inl e, s') | (Inr x, s') \<Rightarrow> f x s')"

definition fail :: "string \<Rightarrow> 'a dbm" where
  "fail constraint s = (Inl (Error (pg_message s constraint)), s)"

text \<open>\<^verbatim>\<open>INTEGER\<close> columns and parameters hold 32 bits.\<close>

definition int4 :: "int \<Rightarrow> bool" where
  "int4 n \<longleftrightarrow> - (2 ^ 31) \<le> n \<and> n < 2 ^ 31"

text \<open>
  A \<^verbatim>\<open>TEXT\<close> column or parameter holds characters, not bytes: a string that is not valid UTF-8
  (the encoding of the database) or that holds the byte 0 is refused before the statement runs.
  \<open>text_from rs\<close> reads on where the next bytes must lie in the ranges \<open>rs\<close>; a lead byte says
  which ranges its continuation bytes have (no overlong form, no surrogate, nothing above U+10FFFF).
\<close>

definition utf8_lead :: "nat \<Rightarrow> (nat \<times> nat) list option" where
  "utf8_lead n =
     (let cont = (0x80, 0xBF) in
      if 0 < n \<and> n < 0x80 then Some []
      else if 0xC2 \<le> n \<and> n \<le> 0xDF then Some [cont]
      else if n = 0xE0 then Some [(0xA0, 0xBF), cont]
      else if n = 0xED then Some [(0x80, 0x9F), cont]
      else if 0xE1 \<le> n \<and> n \<le> 0xEF then Some [cont, cont]
      else if n = 0xF0 then Some [(0x90, 0xBF), cont, cont]
      else if 0xF1 \<le> n \<and> n \<le> 0xF3 then Some [cont, cont, cont]
      else if n = 0xF4 then Some [(0x80, 0x8F), cont, cont]
      else None)"

primrec text_from :: "(nat \<times> nat) list \<Rightarrow> string \<Rightarrow> bool" where
  "text_from rs [] \<longleftrightarrow> rs = []"
| "text_from rs (c # cs) \<longleftrightarrow>
     (case rs of
        (lo, hi) # rs' \<Rightarrow> lo \<le> of_char c \<and> of_char c \<le> hi \<and> text_from rs' cs
      | [] \<Rightarrow> (case utf8_lead (of_char c) of None \<Rightarrow> False | Some rs' \<Rightarrow> text_from rs' cs))"

definition text_ok :: "string \<Rightarrow> bool" where
  "text_ok s \<longleftrightarrow> text_from [] s"

definition storing :: "string list \<Rightarrow> 'a dbm \<Rightarrow> 'a dbm" where
  "storing texts stmt s = (if list_all text_ok texts then stmt s else fail ''text'' s)"

definition update_where :: "('a \<Rightarrow> bool) \<Rightarrow> ('a \<Rightarrow> 'a) \<Rightarrow> 'a list \<Rightarrow> 'a list" where
  "update_where p f rows = map (\<lambda>r. if p r then f r else r) rows"

definition delete_where :: "('a \<Rightarrow> bool) \<Rightarrow> 'a list \<Rightarrow> 'a list" where
  "delete_where p rows = filter (\<lambda>r. \<not> p r) rows"

section \<open>Constraints of the schema\<close>

definition schedule_shape_check :: "BillDefinition \<Rightarrow> bool" where
  "schedule_shape_check b \<longleftrightarrow>
     (bd_ScheduleType b = ScheduleMonthly \<and> bd_DayOfMonth b \<noteq> None \<and> bd_OneOffDate b = None \<and>
        bd_QuarterStartMonth b = None) \<or>
     (bd_ScheduleType b = ScheduleQuarterly \<and> bd_DayOfMonth b \<noteq> None \<and>
        bd_QuarterStartMonth b \<noteq> None \<and> bd_OneOffDate b = None) \<or>
     (bd_ScheduleType b = ScheduleOneOff \<and> bd_OneOffDate b \<noteq> None \<and> bd_DayOfMonth b = None \<and>
        bd_QuarterStartMonth b = None) \<or>
     (bd_ScheduleType b = ScheduleVendor \<and> bd_DayOfMonth b = None \<and>
        bd_QuarterStartMonth b = None \<and> bd_OneOffDate b = None)"

definition definition_check :: "BillDefinition \<Rightarrow> bool" where
  "definition_check b \<longleftrightarrow>
     schedule_shape_check b \<and>
     (case bd_DayOfMonth b of None \<Rightarrow> True | Some d \<Rightarrow> 1 \<le> d \<and> d \<le> 31) \<and>
     (case bd_QuarterStartMonth b of None \<Rightarrow> True | Some q \<Rightarrow> 1 \<le> q \<and> q \<le> 3)"

text \<open>The primary key of a table: distinct, positive and below the counter, which never
  passes the end of the 32-bit range.\<close>

definition keys_ok :: "('a \<Rightarrow> int) \<Rightarrow> 'a list \<Rightarrow> int \<Rightarrow> bool" where
  "keys_ok key rows next \<longleftrightarrow>
     distinct (map key rows) \<and> (\<forall>r \<in> set rows. 1 \<le> key r \<and> key r < next) \<and>
     1 \<le> next \<and> next \<le> 2 ^ 31"

definition definitions_ok :: "db \<Rightarrow> bool" where
  "definitions_ok s \<longleftrightarrow>
     keys_ok bd_ID (bt_bill_definitions s) (seq_definitions s) \<and>
     (\<forall>b \<in> set (bt_bill_definitions s). definition_check b \<and> int4 (bd_AmountCents b) \<and>
        text_ok (bd_Name b) \<and> pred_option text_ok (bd_VendorURL b) \<and>
        set_option (bd_SimpleFinAccountID b) \<subseteq> acc_ID ` set (bt_accounts s))"

definition instances_ok :: "db \<Rightarrow> bool" where
  "instances_ok s \<longleftrightarrow>
     keys_ok bi_ID (bt_bill_instances s) (seq_instances s) \<and>
     distinct (map (\<lambda>i. (bi_BillDefinitionID i, bi_DueDate i)) (bt_bill_instances s)) \<and>
     (\<forall>i \<in> set (bt_bill_instances s).
        bi_BillDefinitionID i \<in> bd_ID ` set (bt_bill_definitions s) \<and>
        valid_date (bi_DueDate i) \<and> (bi_Paid i \<longleftrightarrow> bi_PaidAt i \<noteq> None))"

definition accounts_ok :: "db \<Rightarrow> bool" where
  "accounts_ok s \<longleftrightarrow>
     keys_ok acc_ID (bt_accounts s) (seq_accounts s) \<and>
     distinct (map acc_SimpleFinID (bt_accounts s))"

text \<open>The schema does not say so: at most one connection is the program's own rule.\<close>

definition simplefin_ok :: "db \<Rightarrow> bool" where
  "simplefin_ok s \<longleftrightarrow>
     keys_ok sfc_ID (bt_simplefin_connection s) (seq_simplefin s) \<and>
     length (bt_simplefin_connection s) \<le> 1"

definition settings_ok :: "db \<Rightarrow> bool" where
  "settings_ok s \<longleftrightarrow> distinct (map fst (bt_settings s))"

definition vendors_ok :: "db \<Rightarrow> bool" where
  "vendors_ok s \<longleftrightarrow>
     keys_ok vc_ID (bt_vendor_connections s) (seq_vendors s) \<and>
     distinct (map vc_BillDefinitionID (bt_vendor_connections s)) \<and>
     (\<forall>v \<in> set (bt_vendor_connections s).
        vc_BillDefinitionID v \<in> bd_ID ` set (bt_bill_definitions s))"

definition db_ok :: "db \<Rightarrow> bool" where
  "db_ok s \<longleftrightarrow> definitions_ok s \<and> instances_ok s \<and> accounts_ok s \<and> simplefin_ok s \<and>
     settings_ok s \<and> vendors_ok s"

lemmas table_ok_defs = definitions_ok_def instances_ok_def accounts_ok_def simplefin_ok_def
  settings_ok_def vendors_ok_def

text \<open>The database the migration leaves behind.\<close>

definition empty_db :: "time \<Rightarrow> string option list \<Rightarrow> (string \<Rightarrow> string) \<Rightarrow>
    (string \<Rightarrow> string \<Rightarrow> bool) \<Rightarrow> db" where
  "empty_db now faults msg collate =
     \<lparr>bt_bill_definitions = [], bt_bill_instances = [], bt_accounts = [],
      bt_simplefin_connection = [], bt_settings = [], bt_vendor_connections = [],
      seq_definitions = 1, seq_instances = 1, seq_accounts = 1, seq_simplefin = 1,
      seq_vendors = 1, db_now = now, db_faults = faults, pg_message = msg, pg_collate = collate\<rparr>"

lemma empty_db_ok: "db_ok (empty_db now faults msg collate)"
  by (simp add: db_ok_def table_ok_defs keys_ok_def empty_db_def)

section \<open>Facts on statements and rows\<close>

text \<open>
  A statement either fails without touching a table or runs after its entry left
  the script, so a property of states that the script cannot influence is kept
  when the statement keeps it.
\<close>

definition fault_free :: "(db \<Rightarrow> bool) \<Rightarrow> bool" where
  "fault_free P \<longleftrightarrow> (\<forall>s fs. P (s\<lparr>db_faults := fs\<rparr>) = P s)"

definition preserves :: "(db \<Rightarrow> bool) \<Rightarrow> 'a dbm \<Rightarrow> bool" where
  "preserves P m \<longleftrightarrow> (\<forall>s. P s \<longrightarrow> P (snd (m s)))"

lemma preservesI: "(\<And>s. P s \<Longrightarrow> P (snd (m s))) \<Longrightarrow> preserves P m"
  by (simp add: preserves_def)

lemma preservesD: "preserves P m \<Longrightarrow> P s \<Longrightarrow> P (snd (m s))"
  by (simp add: preserves_def)

lemma preserves_result: "preserves P m \<Longrightarrow> P s \<Longrightarrow> m s = (x, s') \<Longrightarrow> P s'"
  using preservesD [of P m s] by simp

lemma preserves_sql:
  assumes "fault_free P" "preserves P stmt" shows "preserves P (sql stmt)"
  using assms unfolding preserves_def fault_free_def sql_def
  by (auto split: list.split option.split)

lemma preserves_andThen:
  assumes "preserves P m" "\<And>x. preserves P (f x)" shows "preserves P (andThen m f)"
  using assms unfolding preserves_def andThen_def
  by (fastforce split: prod.split sum.split)

lemma preserves_fail [simp]: "preserves P (fail c)"
  by (simp add: preserves_def fail_def)

lemma fault_free_db_ok [simp]: "fault_free db_ok"
  by (simp add: fault_free_def db_ok_def table_ok_defs)

lemma preserves_read:
  assumes "fault_free P" "\<And>s. snd (stmt s) = s" shows "preserves P (sql stmt)"
  by (rule preserves_sql [OF assms(1)]) (simp add: preserves_def assms(2))

lemma snd_fail [simp]: "snd (fail c s) = s"
  by (simp add: fail_def)

lemma set_update_where: "set (update_where p f rows) = (\<lambda>r. if p r then f r else r) ` set rows"
  by (simp add: update_where_def)

lemma set_delete_where [simp]: "set (delete_where p rows) = {r \<in> set rows. \<not> p r}"
  by (auto simp: delete_where_def)

lemma map_update_where:
  assumes "\<And>r. p r \<Longrightarrow> key (f r) = key r"
  shows "map key (update_where p f rows) = map key rows"
  using assms by (simp add: update_where_def)

lemma length_update_where [simp]: "length (update_where p f rows) = length rows"
  by (simp add: update_where_def)

lemma keys_ok_update:
  assumes "\<And>r. p r \<Longrightarrow> key (f r) = key r" "keys_ok key rows n"
  shows "keys_ok key (update_where p f rows) n"
  using assms map_update_where [of p key f rows]
  by (auto simp: keys_ok_def set_update_where)

lemma distinct_map_delete: "distinct (map f rows) \<Longrightarrow> distinct (map f (delete_where p rows))"
  by (simp add: delete_where_def distinct_map_filter)

lemma keys_ok_delete: "keys_ok key rows n \<Longrightarrow> keys_ok key (delete_where p rows) n"
  by (auto simp: keys_ok_def distinct_map_delete)

lemma keys_ok_append:
  "keys_ok key rows n \<Longrightarrow> key r = n \<Longrightarrow> int4 n \<Longrightarrow> keys_ok key (rows @ [r]) (n + 1)"
  by (fastforce simp: keys_ok_def int4_def)

lemma keys_ok_next: "keys_ok key rows n \<Longrightarrow> int4 n \<Longrightarrow> keys_ok key rows (n + 1)"
  by (fastforce simp: keys_ok_def int4_def)

lemma keys_ok_int4: "keys_ok key rows n \<Longrightarrow> r \<in> set rows \<Longrightarrow> int4 (key r)"
  by (fastforce simp: keys_ok_def int4_def)

lemma image_update_where:
  assumes "\<And>r. p r \<Longrightarrow> key (f r) = key r"
  shows "key ` set (update_where p f rows) = key ` set rows"
  using map_update_where [of p key f rows, OF assms] by (metis set_map)

lemma keys_ok_single:
  assumes "keys_ok key rows n" "k \<in> key ` set rows"
  shows "\<exists>r. filter (\<lambda>r. key r = k) rows = [r] \<and> r \<in> set rows \<and> key r = k"
proof -
  have "distinct (map key rows)" using assms by (simp add: keys_ok_def)
  then have "\<exists>r. filter (\<lambda>r. key r = k) rows = [r]"
    using assms(2) by (induction rows) (auto simp: filter_empty_conv image_iff)
  then obtain r where r: "filter (\<lambda>r. key r = k) rows = [r]" by blast
  have "r \<in> set (filter (\<lambda>r. key r = k) rows)" by (simp only: r list.set) simp
  then have "r \<in> set rows \<and> key r = k" by simp
  with r show ?thesis by blast
qed

lemma sql_up: "db_faults s = [] \<Longrightarrow> sql stmt s = stmt s"
  by (simp add: sql_def)

lemma sql_cases:
  obtains (fault) e fs where "sql stmt s = (Inl (Error e), s\<lparr>db_faults := fs\<rparr>)"
  | (run) fs where "sql stmt s = stmt (s\<lparr>db_faults := fs\<rparr>)"
proof (cases "db_faults s")
  case Nil
  moreover have "s\<lparr>db_faults := db_faults s\<rparr> = s" by simp
  ultimately have eq: "s\<lparr>db_faults := []\<rparr> = s" by metis
  have "sql stmt s = stmt s" using Nil by (simp add: sql_def)
  then have "sql stmt s = stmt (s\<lparr>db_faults := []\<rparr>)" by (simp only: eq)
  then show thesis by (rule run)
next
  case (Cons f fs)
  then show thesis
    by (cases f) (simp_all add: sql_def fault run)
qed

lemma sql_keeps:
  assumes "\<And>fs. g (snd (stmt (s\<lparr>db_faults := fs\<rparr>))) = g s" "\<And>fs. g (s\<lparr>db_faults := fs\<rparr>) = g s"
  shows "g (snd (sql stmt s)) = g s"
  by (rule sql_cases [of stmt s]) (simp_all add: assms)

text \<open>The text check runs before the statement and changes nothing.\<close>

lemma preserves_storing:
  "(list_all text_ok texts \<Longrightarrow> preserves P stmt) \<Longrightarrow> preserves P (storing texts stmt)"
  by (simp add: preserves_def storing_def)

lemma storing_up: "list_all text_ok texts \<Longrightarrow> storing texts stmt = stmt"
  by (simp add: storing_def fun_eq_iff)

lemma text_ok_Nil [simp]: "text_ok []"
  by (simp add: text_ok_def)

lemma text_ok_append: "text_ok a \<Longrightarrow> text_ok b \<Longrightarrow> text_ok (a @ b)"
proof -
  have "text_from rs a \<Longrightarrow> text_from [] b \<Longrightarrow> text_from rs (a @ b)" for rs
    by (induction a arbitrary: rs) (auto split: list.splits option.splits)
  then show "text_ok a \<Longrightarrow> text_ok b \<Longrightarrow> text_ok (a @ b)" by (simp add: text_ok_def)
qed

text \<open>ASCII without the byte 0 is storable.\<close>

definition ascii_char :: "char \<Rightarrow> bool" where
  "ascii_char c \<longleftrightarrow> 0 < (of_char c :: nat) \<and> (of_char c :: nat) < 0x80"

lemma text_ok_Cons [simp]: "ascii_char c \<Longrightarrow> text_ok (c # cs) \<longleftrightarrow> text_ok cs"
  by (simp add: text_ok_def ascii_char_def utf8_lead_def)

lemma ascii_char_Char [simp]:
  "ascii_char (Char b0 b1 b2 b3 b4 b5 b6 b7) \<longleftrightarrow>
     \<not> b7 \<and> (b0 \<or> b1 \<or> b2 \<or> b3 \<or> b4 \<or> b5 \<or> b6)"
  by (cases b0; cases b1; cases b2; cases b3; cases b4; cases b5; cases b6; cases b7)
    (simp_all add: ascii_char_def)

lemma text_ok_ascii: "list_all ascii_char s \<Longrightarrow> text_ok s"
  by (induction s) simp_all

lemma text_ok_examples:
  "\<not> text_ok [CHR 0x00]" "\<not> text_ok [CHR 0xFF]" "text_ok [CHR 0xC3, CHR 0xA9]"
  by (simp_all add: text_ok_def utf8_lead_def)

text \<open>A change to rows that a filter leaves out anyway does not show in what it lets through.\<close>

lemma filter_update_other:
  assumes "\<forall>r \<in> set rows. p r \<longrightarrow> \<not> q r \<and> \<not> q (f r)"
  shows "filter q (update_where p f rows) = filter q rows"
  using assms by (induction rows) (auto simp: update_where_def)

lemma filter_delete_other:
  assumes "\<forall>r \<in> set rows. p r \<longrightarrow> \<not> q r"
  shows "filter q (delete_where p rows) = filter q rows"
  using assms by (induction rows) (auto simp: delete_where_def)

end
