(* ===== verification/Bill_Store.thy ===== *)
theory Bill_Store
  imports Database
begin

text \<open>
  The stores of \<^verbatim>\<open>internal/models/bill.go\<close>: one definition per method, the SQL
  statement it sends written out on the tables, constraints and cascades
  included. A \<^verbatim>\<open>DATE\<close> parameter takes the calendar day of the instant in the
  instant's own location and reads back as UTC midnight of that day.
\<close>

section \<open>Bill definitions\<close>

definition db_date :: "tz \<Rightarrow> time \<Rightarrow> time" where
  "db_date tz t = local_midnight tz UTC (time_date tz t)"

record BillInstanceView =
  v_InstanceID :: int
  v_DefinitionID :: int
  v_Name :: string
  v_AmountCents :: int
  v_VendorURL :: "string option"
  v_DueDate :: time
  v_Paid :: bool

text \<open>
  The loop over the rows of an answer; a row that cannot be read or a broken answer is a failure of
  the statement.
\<close>

primrec scan_each :: "'a list \<Rightarrow> 'a list \<Rightarrow> 'a list" where
  "scan_each [] out = out"
| "scan_each (row # rows) out = scan_each rows (out @ [row])"

lemma scan_each [simp]: "scan_each rows out = out @ rows"
  by (induction rows arbitrary: out) simp_all

definition scanBillDefinitions :: "BillDefinition list \<Rightarrow> BillDefinition list" where
  [simp]: "scanBillDefinitions rows = scan_each rows []"

definition BillDefinitionStore_ListAll :: "BillDefinition list dbm" where
  "BillDefinitionStore_ListAll =
     sql (\<lambda>s. (Inr (scanBillDefinitions (sort_by (pg_collate s) bd_Name (bt_bill_definitions s))), s))"

definition scanBillDefinition :: "BillDefinition list \<Rightarrow> (error, BillDefinition) result" where
  "scanBillDefinition rows = (case rows of [] \<Rightarrow> Inl ErrBillNotFound | b # _ \<Rightarrow> Inr b)"

definition BillDefinitionStore_GetByID :: "int \<Rightarrow> BillDefinition dbm" where
  "BillDefinitionStore_GetByID rid =
     sql (\<lambda>s. if \<not> int4 rid then fail ''id'' s
       else (scanBillDefinition (filter (\<lambda>b. bd_ID b = rid) (bt_bill_definitions s)), s))"

definition BillDefinitionStore_GetByName :: "string \<Rightarrow> BillDefinition dbm" where
  "BillDefinitionStore_GetByName name =
     sql (storing [name]
       (\<lambda>s. (scanBillDefinition (filter (\<lambda>b. bd_Name b = name) (bt_bill_definitions s)), s)))"

text \<open>The text parameters of a definition: its name, and its vendor URL unless that is NULL.\<close>

definition url_texts :: "BillDefinition \<Rightarrow> string list" where
  "url_texts b = (case bd_VendorURL b of None \<Rightarrow> [] | Some u \<Rightarrow> [u])"

definition BillDefinitionStore_Create :: "tz \<Rightarrow> BillDefinition \<Rightarrow> int dbm" where
  "BillDefinitionStore_Create tz b =
     sql (storing (bd_Name b # url_texts b) (\<lambda>s. let rid = seq_definitions s in
       if \<not> int4 (bd_AmountCents b) then fail ''amount_cents'' s
       else if \<not> int4 rid then fail ''bt_bill_definitions_id_seq'' s
       else let row = b\<lparr>bd_ID := rid, bd_OneOffDate := map_option (db_date tz) (bd_OneOffDate b),
                  bd_SimpleFinAccountID := None, bd_CreatedAt := db_now s\<rparr>;
                s' = s\<lparr>seq_definitions := rid + 1\<rparr>
         in if definition_check row
            then (Inr rid, s'\<lparr>bt_bill_definitions := bt_bill_definitions s @ [row]\<rparr>)
            else fail ''bt_bill_definitions_check'' s'))"

text \<open>\<open>update_definition\<close> is what an \<^verbatim>\<open>UPDATE ... WHERE id = $1\<close> on this table does:
  the CHECK constraints hold for the changed row or nothing changes.\<close>

definition update_definition :: "int \<Rightarrow> int \<Rightarrow> (BillDefinition \<Rightarrow> BillDefinition) \<Rightarrow> unit dbm" where
  "update_definition rid cents upd s =
     (if \<not> int4 rid then fail ''id'' s
      else if \<not> int4 cents then fail ''amount_cents'' s
      else if \<forall>b \<in> set (bt_bill_definitions s). bd_ID b = rid \<longrightarrow> definition_check (upd b)
      then (Inr (), s\<lparr>bt_bill_definitions :=
              update_where (\<lambda>b. bd_ID b = rid) upd (bt_bill_definitions s)\<rparr>)
      else fail ''bt_bill_definitions_check'' s)"

definition BillDefinitionStore_Update :: "tz \<Rightarrow> int \<Rightarrow> BillDefinition \<Rightarrow> unit dbm" where
  "BillDefinitionStore_Update tz rid b =
     sql (storing (bd_Name b # url_texts b) (update_definition rid (bd_AmountCents b) (\<lambda>r. r\<lparr>
       bd_Name := bd_Name b, bd_AmountCents := bd_AmountCents b,
       bd_ScheduleType := bd_ScheduleType b, bd_DayOfMonth := bd_DayOfMonth b,
       bd_QuarterStartMonth := bd_QuarterStartMonth b,
       bd_OneOffDate := map_option (db_date tz) (bd_OneOffDate b),
       bd_VendorURL := bd_VendorURL b\<rparr>)))"

definition BillDefinitionStore_UpdateBootstrap :: "tz \<Rightarrow> int \<Rightarrow> BillDefinition \<Rightarrow> unit dbm" where
  "BillDefinitionStore_UpdateBootstrap tz rid b =
     sql (storing (url_texts b) (update_definition rid (bd_AmountCents b) (\<lambda>r. r\<lparr>
       bd_AmountCents := bd_AmountCents b,
       bd_ScheduleType := bd_ScheduleType b, bd_DayOfMonth := bd_DayOfMonth b,
       bd_QuarterStartMonth := bd_QuarterStartMonth b,
       bd_OneOffDate := map_option (db_date tz) (bd_OneOffDate b),
       bd_VendorURL := bd_VendorURL b\<rparr>)))"

definition BillDefinitionStore_UpdateAmount :: "int \<Rightarrow> int \<Rightarrow> unit dbm" where
  "BillDefinitionStore_UpdateAmount rid amountCents =
     sql (update_definition rid amountCents (\<lambda>r. r\<lparr>bd_AmountCents := amountCents\<rparr>))"

definition BillDefinitionStore_Delete :: "int \<Rightarrow> unit dbm" where
  "BillDefinitionStore_Delete rid =
     sql (\<lambda>s. if \<not> int4 rid then fail ''id'' s
       else (Inr (), s\<lparr>
         bt_bill_definitions := delete_where (\<lambda>b. bd_ID b = rid) (bt_bill_definitions s),
         bt_bill_instances := delete_where (\<lambda>i. bi_BillDefinitionID i = rid) (bt_bill_instances s),
         bt_vendor_connections :=
           delete_where (\<lambda>v. vc_BillDefinitionID v = rid) (bt_vendor_connections s)\<rparr>))"

section \<open>Bill instances\<close>

text \<open>The inner join of instances with their definitions, in the shape of the view.\<close>

definition instance_view :: "tz \<Rightarrow> BillInstance \<Rightarrow> BillDefinition \<Rightarrow> BillInstanceView" where
  "instance_view tz i d =
     \<lparr>v_InstanceID = bi_ID i, v_DefinitionID = bi_BillDefinitionID i, v_Name = bd_Name d,
      v_AmountCents = bd_AmountCents d, v_VendorURL = bd_VendorURL d,
      v_DueDate = local_midnight tz UTC (bi_DueDate i), v_Paid = bi_Paid i\<rparr>"

definition instance_views :: "tz \<Rightarrow> (BillInstance \<Rightarrow> bool) \<Rightarrow> db \<Rightarrow> BillInstanceView list" where
  "instance_views tz p s =
     concat (map (\<lambda>i. map (instance_view tz i)
         (filter (\<lambda>d. bd_ID d = bi_BillDefinitionID i) (bt_bill_definitions s)))
       (sort_by (\<le>) bi_DueDate (filter p (bt_bill_instances s))))"

definition BillInstanceStore_ListUpcomingUnpaid :: "tz \<Rightarrow> time \<Rightarrow> BillInstanceView list dbm" where
  "BillInstanceStore_ListUpcomingUnpaid tz to =
     sql (\<lambda>s. (Inr (instance_views tz
       (\<lambda>i. bi_Paid i = False \<and> bi_DueDate i \<le> time_date tz to) s), s))"

definition BillInstanceStore_ListAllForSettings ::
    "tz \<Rightarrow> time \<Rightarrow> time \<Rightarrow> BillInstanceView list dbm" where
  "BillInstanceStore_ListAllForSettings tz from to =
     sql (\<lambda>s. (Inr (instance_views tz
       (\<lambda>i. time_date tz from \<le> bi_DueDate i \<and> bi_DueDate i \<le> time_date tz to) s), s))"

text \<open>The serial default is drawn before the conflict is noticed; the foreign key is
  checked after the row is in, and undoes it.\<close>

definition BillInstanceStore_EnsureInstance :: "tz \<Rightarrow> int \<Rightarrow> time \<Rightarrow> unit dbm" where
  "BillInstanceStore_EnsureInstance tz definitionID dueDate =
     sql (\<lambda>s. let rid = seq_instances s; due = time_date tz dueDate;
              s' = s\<lparr>seq_instances := rid + 1\<rparr> in
       if \<not> int4 definitionID then fail ''bill_definition_id'' s
       else if \<not> int4 rid then fail ''bt_bill_instances_id_seq'' s
       else if \<exists>i \<in> set (bt_bill_instances s). bi_BillDefinitionID i = definitionID \<and> bi_DueDate i = due
       then (Inr (), s')
       else if definitionID \<notin> bd_ID ` set (bt_bill_definitions s)
       then fail ''bt_bill_instances_bill_definition_id_fkey'' s'
       else (Inr (), s'\<lparr>bt_bill_instances := bt_bill_instances s @
              [\<lparr>bi_ID = rid, bi_BillDefinitionID = definitionID, bi_DueDate = due,
                bi_Paid = False, bi_PaidAt = None\<rparr>]\<rparr>))"

definition BillInstanceStore_MarkPaid :: "int \<Rightarrow> unit dbm" where
  "BillInstanceStore_MarkPaid rid =
     sql (\<lambda>s. if \<not> int4 rid then fail ''id'' s
       else let n = length (filter (\<lambda>i. bi_ID i = rid) (bt_bill_instances s));
                s' = s\<lparr>bt_bill_instances := update_where (\<lambda>i. bi_ID i = rid)
                  (\<lambda>i. i\<lparr>bi_Paid := True, bi_PaidAt := Some (db_now s)\<rparr>) (bt_bill_instances s)\<rparr>
         in if n = 0 then (Inl (Error (''bill instance '' @ Itoa rid @ '' not found'')), s')
            else (Inr (), s'))"

section \<open>What the methods keep\<close>

text \<open>Reads change nothing but the fault script.\<close>

lemmas bill_read_defs = BillDefinitionStore_ListAll_def BillDefinitionStore_GetByID_def
  BillDefinitionStore_GetByName_def BillInstanceStore_ListUpcomingUnpaid_def
  BillInstanceStore_ListAllForSettings_def

lemma preserves_bill_reads:
  assumes "fault_free P"
  shows "preserves P BillDefinitionStore_ListAll"
    and "preserves P (BillDefinitionStore_GetByID rid)"
    and "preserves P (BillDefinitionStore_GetByName name)"
    and "preserves P (BillInstanceStore_ListUpcomingUnpaid tz to)"
    and "preserves P (BillInstanceStore_ListAllForSettings tz from to)"
  unfolding bill_read_defs by (rule preserves_read [OF assms], simp add: storing_def)+

text \<open>The invariant of the schema, part by part, after a change to the definitions.\<close>

lemma db_ok_definitions_grow:
  assumes "db_ok s" and "keys_ok bd_ID rows n"
    and "bd_ID ` set (bt_bill_definitions s) \<subseteq> bd_ID ` set rows"
    and "\<And>b. b \<in> set rows \<Longrightarrow> definition_check b \<and> int4 (bd_AmountCents b) \<and>
           text_ok (bd_Name b) \<and> pred_option text_ok (bd_VendorURL b) \<and>
           set_option (bd_SimpleFinAccountID b) \<subseteq> acc_ID ` set (bt_accounts s)"
  shows "db_ok (s\<lparr>seq_definitions := n, bt_bill_definitions := rows\<rparr>)"
  using assms by (fastforce simp: db_ok_def table_ok_defs)

lemma db_ok_seq_definitions:
  assumes "db_ok s" "int4 (seq_definitions s)"
  shows "db_ok (s\<lparr>seq_definitions := seq_definitions s + 1\<rparr>)"
  using assms by (simp add: db_ok_def table_ok_defs keys_ok_next)

lemma url_texts_ok: "list_all text_ok (url_texts b) \<longleftrightarrow> pred_option text_ok (bd_VendorURL b)"
  by (cases "bd_VendorURL b") (simp_all add: url_texts_def)

lemma Create_ok: "preserves db_ok (BillDefinitionStore_Create tz b)"
  unfolding BillDefinitionStore_Create_def
proof (intro preserves_sql preserves_storing preservesI fault_free_db_ok, goal_cases)
  case s: (1 s)
  then have texts: "text_ok (bd_Name b)" "pred_option text_ok (bd_VendorURL b)" and s: "db_ok s"
    by (simp_all add: url_texts_ok)
  define row where "row = b\<lparr>bd_ID := seq_definitions s,
    bd_OneOffDate := map_option (db_date tz) (bd_OneOffDate b), bd_SimpleFinAccountID := None,
    bd_CreatedAt := db_now s\<rparr>"
  have keys: "keys_ok bd_ID (bt_bill_definitions s) (seq_definitions s)"
    using s by (simp add: db_ok_def definitions_ok_def)
  have "db_ok (s\<lparr>seq_definitions := seq_definitions s + 1,
      bt_bill_definitions := bt_bill_definitions s @ [row]\<rparr>)"
    if "definition_check row" "int4 (bd_AmountCents b)" "int4 (seq_definitions s)"
  proof (rule db_ok_definitions_grow [OF s])
    show "keys_ok bd_ID (bt_bill_definitions s @ [row]) (seq_definitions s + 1)"
      by (rule keys_ok_append [OF keys _ that(3)]) (simp add: row_def)
  qed (use s that texts in \<open>auto simp: row_def db_ok_def definitions_ok_def\<close>)
  then show ?case
    using s db_ok_seq_definitions [OF s] by (simp add: Let_def row_def)
qed

lemma update_definition_ok:
  assumes "\<And>r. bd_ID (upd r) = bd_ID r" "\<And>r. bd_SimpleFinAccountID (upd r) = bd_SimpleFinAccountID r"
    and "\<And>r. bd_AmountCents (upd r) = cents"
    and "\<And>r. text_ok (bd_Name r) \<Longrightarrow> text_ok (bd_Name (upd r))"
    and "\<And>r. pred_option text_ok (bd_VendorURL r) \<Longrightarrow> pred_option text_ok (bd_VendorURL (upd r))"
  shows "preserves db_ok (update_definition rid cents upd)"
proof (rule preservesI)
  fix s assume s: "db_ok s"
  let ?rows = "update_where (\<lambda>b. bd_ID b = rid) upd (bt_bill_definitions s)"
  have "db_ok (s\<lparr>seq_definitions := seq_definitions s, bt_bill_definitions := ?rows\<rparr>)"
    if "int4 cents" "\<forall>b \<in> set (bt_bill_definitions s). bd_ID b = rid \<longrightarrow> definition_check (upd b)"
  proof (rule db_ok_definitions_grow [OF s])
    show "keys_ok bd_ID ?rows (seq_definitions s)"
      using s assms by (intro keys_ok_update) (auto simp: db_ok_def definitions_ok_def)
    show "bd_ID ` set (bt_bill_definitions s) \<subseteq> bd_ID ` set ?rows"
      using assms by (simp add: image_update_where)
  qed (use s that assms in \<open>auto simp: set_update_where db_ok_def definitions_ok_def\<close>)
  then show "db_ok (snd (update_definition rid cents upd s))"
    using s by (simp add: update_definition_def)
qed

lemma definition_updates_ok:
  shows "preserves db_ok (BillDefinitionStore_Update tz rid b)"
    and "preserves db_ok (BillDefinitionStore_UpdateBootstrap tz rid b)"
    and "preserves db_ok (BillDefinitionStore_UpdateAmount rid cents)"
  unfolding BillDefinitionStore_Update_def BillDefinitionStore_UpdateBootstrap_def
    BillDefinitionStore_UpdateAmount_def
  by (intro preserves_sql preserves_storing fault_free_db_ok update_definition_ok; simp add: url_texts_ok)+

lemma Delete_ok: "preserves db_ok (BillDefinitionStore_Delete rid)"
  unfolding BillDefinitionStore_Delete_def
proof (intro preserves_sql preservesI fault_free_db_ok, goal_cases)
  case (1 s)
  then show ?case
    by (simp add: db_ok_def table_ok_defs keys_ok_delete distinct_map_delete) blast
qed

text \<open>The instances.\<close>

lemma db_ok_instances:
  assumes "db_ok s" and "keys_ok bi_ID rows n"
    and "distinct (map (\<lambda>i. (bi_BillDefinitionID i, bi_DueDate i)) rows)"
    and "\<And>i. i \<in> set rows \<Longrightarrow> bi_BillDefinitionID i \<in> bd_ID ` set (bt_bill_definitions s) \<and>
           valid_date (bi_DueDate i) \<and> (bi_Paid i \<longleftrightarrow> bi_PaidAt i \<noteq> None)"
  shows "db_ok (s\<lparr>seq_instances := n, bt_bill_instances := rows\<rparr>)"
  using assms by (fastforce simp: db_ok_def table_ok_defs)

lemma EnsureInstance_ok: "preserves db_ok (BillInstanceStore_EnsureInstance tz rid t)"
  unfolding BillInstanceStore_EnsureInstance_def
proof (intro preserves_sql preservesI fault_free_db_ok, goal_cases)
  case s: (1 s)
  let ?row = "\<lparr>bi_ID = seq_instances s, bi_BillDefinitionID = rid, bi_DueDate = time_date tz t,
    bi_Paid = False, bi_PaidAt = None\<rparr>"
  note ok = s [unfolded db_ok_def instances_ok_def]
  have "db_ok (s\<lparr>seq_instances := seq_instances s + 1,
      bt_bill_instances := bt_bill_instances s @ [?row]\<rparr>)"
    if "\<not> (\<exists>i \<in> set (bt_bill_instances s). bi_BillDefinitionID i = rid \<and> bi_DueDate i = time_date tz t)"
      "rid \<in> bd_ID ` set (bt_bill_definitions s)" "int4 (seq_instances s)"
    by (rule db_ok_instances [OF s]) (use ok that in \<open>auto simp: time_date_valid intro: keys_ok_append\<close>)
  moreover have "db_ok (s\<lparr>seq_instances := seq_instances s + 1\<rparr>)" if "int4 (seq_instances s)"
    using s that by (simp add: db_ok_def table_ok_defs keys_ok_next)
  ultimately show ?case using s by (auto simp: Let_def)
qed

lemma MarkPaid_ok: "preserves db_ok (BillInstanceStore_MarkPaid rid)"
  unfolding BillInstanceStore_MarkPaid_def
proof (intro preserves_sql preservesI fault_free_db_ok, goal_cases)
  case s: (1 s)
  let ?rows = "update_where (\<lambda>i. bi_ID i = rid)
    (\<lambda>i. i\<lparr>bi_Paid := True, bi_PaidAt := Some (db_now s)\<rparr>) (bt_bill_instances s)"
  note ok = s [unfolded db_ok_def instances_ok_def]
  have "db_ok (s\<lparr>seq_instances := seq_instances s, bt_bill_instances := ?rows\<rparr>)"
    by (rule db_ok_instances [OF s])
      (use ok in \<open>auto simp: map_update_where set_update_where intro: keys_ok_update\<close>)
  then show ?case using s by (simp add: Let_def)
qed

lemmas bill_store_ok = preserves_bill_reads [OF fault_free_db_ok] Create_ok definition_updates_ok
  Delete_ok EnsureInstance_ok MarkPaid_ok

section \<open>What the queries answer\<close>

lemma map_concat_singletons:
  "(\<And>x. x \<in> set xs \<Longrightarrow> \<exists>y. f x = [y] \<and> g y = h x) \<Longrightarrow> map g (concat (map f xs)) = map h xs"
  by (induction xs) fastforce+

lemma map_instance_views:
  assumes "db_ok s" "\<And>i d. g (instance_view tz i d) = h i"
  shows "map g (instance_views tz p s) = map h (sort_by (\<le>) bi_DueDate (filter p (bt_bill_instances s)))"
  unfolding instance_views_def
proof (rule map_concat_singletons)
  fix i assume "i \<in> set (sort_by (\<le>) bi_DueDate (filter p (bt_bill_instances s)))"
  then have "bi_BillDefinitionID i \<in> bd_ID ` set (bt_bill_definitions s)"
    using assms(1) by (auto simp: db_ok_def instances_ok_def)
  moreover have "keys_ok bd_ID (bt_bill_definitions s) (seq_definitions s)"
    using assms(1) by (simp add: db_ok_def definitions_ok_def)
  ultimately show "\<exists>y. map (instance_view tz i)
      (filter (\<lambda>d. bd_ID d = bi_BillDefinitionID i) (bt_bill_definitions s)) = [y] \<and> g y = h i"
    using keys_ok_single assms(2) by fastforce
qed

lemma set_instance_views:
  "set (instance_views tz p s) =
     {instance_view tz i d | i d. i \<in> set (bt_bill_instances s) \<and> p i \<and>
        d \<in> set (bt_bill_definitions s) \<and> bd_ID d = bi_BillDefinitionID i}"
  by (fastforce simp: instance_views_def)

lemma UTC_midnight_date [simp]: "valid_date d \<Longrightarrow> time_date tz (local_midnight tz UTC d) = d"
  by (rule utc_days.local_midnight_date)

lemma instance_views_sorted:
  assumes "db_ok s"
  shows "sorted (map (\<lambda>v. time_date tz (v_DueDate v)) (instance_views tz p s))"
proof -
  let ?is = "sort_by (\<le>) bi_DueDate (filter p (bt_bill_instances s))"
  have "map (\<lambda>v. time_date tz (v_DueDate v)) (instance_views tz p s)
      = map (\<lambda>i. time_date tz (local_midnight tz UTC (bi_DueDate i))) ?is"
    by (rule map_instance_views [OF assms]) (simp add: instance_view_def)
  also have "\<dots> = map bi_DueDate ?is"
    using assms by (auto simp: db_ok_def instances_ok_def)
  finally have eq: "map (\<lambda>v. time_date tz (v_DueDate v)) (instance_views tz p s) = map bi_DueDate ?is" .
  have "sorted_wrt (\<lambda>x y. bi_DueDate x \<le> bi_DueDate y) ?is"
    by (rule sorted_wrt_sort_by) auto
  then show ?thesis unfolding eq by (simp add: sorted_map)
qed

lemma instance_views_distinct:
  assumes "db_ok s" shows "distinct (map v_InstanceID (instance_views tz p s))"
proof -
  have "map v_InstanceID (instance_views tz p s)
      = map bi_ID (sort_by (\<le>) bi_DueDate (filter p (bt_bill_instances s)))"
    by (rule map_instance_views [OF assms]) (simp add: instance_view_def)
  then show ?thesis
    using assms by (simp add: db_ok_def instances_ok_def keys_ok_def distinct_map_filter)
qed

text \<open>The state of the examples: two bills, one of them paid once.\<close>

definition sample_time :: "int \<Rightarrow> time" where
  "sample_time u = \<lparr>time_sec = u, time_nsec = 0, time_loc = UTC\<rparr>"

definition sample_db :: db where
  "sample_db = (empty_db (sample_time 1767225600) [] id (\<lambda>_ _. True))\<lparr>
     bt_bill_definitions := [day31_bill\<lparr>bd_ID := 1\<rparr>, day31_bill\<lparr>bd_ID := 2, bd_Name := ''Water''\<rparr>],
     seq_definitions := 3,
     bt_bill_instances :=
       [\<lparr>bi_ID = 1, bi_BillDefinitionID = 1, bi_DueDate = Date 2026 2 28, bi_Paid = False, bi_PaidAt = None\<rparr>,
        \<lparr>bi_ID = 2, bi_BillDefinitionID = 2, bi_DueDate = Date 2026 1 31, bi_Paid = False, bi_PaidAt = None\<rparr>,
        \<lparr>bi_ID = 3, bi_BillDefinitionID = 1, bi_DueDate = Date 2026 1 31, bi_Paid = True,
         bi_PaidAt = Some (sample_time 1767225600)\<rparr>],
     seq_instances := 4\<rparr>"

lemma sample_db_ok: "db_ok sample_db"
  by (simp add: sample_db_def db_ok_def table_ok_defs keys_ok_def definition_check_def int4_def
      schedule_shape_check_def day31_bill_def empty_db_def valid_date_def days_in_def)

section \<open>Properties of the bill stores\<close>

text \<open>
  C28. The query behind the kiosk view and the event feed answers, in order of due
  date and each instance once, exactly the unpaid instances due on or before
  the day of its argument, with the display fields of the definition they
  belong to; however old an unpaid instance is, it is not left out.
\<close>

theorem ListUpcomingUnpaid_exact:
  assumes "db_ok s" "db_faults s = []"
  shows "\<exists>vs. BillInstanceStore_ListUpcomingUnpaid tz to s = (Inr vs, s) \<and>
    sorted (map (\<lambda>v. time_date tz (v_DueDate v)) vs) \<and> distinct (map v_InstanceID vs) \<and>
    set vs = {instance_view tz i d | i d. i \<in> set (bt_bill_instances s) \<and> \<not> bi_Paid i \<and>
      bi_DueDate i \<le> time_date tz to \<and> d \<in> set (bt_bill_definitions s) \<and>
      bd_ID d = bi_BillDefinitionID i} \<and>
    (\<forall>i \<in> set (bt_bill_instances s). \<not> bi_Paid i \<longrightarrow> bi_DueDate i \<le> time_date tz to \<longrightarrow>
      bi_ID i \<in> v_InstanceID ` set vs)"
proof -
  let ?p = "\<lambda>i. bi_Paid i = False \<and> bi_DueDate i \<le> time_date tz to"
  have ids: "map v_InstanceID (instance_views tz ?p s)
      = map bi_ID (sort_by (\<le>) bi_DueDate (filter ?p (bt_bill_instances s)))"
    by (rule map_instance_views [OF assms(1)]) (simp add: instance_view_def)
  have "v_InstanceID ` set (instance_views tz ?p s) = bi_ID ` {i \<in> set (bt_bill_instances s). ?p i}"
    using arg_cong [OF ids, of set] by simp
  moreover have "set (instance_views tz ?p s) =
      {instance_view tz i d | i d. i \<in> set (bt_bill_instances s) \<and> \<not> bi_Paid i \<and>
      bi_DueDate i \<le> time_date tz to \<and> d \<in> set (bt_bill_definitions s) \<and>
      bd_ID d = bi_BillDefinitionID i}"
    by (auto simp: set_instance_views)
  ultimately show ?thesis
    using assms instance_views_sorted [OF assms(1), of tz ?p]
      instance_views_distinct [OF assms(1), of tz ?p]
    by (simp add: BillInstanceStore_ListUpcomingUnpaid_def sql_up)
qed

theorem ListUpcomingUnpaid_exact_witness:
  "db_ok sample_db \<and> db_faults sample_db = [] \<and>
   (\<exists>vs. BillInstanceStore_ListUpcomingUnpaid (fixed_tz 0) (sample_time 1772323199) sample_db = (Inr vs, sample_db) \<and>
     distinct (map v_InstanceID vs) \<and> {1, 2} \<subseteq> v_InstanceID ` set vs)"
proof -
  have day: "time_date (fixed_tz 0) (sample_time 1772323199) = Date 2026 2 28"
    by code_simp
  have up: "db_faults sample_db = []" by (simp add: sample_db_def empty_db_def)
  show ?thesis
    using ListUpcomingUnpaid_exact [OF sample_db_ok up, of "fixed_tz 0" "sample_time 1772323199"]
      sample_db_ok up
    unfolding day by (auto simp: sample_db_def less_eq_date_def)
qed

text \<open>Which bill is due on which day, according to the table.\<close>

definition occurrences :: "db \<Rightarrow> (int \<times> date) set" where
  "occurrences s = (\<lambda>i. (bi_BillDefinitionID i, bi_DueDate i)) ` set (bt_bill_instances s)"

lemma occurrences_iff:
  "(rid, d) \<in> occurrences s \<longleftrightarrow>
     (\<exists>i \<in> set (bt_bill_instances s). bi_BillDefinitionID i = rid \<and> bi_DueDate i = d)"
  by (auto simp: occurrences_def)

lemma EnsureInstance_run:
  assumes "db_ok s" "db_faults s = []" "int4 (seq_instances s)"
    and "rid \<in> bd_ID ` set (bt_bill_definitions s)" "int4 rid"
  shows "BillInstanceStore_EnsureInstance tz rid t s = (Inr (), s\<lparr>
    seq_instances := seq_instances s + 1,
    bt_bill_instances := bt_bill_instances s @
      (if (rid, time_date tz t) \<in> occurrences s
       then [] else [\<lparr>bi_ID = seq_instances s, bi_BillDefinitionID = rid,
         bi_DueDate = time_date tz t, bi_Paid = False, bi_PaidAt = None\<rparr>])\<rparr>)"
  using assms by (simp add: BillInstanceStore_EnsureInstance_def sql_up Let_def occurrences_iff)

text \<open>
  Ensuring an occurrence succeeds, leaves every existing row as it is (a paid
  occurrence stays paid, with its time), makes exactly the asked occurrence exist
  besides those that did, and doing it again for any instant of the same day adds nothing.
\<close>

theorem EnsureInstance_once:
  assumes "db_ok s" "db_faults s = []" "int4 (seq_instances s)" "int4 (seq_instances s + 1)"
    and "rid \<in> bd_ID ` set (bt_bill_definitions s)" "int4 rid"
    and "time_date tz u = time_date tz t"
  shows "let (r, s') = BillInstanceStore_EnsureInstance tz rid t s;
             (r2, s2) = BillInstanceStore_EnsureInstance tz rid u s'
    in r = Inr () \<and> r2 = Inr () \<and> db_ok s' \<and> bt_bill_instances s2 = bt_bill_instances s' \<and>
       take (length (bt_bill_instances s)) (bt_bill_instances s') = bt_bill_instances s \<and>
       occurrences s' =
       insert (rid, time_date tz t) (occurrences s)"
proof -
  obtain r s' where run: "BillInstanceStore_EnsureInstance tz rid t s = (r, s')" by force
  note eq = EnsureInstance_run [OF assms(1-3,5,6), of tz t, unfolded run]
  have ok': "db_ok s'" using preservesD [OF EnsureInstance_ok assms(1)] run by (metis snd_conv)
  have "BillInstanceStore_EnsureInstance tz rid u s' =
      (Inr (), s'\<lparr>seq_instances := seq_instances s' + 1\<rparr>)"
    by (subst EnsureInstance_run) (use ok' eq assms in \<open>auto simp: occurrences_iff\<close>)
  then show ?thesis using run eq ok' by (auto simp: Let_def occurrences_def)
qed

theorem EnsureInstance_once_witness:
  "(1::int) \<in> bd_ID ` set (bt_bill_definitions sample_db) \<and>
   (let (r, s') = BillInstanceStore_EnsureInstance (fixed_tz 0) 1 (sample_time 1775001600) sample_db
    in r = Inr () \<and> (1, Date 2026 4 1) \<in> occurrences s')"
proof -
  have day: "time_date (fixed_tz 0) (sample_time 1775001600) = Date 2026 4 1"
    by code_simp
  have pre: "db_faults sample_db = []" "int4 (seq_instances sample_db)" "int4 (seq_instances sample_db + 1)"
    "1 \<in> bd_ID ` set (bt_bill_definitions sample_db)" "int4 1"
    by (simp_all add: sample_db_def empty_db_def int4_def)
  show ?thesis
    using EnsureInstance_once [OF sample_db_ok pre, of "fixed_tz 0" "sample_time 1775001600" "sample_time 1775001600"] pre(4)
    by (auto simp: day Let_def split: prod.splits)
qed

text \<open>
  Marking an instance paid changes that instance alone, stamps it with the
  server's time and reports success when it exists; for an id that no instance
  has it reports the id in the error and changes nothing. A recurring bill's
  other occurrences keep their own status.
\<close>

theorem MarkPaid_effect:
  assumes "db_faults s = []" "int4 rid"
  shows "BillInstanceStore_MarkPaid rid s =
    (if rid \<in> bi_ID ` set (bt_bill_instances s)
     then (Inr (), s\<lparr>bt_bill_instances := map (\<lambda>i. if bi_ID i = rid
             then i\<lparr>bi_Paid := True, bi_PaidAt := Some (db_now s)\<rparr> else i) (bt_bill_instances s)\<rparr>)
     else (Inl (Error (''bill instance '' @ Itoa rid @ '' not found'')), s))"
proof (cases "rid \<in> bi_ID ` set (bt_bill_instances s)")
  case True
  then have "filter (\<lambda>i. bi_ID i = rid) (bt_bill_instances s) \<noteq> []"
    by (auto simp: filter_empty_conv)
  with True assms show ?thesis
    by (simp add: BillInstanceStore_MarkPaid_def sql_up Let_def update_where_def)
next
  case False
  then have "filter (\<lambda>i. bi_ID i = rid) (bt_bill_instances s) = []"
    and "update_where (\<lambda>i. bi_ID i = rid) f (bt_bill_instances s) = bt_bill_instances s" for f
    by (auto simp: filter_empty_conv update_where_def intro!: map_idI)
  with False assms show ?thesis
    by (simp add: BillInstanceStore_MarkPaid_def sql_up Let_def)
qed

theorem MarkPaid_effect_witness:
  "fst (BillInstanceStore_MarkPaid 2 sample_db) = Inr () \<and>
   map bi_Paid (bt_bill_instances (snd (BillInstanceStore_MarkPaid 2 sample_db))) = [False, True, True] \<and>
   fst (BillInstanceStore_MarkPaid 9 sample_db) = Inl (Error ''bill instance 9 not found'')"
proof -
  have up: "db_faults sample_db = []" and rows: "map bi_ID (bt_bill_instances sample_db) = [1, 2, 3]"
    by (simp_all add: sample_db_def empty_db_def)
  have ids: "bi_ID ` set (bt_bill_instances sample_db) = {1, 2, 3}"
    by (simp add: sample_db_def)
  show ?thesis
    using MarkPaid_effect [OF up, of 2] MarkPaid_effect [OF up, of 9]
    by (simp add: ids int4_def) (simp add: sample_db_def Itoa_def show_nat.simps)
qed

end
