(* ===== verification/Connection_Store.thy ===== *)
theory Connection_Store
  imports Bill_Store
begin

text \<open>
  The remaining stores of \<^verbatim>\<open>internal/models\<close>: synced accounts, the single SimpleFIN
  connection, the key/value settings and the vendor connections. An upsert is
  written out as its \<^verbatim>\<open>ON CONFLICT\<close> clause has it: which columns the conflicting
  row takes from the new one and which it keeps.
\<close>

section \<open>Accounts\<close>

definition EffectiveName :: "Account \<Rightarrow> string" where
  "EffectiveName a =
     (case acc_DisplayName a of Some n \<Rightarrow> if n \<noteq> '''' then n else acc_Name a | None \<Rightarrow> acc_Name a)"

definition IsCredit :: "Account \<Rightarrow> bool" where
  "IsCredit a \<longleftrightarrow> acc_BalanceCents a < 0"

definition AccountStore_ListVisible :: "Account list dbm" where
  "AccountStore_ListVisible =
     sql (\<lambda>s. (Inr (sort_by (pg_collate s) acc_Name (filter acc_Visible (bt_accounts s))), s))"

definition AccountStore_ListAll :: "Account list dbm" where
  "AccountStore_ListAll = sql (\<lambda>s. (Inr (sort_by (pg_collate s) acc_Name (bt_accounts s)), s))"

definition account_texts :: "Account \<Rightarrow> string list" where
  "account_texts a = acc_SimpleFinID a # acc_Name a # acc_Currency a #
     (case acc_OrgName a of None \<Rightarrow> [] | Some n \<Rightarrow> [n])"

definition AccountStore_Upsert :: "Account \<Rightarrow> unit dbm" where
  "AccountStore_Upsert a =
     sql (storing (account_texts a) (\<lambda>s. let n = seq_accounts s; s' = s\<lparr>seq_accounts := n + 1\<rparr> in
       if \<not> int4 n then fail ''bt_accounts_id_seq'' s
       else if acc_SimpleFinID a \<in> acc_SimpleFinID ` set (bt_accounts s)
       then (Inr (), s'\<lparr>bt_accounts := update_where (\<lambda>r. acc_SimpleFinID r = acc_SimpleFinID a)
         (\<lambda>r. r\<lparr>acc_OrgName := acc_OrgName a, acc_Name := acc_Name a, acc_Currency := acc_Currency a,
           acc_BalanceCents := acc_BalanceCents a,
           acc_AvailableBalanceCents := acc_AvailableBalanceCents a,
           acc_BalanceDate := acc_BalanceDate a, acc_LastSyncedAt := Some (db_now s),
           acc_LastSyncError := None\<rparr>) (bt_accounts s)\<rparr>)
       else (Inr (), s'\<lparr>bt_accounts := bt_accounts s @
         [\<lparr>acc_ID = n, acc_SimpleFinID = acc_SimpleFinID a, acc_OrgName = acc_OrgName a,
           acc_Name = acc_Name a, acc_DisplayName = None, acc_Currency = acc_Currency a,
           acc_BalanceCents = acc_BalanceCents a,
           acc_AvailableBalanceCents = acc_AvailableBalanceCents a,
           acc_BalanceDate = acc_BalanceDate a, acc_Visible = True,
           acc_LastSyncedAt = Some (db_now s), acc_LastSyncError = None,
           acc_CreatedAt = db_now s\<rparr>]\<rparr>)))"

definition AccountStore_SetVisible :: "int \<Rightarrow> bool \<Rightarrow> unit dbm" where
  "AccountStore_SetVisible rid visible =
     sql (\<lambda>s. if \<not> int4 rid then fail ''id'' s
       else (Inr (), s\<lparr>bt_accounts := update_where (\<lambda>r. acc_ID r = rid)
         (\<lambda>r. r\<lparr>acc_Visible := visible\<rparr>) (bt_accounts s)\<rparr>))"

definition AccountStore_SetDisplayName :: "int \<Rightarrow> string \<Rightarrow> unit dbm" where
  "AccountStore_SetDisplayName rid displayName =
     sql (storing [displayName] (\<lambda>s. if \<not> int4 rid then fail ''id'' s
       else (Inr (), s\<lparr>bt_accounts := update_where (\<lambda>r. acc_ID r = rid)
         (\<lambda>r. r\<lparr>acc_DisplayName := (if displayName = '''' then None else Some displayName)\<rparr>)
         (bt_accounts s)\<rparr>)))"

text \<open>Deleting the accounts clears the references the definitions hold to them.\<close>

definition AccountStore_DeleteAll :: "unit dbm" where
  "AccountStore_DeleteAll =
     sql (\<lambda>s. (Inr (), s\<lparr>bt_accounts := [],
       bt_bill_definitions := update_where (\<lambda>b. bd_SimpleFinAccountID b \<noteq> None)
         (\<lambda>b. b\<lparr>bd_SimpleFinAccountID := None\<rparr>) (bt_bill_definitions s)\<rparr>))"

section \<open>The SimpleFIN connection\<close>

definition SimpleFinConnectionStore_Get :: "SimpleFinConnection dbm" where
  "SimpleFinConnectionStore_Get =
     sql (\<lambda>s. case bt_simplefin_connection s of
        [] \<Rightarrow> (Inl ErrNoSimpleFinConnection, s)
      | c # _ \<Rightarrow> (Inr c, s))"

definition SimpleFinConnectionStore_Disconnect :: "unit dbm" where
  "SimpleFinConnectionStore_Disconnect = sql (\<lambda>s. (Inr (), s\<lparr>bt_simplefin_connection := []\<rparr>))"

definition insert_connection_stmt :: "string \<Rightarrow> unit dbm" where
  "insert_connection_stmt url s =
     (let n = seq_simplefin s in
      if \<not> int4 n then fail ''bt_simplefin_connection_id_seq'' s
      else (Inr (), s\<lparr>seq_simplefin := n + 1,
         bt_simplefin_connection := bt_simplefin_connection s @
           [\<lparr>sfc_ID = n, sfc_EncryptedAccessURL = url, sfc_ConnectedAt = db_now s,
             sfc_LastSyncedAt = None, sfc_LastSyncError = None\<rparr>]\<rparr>))"

definition insert_connection :: "string \<Rightarrow> unit dbm" where
  "insert_connection url = sql (insert_connection_stmt url)"

text \<open>Open a transaction, delete, insert, commit; any failure once it is open rolls the table back
  (a sequence does not roll back).\<close>

definition SimpleFinConnectionStore_Connect :: "string \<Rightarrow> unit dbm" where
  "SimpleFinConnectionStore_Connect encryptedAccessURL =
     andThen (sql (\<lambda>s. (Inr (), s))) (\<lambda>_ s.
       case andThen (sql (\<lambda>s. (Inr (), s\<lparr>bt_simplefin_connection := []\<rparr>)))
              (\<lambda>_. andThen (insert_connection encryptedAccessURL)
                (\<lambda>_. sql (\<lambda>s. (Inr (), s)))) s of
         (Inl e, s') \<Rightarrow> (Inl e, s'\<lparr>bt_simplefin_connection := bt_simplefin_connection s\<rparr>)
       | (Inr u, s') \<Rightarrow> (Inr u, s'))"

text \<open>The text of a sync error, when there is one.\<close>

definition error_texts :: "error option \<Rightarrow> string list" where
  "error_texts syncErr = (case syncErr of None \<Rightarrow> [] | Some e \<Rightarrow> [error_text e])"

definition SimpleFinConnectionStore_MarkSynced :: "int \<Rightarrow> error option \<Rightarrow> unit dbm" where
  "SimpleFinConnectionStore_MarkSynced rid syncErr =
     sql (storing (error_texts syncErr) (\<lambda>s. if \<not> int4 rid then fail ''id'' s
       else (Inr (), s\<lparr>bt_simplefin_connection := update_where (\<lambda>r. sfc_ID r = rid)
         (\<lambda>r. r\<lparr>sfc_LastSyncedAt := Some (db_now s),
           sfc_LastSyncError := map_option error_text syncErr\<rparr>) (bt_simplefin_connection s)\<rparr>)))"

section \<open>Settings\<close>

definition SettingsStore_Get :: "string \<Rightarrow> string \<Rightarrow> string dbm" where
  "SettingsStore_Get key def =
     sql (storing [key] (\<lambda>s. case map_of (bt_settings s) key of
        None \<Rightarrow> (Inr def, s)
      | Some v \<Rightarrow> (Inr v, s)))"

definition upsert_setting :: "string \<Rightarrow> string \<Rightarrow> (string \<times> string) list \<Rightarrow> (string \<times> string) list" where
  "upsert_setting key v rows =
     (if key \<in> fst ` set rows then update_where (\<lambda>r. fst r = key) (\<lambda>r. (fst r, v)) rows
      else rows @ [(key, v)])"

definition SettingsStore_Set :: "string \<Rightarrow> string \<Rightarrow> unit dbm" where
  "SettingsStore_Set key v =
     sql (storing [key, v] (\<lambda>s. (Inr (), s\<lparr>bt_settings := upsert_setting key v (bt_settings s)\<rparr>)))"

section \<open>Vendor connections\<close>

definition scanVendorConnections :: "VendorConnection list \<Rightarrow> VendorConnection list" where
  [simp]: "scanVendorConnections rows = scan_each rows []"

definition VendorConnectionStore_ListAll :: "VendorConnection list dbm" where
  "VendorConnectionStore_ListAll =
     sql (\<lambda>s. (Inr (scanVendorConnections (sort_by (\<le>) vc_ID (bt_vendor_connections s))), s))"

definition scanVendorConnection :: "VendorConnection list \<Rightarrow> (error, VendorConnection) result" where
  "scanVendorConnection rows =
     (case rows of [] \<Rightarrow> Inl ErrVendorConnectionNotFound | v # _ \<Rightarrow> Inr v)"

definition VendorConnectionStore_GetByBillDefinitionID :: "int \<Rightarrow> VendorConnection dbm" where
  "VendorConnectionStore_GetByBillDefinitionID billDefinitionID =
     sql (\<lambda>s. if \<not> int4 billDefinitionID then fail ''bill_definition_id'' s
       else (scanVendorConnection
         (filter (\<lambda>v. vc_BillDefinitionID v = billDefinitionID) (bt_vendor_connections s)), s))"

definition VendorConnectionStore_Upsert :: "VendorConnection \<Rightarrow> int dbm" where
  "VendorConnectionStore_Upsert v =
     sql (storing [vc_Connector v, vc_Tenant v, vc_Username v] (\<lambda>s. let n = seq_vendors s; s' = s\<lparr>seq_vendors := n + 1\<rparr> in
       if \<not> int4 (vc_BillDefinitionID v) then fail ''bill_definition_id'' s
       else if \<not> int4 n then fail ''bt_vendor_connections_id_seq'' s
       else (case filter (\<lambda>r. vc_BillDefinitionID r = vc_BillDefinitionID v) (bt_vendor_connections s) of
         r # _ \<Rightarrow> (Inr (vc_ID r), s'\<lparr>bt_vendor_connections :=
           update_where (\<lambda>r. vc_BillDefinitionID r = vc_BillDefinitionID v)
             (\<lambda>r. r\<lparr>vc_Connector := vc_Connector v, vc_Tenant := vc_Tenant v,
               vc_Username := vc_Username v, vc_EncryptedPassword := vc_EncryptedPassword v,
               vc_BootstrapManaged := vc_BootstrapManaged v\<rparr>) (bt_vendor_connections s)\<rparr>)
       | [] \<Rightarrow>
           if vc_BillDefinitionID v \<notin> bd_ID ` set (bt_bill_definitions s)
           then fail ''bt_vendor_connections_bill_definition_id_fkey'' s'
           else (Inr n, s'\<lparr>bt_vendor_connections := bt_vendor_connections s @
             [\<lparr>vc_ID = n, vc_BillDefinitionID = vc_BillDefinitionID v, vc_Connector = vc_Connector v,
               vc_Tenant = vc_Tenant v, vc_Username = vc_Username v,
               vc_EncryptedPassword = vc_EncryptedPassword v, vc_LastAccountNumber = None,
               vc_LastSyncedAt = None, vc_LastSyncError = None,
               vc_BootstrapManaged = vc_BootstrapManaged v, vc_CreatedAt = db_now s\<rparr>]\<rparr>))))"

definition VendorConnectionStore_Delete :: "int \<Rightarrow> unit dbm" where
  "VendorConnectionStore_Delete rid =
     sql (\<lambda>s. if \<not> int4 rid then fail ''id'' s
       else (Inr (), s\<lparr>bt_vendor_connections :=
         delete_where (\<lambda>v. vc_ID v = rid) (bt_vendor_connections s)\<rparr>))"

definition VendorConnectionStore_MarkSynced :: "int \<Rightarrow> string \<Rightarrow> error option \<Rightarrow> unit dbm" where
  "VendorConnectionStore_MarkSynced rid accountNumber syncErr =
     sql (storing (accountNumber # error_texts syncErr) (\<lambda>s. if \<not> int4 rid then fail ''id'' s
       else (Inr (), s\<lparr>bt_vendor_connections := update_where (\<lambda>r. vc_ID r = rid)
         (\<lambda>r. r\<lparr>vc_LastSyncedAt := Some (db_now s),
           vc_LastSyncError := map_option error_text syncErr,
           vc_LastAccountNumber :=
             (if accountNumber \<noteq> '''' then Some accountNumber else vc_LastAccountNumber r)\<rparr>)
         (bt_vendor_connections s)\<rparr>)))"

section \<open>What the methods keep\<close>

lemmas connection_read_defs = AccountStore_ListVisible_def AccountStore_ListAll_def
  SimpleFinConnectionStore_Get_def SettingsStore_Get_def VendorConnectionStore_ListAll_def
  VendorConnectionStore_GetByBillDefinitionID_def

lemma preserves_connection_reads:
  assumes "fault_free P"
  shows "preserves P AccountStore_ListVisible"
    and "preserves P AccountStore_ListAll"
    and "preserves P SimpleFinConnectionStore_Get"
    and "preserves P (SettingsStore_Get key def)"
    and "preserves P VendorConnectionStore_ListAll"
    and "preserves P (VendorConnectionStore_GetByBillDefinitionID rid)"
  unfolding connection_read_defs
  by (rule preserves_read [OF assms], simp add: storing_def split: list.split option.split)+

lemma db_ok_accounts:
  assumes "db_ok s" "keys_ok acc_ID rows n" "distinct (map acc_SimpleFinID rows)"
    and "acc_ID ` set (bt_accounts s) \<subseteq> acc_ID ` set rows"
  shows "db_ok (s\<lparr>seq_accounts := n, bt_accounts := rows\<rparr>)"
  using assms by (fastforce simp: db_ok_def table_ok_defs)

lemma db_ok_accounts_update:
  assumes "db_ok s" "\<And>r. acc_ID (f r) = acc_ID r" "\<And>r. acc_SimpleFinID (f r) = acc_SimpleFinID r"
    and "n = seq_accounts s \<or> n = seq_accounts s + 1 \<and> int4 (seq_accounts s)"
  shows "db_ok (s\<lparr>seq_accounts := n, bt_accounts := update_where p f (bt_accounts s)\<rparr>)"
proof (rule db_ok_accounts)
  note ok = assms(1) [unfolded db_ok_def accounts_ok_def]
  show "keys_ok acc_ID (update_where p f (bt_accounts s)) n"
    using ok assms by (intro keys_ok_update) (auto intro: keys_ok_next)
  show "distinct (map acc_SimpleFinID (update_where p f (bt_accounts s)))"
    using ok assms by (simp add: map_update_where)
  show "acc_ID ` set (bt_accounts s) \<subseteq> acc_ID ` set (update_where p f (bt_accounts s))"
    using assms by (simp add: image_update_where)
qed (rule assms(1))

lemma Account_Upsert_ok: "preserves db_ok (AccountStore_Upsert a)"
  unfolding AccountStore_Upsert_def
proof (intro preserves_sql preserves_storing preservesI fault_free_db_ok, goal_cases)
  case (1 s)
  note s = 1(2)
  note ok = s [unfolded db_ok_def accounts_ok_def]
  have "db_ok (s\<lparr>seq_accounts := seq_accounts s + 1, bt_accounts := bt_accounts s @ [r]\<rparr>)"
    if "acc_SimpleFinID a \<notin> acc_SimpleFinID ` set (bt_accounts s)"
      "acc_ID r = seq_accounts s" "acc_SimpleFinID r = acc_SimpleFinID a" "int4 (seq_accounts s)" for r
    by (rule db_ok_accounts [OF s]) (use ok that in \<open>auto intro: keys_ok_append\<close>)
  then show ?case
    using s by (auto simp: Let_def intro: db_ok_accounts_update)
qed

lemma account_updates_ok:
  shows "preserves db_ok (AccountStore_SetVisible rid v)"
    and "preserves db_ok (AccountStore_SetDisplayName rid n)"
  unfolding AccountStore_SetVisible_def AccountStore_SetDisplayName_def
  using db_ok_accounts_update [where n = "seq_accounts s" and s = s for s]
  by (intro preserves_sql preserves_storing preservesI fault_free_db_ok; simp)+

lemma Account_DeleteAll_ok: "preserves db_ok AccountStore_DeleteAll"
  unfolding AccountStore_DeleteAll_def
proof (intro preserves_sql preserves_storing preservesI fault_free_db_ok, goal_cases)
  case s: (1 s)
  let ?rows = "update_where (\<lambda>b. bd_SimpleFinAccountID b \<noteq> None)
    (\<lambda>b. b\<lparr>bd_SimpleFinAccountID := None\<rparr>) (bt_bill_definitions s)"
  have "definition_check (b\<lparr>bd_SimpleFinAccountID := None\<rparr>) = definition_check b" for b
    by (simp add: definition_check_def schedule_shape_check_def)
  moreover have "keys_ok bd_ID ?rows (seq_definitions s)"
    using s by (intro keys_ok_update) (auto simp: db_ok_def definitions_ok_def)
  moreover have "bd_ID ` set ?rows = bd_ID ` set (bt_bill_definitions s)"
    by (simp add: image_update_where)
  moreover have "keys_ok acc_ID [] (seq_accounts s)"
    using s by (simp add: db_ok_def accounts_ok_def keys_ok_def)
  ultimately show ?case
    using s by (auto simp: db_ok_def table_ok_defs set_update_where)
qed

lemma db_ok_simplefin:
  assumes "db_ok s" "keys_ok sfc_ID rows n" "length rows \<le> 1"
  shows "db_ok (s\<lparr>seq_simplefin := n, bt_simplefin_connection := rows\<rparr>)"
  using assms by (simp add: db_ok_def table_ok_defs)

lemma keys_ok_Nil: "keys_ok key rows n \<Longrightarrow> keys_ok key [] n"
  by (simp add: keys_ok_def)

lemma simplefin_updates_ok:
  shows "preserves db_ok SimpleFinConnectionStore_Disconnect"
    and "preserves db_ok (SimpleFinConnectionStore_MarkSynced rid e)"
  unfolding SimpleFinConnectionStore_Disconnect_def SimpleFinConnectionStore_MarkSynced_def
  by (intro preserves_sql preserves_storing preservesI fault_free_db_ok,
      auto simp: db_ok_def table_ok_defs intro: keys_ok_update keys_ok_Nil)+

lemma db_ok_settings: "db_ok s \<Longrightarrow> distinct (map fst rows) \<Longrightarrow> db_ok (s\<lparr>bt_settings := rows\<rparr>)"
  by (simp add: db_ok_def table_ok_defs)

lemma Settings_Set_ok: "preserves db_ok (SettingsStore_Set key v)"
  unfolding SettingsStore_Set_def
proof (intro preserves_sql preserves_storing preservesI fault_free_db_ok, goal_cases)
  case s: (1 s)
  then have "distinct (map fst (bt_settings s))" by (simp add: db_ok_def settings_ok_def)
  then show ?case
    using s by (auto simp: upsert_setting_def map_update_where intro!: db_ok_settings)
qed

text \<open>How the transaction ends: all of it or, up to the counter, none of it.\<close>

lemma insert_connection_cases:
  obtains (failed) e fs where "insert_connection url s = (Inl e, s\<lparr>db_faults := fs\<rparr>)"
  | (inserted) fs where "int4 (seq_simplefin s)" "insert_connection url s = (Inr (), s\<lparr>db_faults := fs,
      seq_simplefin := seq_simplefin s + 1,
      bt_simplefin_connection := bt_simplefin_connection s @
        [\<lparr>sfc_ID = seq_simplefin s, sfc_EncryptedAccessURL = url, sfc_ConnectedAt = db_now s,
          sfc_LastSyncedAt = None, sfc_LastSyncError = None\<rparr>]\<rparr>)"
proof -
  show thesis
  proof (cases rule: sql_cases [of "insert_connection_stmt url" s])
    case (fault e fs)
    then show thesis by (intro failed) (simp add: insert_connection_def)
  next
    case (run fs)
    note defs = insert_connection_def insert_connection_stmt_def Let_def fail_def
    show thesis
    proof (cases "int4 (seq_simplefin s)")
      case True
      with run show thesis by (intro inserted [of fs]) (simp_all add: defs)
    next
      case False
      with run show thesis by (intro failed) (simp add: defs)
    qed
  qed
qed

lemma Connect_cases:
  obtains (failed) e fs n where "SimpleFinConnectionStore_Connect url s =
      (Inl e, s\<lparr>seq_simplefin := n, db_faults := fs\<rparr>)"
      "n = seq_simplefin s \<or> n = seq_simplefin s + 1 \<and> int4 (seq_simplefin s)"
  | (connected) fs where "int4 (seq_simplefin s)" "SimpleFinConnectionStore_Connect url s =
      (Inr (), s\<lparr>seq_simplefin := seq_simplefin s + 1,
        bt_simplefin_connection := [\<lparr>sfc_ID = seq_simplefin s, sfc_EncryptedAccessURL = url,
          sfc_ConnectedAt = db_now s, sfc_LastSyncedAt = None, sfc_LastSyncError = None\<rparr>],
        db_faults := fs\<rparr>)"
proof -
  let ?ping = "sql (\<lambda>s. (Inr (), s)) :: unit dbm"
  let ?delete = "sql (\<lambda>s. (Inr (), s\<lparr>bt_simplefin_connection := []\<rparr>)) :: unit dbm"
  note defs = SimpleFinConnectionStore_Connect_def andThen_def
  show thesis
  proof (rule sql_cases [of "\<lambda>s. (Inr (), s)" s])
    fix e fs assume "sql (\<lambda>s. (Inr (), s)) s = (Inl (Error e), s\<lparr>db_faults := fs\<rparr>)"
    then show thesis by (intro failed [where e = "Error e" and fs = fs and n = "seq_simplefin s"]) (simp_all add: defs)
  next
    fix fs assume b: "?ping s = (Inr (), s\<lparr>db_faults := fs\<rparr>)"
    let ?s1 = "s\<lparr>db_faults := fs\<rparr>"
    show thesis
    proof (rule sql_cases [of "\<lambda>s. (Inr (), s\<lparr>bt_simplefin_connection := []\<rparr>)" ?s1])
      fix e fs' assume "?delete ?s1 = (Inl (Error e), ?s1\<lparr>db_faults := fs'\<rparr>)"
      then show thesis using b
        by (intro failed [where e = "Error e" and fs = fs' and n = "seq_simplefin s"]) (simp_all add: defs)
    next
      fix fs' assume d: "?delete ?s1 = (Inr (), ?s1\<lparr>db_faults := fs', bt_simplefin_connection := []\<rparr>)"
      let ?s2 = "?s1\<lparr>db_faults := fs', bt_simplefin_connection := []\<rparr>"
      show thesis
      proof (rule insert_connection_cases [of url ?s2])
        fix e fs'' assume "insert_connection url ?s2 = (Inl e, ?s2\<lparr>db_faults := fs''\<rparr>)"
        then show thesis using b d
          by (intro failed [where e = e and fs = fs'' and n = "seq_simplefin s"]) (simp_all add: defs)
      next
        fix fs'' assume room: "int4 (seq_simplefin ?s2)"
          and i: "insert_connection url ?s2 = (Inr (), ?s2\<lparr>db_faults := fs'',
            seq_simplefin := seq_simplefin ?s2 + 1,
            bt_simplefin_connection := bt_simplefin_connection ?s2 @
             [\<lparr>sfc_ID = seq_simplefin ?s2, sfc_EncryptedAccessURL = url, sfc_ConnectedAt = db_now ?s2,
               sfc_LastSyncedAt = None, sfc_LastSyncError = None\<rparr>]\<rparr>)" (is "_ = (_, ?s3)")
        show thesis
        proof (rule sql_cases [of "\<lambda>s. (Inr (), s)" ?s3])
          fix e fs3 assume "?ping ?s3 = (Inl (Error e), ?s3\<lparr>db_faults := fs3\<rparr>)"
          then show thesis using b d i room
            by (intro failed [where e = "Error e" and fs = fs3 and n = "seq_simplefin s + 1"])
              (simp_all add: defs)
        next
          fix fs3 assume "?ping ?s3 = (Inr (), ?s3\<lparr>db_faults := fs3\<rparr>)"
          then show thesis using b d i room by (intro connected [where fs = fs3]) (simp_all add: defs)
        qed
      qed
    qed
  qed
qed

lemma Connect_ok: "preserves db_ok (SimpleFinConnectionStore_Connect url)"
proof (rule preservesI)
  fix s assume s: "db_ok s"
  note ok = s [unfolded db_ok_def simplefin_ok_def]
  have free: "db_ok (s\<lparr>db_faults := fs\<rparr>)" for fs
    using fault_free_db_ok s by (simp add: fault_free_def)
  show "db_ok (snd (SimpleFinConnectionStore_Connect url s))"
  proof (rule Connect_cases [of url s])
    fix e fs n assume "SimpleFinConnectionStore_Connect url s =
      (Inl e, s\<lparr>seq_simplefin := n, db_faults := fs\<rparr>)"
      "n = seq_simplefin s \<or> n = seq_simplefin s + 1 \<and> int4 (seq_simplefin s)"
    then show ?thesis
      using free [of fs] by (auto simp: db_ok_def table_ok_defs intro: keys_ok_next)
  next
    fix fs assume "int4 (seq_simplefin s)" "SimpleFinConnectionStore_Connect url s =
      (Inr (), s\<lparr>seq_simplefin := seq_simplefin s + 1,
        bt_simplefin_connection := [\<lparr>sfc_ID = seq_simplefin s, sfc_EncryptedAccessURL = url,
          sfc_ConnectedAt = db_now s, sfc_LastSyncedAt = None, sfc_LastSyncError = None\<rparr>],
        db_faults := fs\<rparr>)"
    then show ?thesis
      using db_ok_simplefin [OF s] ok fault_free_db_ok by (simp add: keys_ok_def fault_free_def int4_def)
  qed
qed

lemma db_ok_vendors:
  assumes "db_ok s" "keys_ok vc_ID rows n" "distinct (map vc_BillDefinitionID rows)"
    and "vc_BillDefinitionID ` set rows \<subseteq> bd_ID ` set (bt_bill_definitions s)"
  shows "db_ok (s\<lparr>seq_vendors := n, bt_vendor_connections := rows\<rparr>)"
  using assms by (auto simp: db_ok_def table_ok_defs)

lemma db_ok_vendors_update:
  assumes "db_ok s" "\<And>r. vc_ID (f r) = vc_ID r" "\<And>r. vc_BillDefinitionID (f r) = vc_BillDefinitionID r"
    and "n = seq_vendors s \<or> n = seq_vendors s + 1 \<and> int4 (seq_vendors s)"
  shows "db_ok (s\<lparr>seq_vendors := n, bt_vendor_connections := update_where p f (bt_vendor_connections s)\<rparr>)"
proof (rule db_ok_vendors)
  note ok = assms(1) [unfolded db_ok_def vendors_ok_def]
  show "keys_ok vc_ID (update_where p f (bt_vendor_connections s)) n"
    using ok assms by (intro keys_ok_update) (auto intro: keys_ok_next)
  show "distinct (map vc_BillDefinitionID (update_where p f (bt_vendor_connections s)))"
    using ok assms by (simp add: map_update_where)
  show "vc_BillDefinitionID ` set (update_where p f (bt_vendor_connections s))
      \<subseteq> bd_ID ` set (bt_bill_definitions s)"
    using ok assms by (auto simp: image_update_where)
qed (rule assms(1))

lemma Vendor_Upsert_ok: "preserves db_ok (VendorConnectionStore_Upsert v)"
  unfolding VendorConnectionStore_Upsert_def
proof (intro preserves_sql preserves_storing preservesI fault_free_db_ok, goal_cases)
  case (1 s)
  note s = 1(2)
  note ok = s [unfolded db_ok_def vendors_ok_def]
  let ?same = "filter (\<lambda>r. vc_BillDefinitionID r = vc_BillDefinitionID v) (bt_vendor_connections s)"
  have "db_ok (s\<lparr>seq_vendors := seq_vendors s + 1,
      bt_vendor_connections := bt_vendor_connections s @ [r]\<rparr>)"
    if "?same = []" "vc_ID r = seq_vendors s" "vc_BillDefinitionID r = vc_BillDefinitionID v"
      "vc_BillDefinitionID v \<in> bd_ID ` set (bt_bill_definitions s)" "int4 (seq_vendors s)" for r
    by (rule db_ok_vendors [OF s])
      (use ok that in \<open>auto simp: filter_empty_conv intro: keys_ok_append\<close>)
  moreover have "db_ok (s\<lparr>seq_vendors := seq_vendors s + 1\<rparr>)" if "int4 (seq_vendors s)"
    using s that by (simp add: db_ok_def table_ok_defs keys_ok_next)
  ultimately show ?case
    using s by (auto simp: Let_def split: list.split intro: db_ok_vendors_update)
qed

lemma Vendor_Delete_ok: "preserves db_ok (VendorConnectionStore_Delete rid)"
  unfolding VendorConnectionStore_Delete_def
  by (intro preserves_sql preserves_storing preservesI fault_free_db_ok)
    (auto simp: db_ok_def table_ok_defs keys_ok_delete distinct_map_delete)

lemma Vendor_MarkSynced_ok: "preserves db_ok (VendorConnectionStore_MarkSynced rid a e)"
  unfolding VendorConnectionStore_MarkSynced_def
  using db_ok_vendors_update [where n = "seq_vendors s" and s = s for s]
  by (intro preserves_sql preserves_storing preservesI fault_free_db_ok) simp

lemmas connection_store_ok = preserves_connection_reads [OF fault_free_db_ok] Account_Upsert_ok
  account_updates_ok Account_DeleteAll_ok simplefin_updates_ok Connect_ok Settings_Set_ok
  Vendor_Upsert_ok Vendor_Delete_ok Vendor_MarkSynced_ok

section \<open>The settings as a key/value interface\<close>

text \<open>
  What a client of the settings may rely on: a successful write is what the next
  read of the same key answers, other keys keep their answer, and a failed
  write changes no answer. The answer of a read is the stored value \<open>val\<close>. Reads and
  writes of storable texts succeed while no statement fails.
\<close>

locale key_value =
  fixes getv :: "string \<Rightarrow> string \<Rightarrow> string dbm" and setv :: "string \<Rightarrow> string \<Rightarrow> unit dbm"
    and val :: "db \<Rightarrow> string \<Rightarrow> string option"
  assumes get_val: "fst (getv k d s) = Inr v \<Longrightarrow> v = (case val s k of None \<Rightarrow> d | Some x \<Rightarrow> x)"
    and get_keeps: "val (snd (getv k d s)) = val s"
    and get_up: "db_faults s = [] \<Longrightarrow> text_ok k \<Longrightarrow>
      getv k d s = (Inr (case val s k of None \<Rightarrow> d | Some x \<Rightarrow> x), s)"
    and set_ok: "fst (setv k x s) = Inr u \<Longrightarrow> val (snd (setv k x s)) = (val s)(k \<mapsto> x)"
    and set_failed: "fst (setv k x s) = Inl e \<Longrightarrow> val (snd (setv k x s)) = val s"
    and set_up: "db_faults s = [] \<Longrightarrow> text_ok k \<Longrightarrow> text_ok x \<Longrightarrow> fst (setv k x s) = Inr () \<and> db_faults (snd (setv k x s)) = []"
begin

lemma get_set_same:
  "db_faults s = [] \<Longrightarrow> text_ok k \<Longrightarrow> text_ok x \<Longrightarrow> fst (getv k d (snd (setv k x s))) = Inr x"
  using set_up [of s k x] set_ok [of k x s "()"] get_up [of "snd (setv k x s)" k d] by simp

lemma get_set_other:
  "db_faults s = [] \<Longrightarrow> text_ok j \<Longrightarrow> text_ok k \<Longrightarrow> text_ok x \<Longrightarrow> j \<noteq> k \<Longrightarrow> fst (getv j d (snd (setv k x s))) = fst (getv j d s)"
  using set_up [of s k x] set_ok [of k x s "()"] get_up [of "snd (setv k x s)" j d] get_up [of s j d]
  by simp

end

lemma map_of_update_where:
  "map_of (update_where (\<lambda>r. fst r = k) (\<lambda>r. (fst r, x)) rows) j =
     (if j = k \<and> k \<in> fst ` set rows then Some x else map_of rows j)"
  by (induction rows) (auto simp: update_where_def rev_image_eqI)

lemma map_of_upsert: "map_of (upsert_setting k x rows) = (map_of rows)(k \<mapsto> x)"
proof (cases "k \<in> fst ` set rows")
  case True
  then show ?thesis by (auto simp: upsert_setting_def map_of_update_where fun_eq_iff)
next
  case False
  then have "map_of rows k = None" by (simp add: map_of_eq_None_iff)
  with False show ?thesis
    by (auto simp: upsert_setting_def fun_eq_iff map_add_def split: option.split)
qed

interpretation settings: key_value SettingsStore_Get SettingsStore_Set "\<lambda>s. map_of (bt_settings s)"
proof (unfold_locales, goal_cases)
  case (1 k d s v)
  then show ?case
    by (auto simp: SettingsStore_Get_def sql_def storing_def fail_def
        split: option.splits list.splits if_splits)
next
  case (2 k d s)
  then show ?case
    by (auto simp: SettingsStore_Get_def sql_def storing_def fail_def
        split: option.splits list.splits if_splits)
qed (auto simp: SettingsStore_Get_def SettingsStore_Set_def sql_def map_of_upsert storing_def fail_def
      split: list.splits option.splits if_splits)

section \<open>Properties of the connection stores\<close>

text \<open>
  C18. Replacing the SimpleFIN connection is all or nothing: when it succeeds the
  table holds the new connection alone, when any of its statements fails the
  connection that was there is still there, untouched.
\<close>

theorem Connect_atomic:
  "case SimpleFinConnectionStore_Connect url s of
     (Inr _, s') \<Rightarrow> (\<exists>c. bt_simplefin_connection s' = [c] \<and> sfc_EncryptedAccessURL c = url \<and>
        sfc_LastSyncedAt c = None \<and> sfc_ConnectedAt c = db_now s)
   | (Inl _, s') \<Rightarrow> bt_simplefin_connection s' = bt_simplefin_connection s"
  by (rule Connect_cases [of url s]) auto


definition sample_account :: Account where
  "sample_account = \<lparr>acc_ID = 1, acc_SimpleFinID = ''ACT-1'', acc_OrgName = None,
     acc_Name = ''CHECKING 0042'', acc_DisplayName = Some ''Household'', acc_Currency = ''USD'',
     acc_BalanceCents = 50000, acc_AvailableBalanceCents = None, acc_BalanceDate = None,
     acc_Visible = False, acc_LastSyncedAt = None, acc_LastSyncError = None,
     acc_CreatedAt = sample_time 0\<rparr>"


end
