(* ===== verification/Crypto.thy ===== *)
theory Crypto
  imports Go_Strings BT_Prelude "HOL-Library.Word"
begin

unbundle bit_operations_syntax

text \<open>
  \<^verbatim>\<open>internal/util/crypto.go\<close>: the encryptor that protects the SimpleFIN access URL,
  the vendor passwords and the plugin's token at rest, and the constant-time
  comparison the handlers use. The AES-256-GCM cipher is a parameter: a function
  from a key to an \<open>AEAD\<close>, whose documented contract (a nonce of 12 bytes, and opening
  what was sealed with the same nonce gives the plaintext back) is the hypothesis \<open>aead_correct\<close>.
  Randomness is an argument, with the error a failing source reports.
\<close>

section \<open>The encryptor\<close>

record AEAD =
  NonceSize :: nat
  Seal :: "string \<Rightarrow> string \<Rightarrow> string"
  Open :: "string \<Rightarrow> string \<Rightarrow> (string, string) result"

definition aead_correct :: "AEAD \<Rightarrow> bool" where
  "aead_correct g \<longleftrightarrow> NonceSize g = 12 \<and>
     (\<forall>nonce p.
        length nonce = NonceSize g \<longrightarrow> Open g nonce (Seal g nonce p) = Inr p)"

text \<open>The wrapped text of the hex decoder is not part of the error here.\<close>

definition NewEncryptor :: "(string \<Rightarrow> AEAD) \<Rightarrow> string \<Rightarrow> (string, AEAD) result" where
  "NewEncryptor new_gcm hexKey =
     (case hex_DecodeString hexKey of
        None \<Rightarrow> Inl ''ENCRYPTION_KEY must be hex-encoded''
      | Some key \<Rightarrow>
          if length key \<noteq> 32
          then Inl ''ENCRYPTION_KEY must decode to exactly 32 bytes (64 hex chars)''
          else Inr (new_gcm key))"

type_synonym randomness = "nat \<Rightarrow> (string, string) result"

definition Encrypt :: "AEAD \<Rightarrow> randomness \<Rightarrow> string \<Rightarrow> (string, string) result" where
  "Encrypt g rand plaintext =
     (case rand (NonceSize g) of
        Inl e \<Rightarrow> Inl (''generating nonce: '' @ e)
      | Inr nonce \<Rightarrow> Inr (nonce @ Seal g nonce plaintext))"

definition Decrypt :: "AEAD \<Rightarrow> string \<Rightarrow> (string, string) result" where
  "Decrypt g data =
     (if length data < NonceSize g then Inl ''ciphertext too short''
      else case Open g (take (NonceSize g) data) (drop (NonceSize g) data) of
        Inl e \<Rightarrow> Inl (''decrypting: '' @ e)
      | Inr plaintext \<Rightarrow> Inr plaintext)"

text \<open>A source that fills the buffer it is given.\<close>

definition rand_fills :: "randomness \<Rightarrow> bool" where
  "rand_fills rand \<longleftrightarrow> (\<forall>n bs. rand n = Inr bs \<longrightarrow> length bs = n)"

lemma Decrypt_Encrypt:
  assumes "aead_correct g" "rand_fills rand" "Encrypt g rand p = Inr c"
  shows "Decrypt g c = Inr p"
proof -
  obtain nonce where n: "rand (NonceSize g) = Inr nonce" "c = nonce @ Seal g nonce p"
    using assms(3) by (auto simp: Encrypt_def split: sum.splits)
  then have "length nonce = NonceSize g" using assms(2) by (auto simp: rand_fills_def)
  then show ?thesis using n assms(1) by (simp add: Decrypt_def aead_correct_def)
qed

section \<open>Constant-time comparison\<close>

definition ConstantTimeCompare :: "string \<Rightarrow> string \<Rightarrow> int" where
  "ConstantTimeCompare x y =
     (if length x \<noteq> length y then 0
      else if fold (\<lambda>(a, b) v. v OR (of_char a XOR of_char b)) (zip x y) (0 :: 8 word) = 0
      then 1 else 0)"

lemma of_char_eq_byte: "(of_char a :: 8 word) = of_char b \<longleftrightarrow> a = b"
proof
  assume "(of_char a :: 8 word) = of_char b"
  then have "unat (of_char a :: 8 word) = unat (of_char b :: 8 word)" by simp
  moreover have "unat (of_char c :: 8 word) = of_char c" for c
  proof -
    have "(of_char c :: 8 word) = of_nat (of_char c)" by (simp only: of_nat_of_char)
    moreover have "(of_char c :: nat) < 256" by simp
    ultimately show ?thesis by (simp add: unat_of_nat)
  qed
  ultimately show "a = b" by simp
qed simp

lemma byte_xor_zero: "(a XOR b :: 8 word) = 0 \<longleftrightarrow> a = b"
proof
  assume "a XOR b = 0"
  then have "(a XOR b) XOR b = 0 XOR b" by simp
  then show "a = b" by (simp only: xor.assoc xor_self_eq xor.right_neutral xor.left_neutral)
qed simp

lemma fold_or_zero:
  "fold (\<lambda>(a, b) v. v OR (of_char a XOR of_char b)) ps (w :: 8 word) = 0 \<longleftrightarrow>
     w = 0 \<and> (\<forall>(a, b) \<in> set ps. a = b)"
proof (induction ps arbitrary: w)
  case (Cons p ps)
  then show ?case
    by (cases p) (auto simp: or_eq_0_iff byte_xor_zero of_char_eq_byte)
qed simp

lemma ConstantTimeCompare_eq: "ConstantTimeCompare x y = 1 \<longleftrightarrow> x = y"
proof -
  have "(\<forall>(a, b) \<in> set (zip x y). a = b) \<longleftrightarrow> x = y" if "length x = length y"
    using that by (induction rule: list_induct2) auto
  then show ?thesis by (auto simp: ConstantTimeCompare_def fold_or_zero)
qed

end
