(* ===== verification/Http.thy ===== *)
theory Http
  imports Database Json Go_Dates
begin

text \<open>
  HTTP as the handlers see it. A request is what they read of it: method, path,
  headers, form values, query parameters, the path's wildcard, the outcome of
  parsing the form and the JSON value of the body. A response is its status, headers and body.
  Below that, how \<^verbatim>\<open>encoding/json\<close> writes the values the handlers send and how a page is
  produced from a template, which is an argument.
\<close>

section \<open>Requests and responses\<close>

record request =
  req_Method :: string
  req_Path :: string
  req_Header :: "string \<Rightarrow> string"
  req_FormValue :: "string \<Rightarrow> string"
  req_Query :: "string \<Rightarrow> string"
  req_PathValue :: "string \<Rightarrow> string"
  req_ParseForm :: "string option"
  req_Json :: "(string, json) result"

record response =
  resp_Status :: int
  resp_Header :: "(string \<times> string) list"
  resp_Body :: string

type_synonym handler = "request \<Rightarrow> db \<Rightarrow> response \<times> db"

definition newline :: string where "newline = [CHR 0x0A]"

definition http_Error :: "string \<Rightarrow> int \<Rightarrow> response" where
  "http_Error msg code =
     \<lparr>resp_Status = code,
      resp_Header = [(''Content-Type'', ''text/plain; charset=utf-8''),
        (''X-Content-Type-Options'', ''nosniff'')],
      resp_Body = msg @ newline\<rparr>"

definition http_NotFound :: response where
  "http_NotFound = http_Error ''404 page not found'' 404"

definition http_OK :: response where
  "http_OK = \<lparr>resp_Status = 200, resp_Header = [], resp_Body = ''''\<rparr>"

section \<open>Writing JSON\<close>

text \<open>
  The encoder escapes quotes, backslashes, control characters, the characters
  \<^verbatim>\<open><\<close>, \<^verbatim>\<open>>\<close>, \<^verbatim>\<open>&\<close> and the two Unicode line separators; other bytes are
  copied (texts are taken to be valid UTF-8).
\<close>

definition json_escape :: "nat \<Rightarrow> string" where
  "json_escape n = [CHR 0x5C, CHR ''u'', CHR ''0'', CHR ''0'', hex_char (n div 16), hex_char (n mod 16)]"

fun json_chars :: "string \<Rightarrow> string" where
  "json_chars [] = []"
| "json_chars (c # cs) =
     (let n = of_char c :: nat in
      if n = 34 \<or> n = 92 then CHR 0x5C # c # json_chars cs
      else if n = 8 then CHR 0x5C # CHR ''b'' # json_chars cs
      else if n = 9 then CHR 0x5C # CHR ''t'' # json_chars cs
      else if n = 10 then CHR 0x5C # CHR ''n'' # json_chars cs
      else if n = 12 then CHR 0x5C # CHR ''f'' # json_chars cs
      else if n = 13 then CHR 0x5C # CHR ''r'' # json_chars cs
      else if n < 32 \<or> n = 38 \<or> n = 60 \<or> n = 62 then json_escape n @ json_chars cs
      else if n = 226 \<and> take 2 cs = [CHR 0x80, CHR 0xA8] then CHR 0x5C # ''u2028'' @ json_chars (drop 2 cs)
      else if n = 226 \<and> take 2 cs = [CHR 0x80, CHR 0xA9] then CHR 0x5C # ''u2029'' @ json_chars (drop 2 cs)
      else c # json_chars cs)"

definition json_quote :: "string \<Rightarrow> string" where
  "json_quote s = [CHR 0x22] @ json_chars s @ [CHR 0x22]"

text \<open>An object from its fields' texts, an array from its elements' texts.\<close>

definition json_object :: "(string \<times> string) list \<Rightarrow> string" where
  "json_object kvs = ''{'' @ Join (map (\<lambda>(k, v). json_quote k @ '':'' @ v) kvs) '','' @ ''}''"

definition json_array :: "string list \<Rightarrow> string" where
  "json_array xs = ''['' @ Join xs '','' @ '']''"

definition json_bool :: "bool \<Rightarrow> string" where
  "json_bool b = (if b then ''true'' else ''false'')"

definition json_reply :: "string \<Rightarrow> response" where
  "json_reply body = \<lparr>resp_Status = 200, resp_Header = [(''Content-Type'', ''application/json'')],
     resp_Body = body @ newline\<rparr>"

text \<open>
  \<^verbatim>\<open>Time.MarshalJSON\<close> (RFC 3339 with nanoseconds): none for a year outside 0 to 9999
  or an offset of a day or more, which the encoder reports as an error.
\<close>

fun strip_zeros :: "string \<Rightarrow> string" where
  "strip_zeros s = rev (dropWhile (\<lambda>c. c = CHR ''0'') (rev s))"

definition nanos_text :: "nat \<Rightarrow> string" where
  "nanos_text n =
     (if n = 0 then '''' else ''.'' @ strip_zeros (drop 1 (show_nat (1000000000 + n))))"

definition zone_text :: "int \<Rightarrow> string" where
  "zone_text off =
     (let z = nat (\<bar>off\<bar> div 60) in
      if off = 0 then ''Z''
      else (if off < 0 then ''-'' else ''+'') @ two_digits (z div 60) @ '':'' @ two_digits (z mod 60))"

definition time_json :: "tz \<Rightarrow> time \<Rightarrow> string option" where
  "time_json tz t =
     (let c = nat (local_sec tz t mod 86400); off = zone_offset (lookup tz (time_loc t) (time_sec t)) in
      if Year tz t < 0 \<or> 9999 < Year tz t \<or> 86400 \<le> \<bar>off\<bar> then None
      else Some ([CHR 0x22] @ Format tz t layout_iso @ ''T'' @ two_digits (c div 3600) @ '':'' @
        two_digits (c mod 3600 div 60) @ '':'' @ two_digits (c mod 60) @ nanos_text (time_nsec t) @
        zone_text off @ [CHR 0x22]))"

section \<open>Pages\<close>

text \<open>
  A template yields the bytes it wrote and, when it failed, the error. The status is
  sent with the first byte: only a failure before that changes it.
\<close>

type_synonym 'a template = "'a \<Rightarrow> string \<times> string option"

definition execute_template :: "'a template \<Rightarrow> 'a \<Rightarrow> response" where
  "execute_template tmpl data =
     (let html = [(''Content-Type'', ''text/html; charset=utf-8'')] in
      case tmpl data of
        (out, None) \<Rightarrow> \<lparr>resp_Status = 200, resp_Header = html, resp_Body = out\<rparr>
      | (out, Some e) \<Rightarrow>
          if out = '''' then http_Error e 500
          else \<lparr>resp_Status = 200, resp_Header = html, resp_Body = out @ e @ newline\<rparr>)"

end
