(* ===== verification/Auth.thy ===== *)
theory Auth
  imports Connection_Store Crypto Http
begin

text \<open>
  \<^verbatim>\<open>internal/handlers/register.go\<close> and \<^verbatim>\<open>auth_middleware.go\<close>: how the host obtains a
  token and how every other route asks for it.
\<close>

section \<open>Registration\<close>

definition pluginTokenSettingsKey :: string where
  "pluginTokenSettingsKey = ''plugin_token''"

definition connectionSecretHeader :: string where
  "connectionSecretHeader = ''X-Plugin-Connection-Secret''"

definition registerResponse_json :: "string \<Rightarrow> string" where
  [simp]: "registerResponse_json token = ''{\"token\":\"'' @ token @ ''\"}''"

text \<open>\<open>raw\<close> is what \<^verbatim>\<open>rand.Read\<close> puts into the 32-byte buffer of the token.\<close>

definition Register :: "AEAD \<Rightarrow> string \<Rightarrow> randomness \<Rightarrow> string \<Rightarrow> handler" where
  "Register enc secret rand raw r s =
     (let got = req_Header r connectionSecretHeader in
      if ConstantTimeCompare got secret \<noteq> 1 then (http_Error ''unauthorized'' 401, s)
      else let token = hex_EncodeToString raw in
        case Encrypt enc rand token of
          Inl e \<Rightarrow> (http_Error e 500, s)
        | Inr ciphertext \<Rightarrow>
            (case SettingsStore_Set pluginTokenSettingsKey (hex_EncodeToString ciphertext) s of
               (Inl e, s') \<Rightarrow> (http_Error (error_text e) 500, s')
             | (Inr _, s') \<Rightarrow>
                 (\<lparr>resp_Status = 200, resp_Header = [(''Content-Type'', ''application/json'')],
                   resp_Body = registerResponse_json token @ newline\<rparr>, s')))"

section \<open>The bearer token\<close>

definition currentToken :: "AEAD \<Rightarrow> db \<Rightarrow> string option \<times> db" where
  "currentToken enc s =
     (case SettingsStore_Get pluginTokenSettingsKey '''' s of
        (Inl e, s') \<Rightarrow> (None, s')
      | (Inr stored, s') \<Rightarrow>
          if stored = '''' then (None, s')
          else case hex_DecodeString stored of
            None \<Rightarrow> (None, s')
          | Some ciphertext \<Rightarrow>
              (case Decrypt enc ciphertext of
                 Inl e \<Rightarrow> (None, s')
               | Inr plaintext \<Rightarrow> (Some plaintext, s')))"

definition RequireBearerToken :: "AEAD \<Rightarrow> handler \<Rightarrow> handler" where
  "RequireBearerToken enc h r s =
     (case currentToken enc s of
        (None, s') \<Rightarrow> (http_Error ''forbidden'' 403, s')
      | (Some token, s') \<Rightarrow>
          let (got, found) = CutPrefix (req_Header r ''Authorization'') ''Bearer ''
          in if \<not> found \<or> ConstantTimeCompare got token \<noteq> 1
             then (http_Error ''forbidden'' 403, s')
             else h r s')"

section \<open>What the handlers keep\<close>

lemma currentToken_keeps:
  assumes "fault_free P" "P s" shows "P (snd (currentToken enc s))"
  using preservesD [OF preserves_connection_reads(4) [OF assms(1)] assms(2),
      of pluginTokenSettingsKey "''''"]
  by (auto simp: currentToken_def split: prod.splits sum.splits option.splits)

text \<open>A guarded handler keeps what the handler itself keeps.\<close>

lemma preserves_guarded:
  assumes "fault_free P" "\<And>r s. P s \<Longrightarrow> P (snd (h r s))" "P s"
  shows "P (snd (RequireBearerToken enc h r s))"
  using currentToken_keeps [OF assms(1,3), of enc] assms(2)
  by (auto simp: RequireBearerToken_def Let_def split: prod.splits option.splits)

lemma Register_keeps:
  assumes "\<And>v. preserves P (SettingsStore_Set pluginTokenSettingsKey v)" "P s"
  shows "P (snd (Register enc secret rand raw r s))"
  using preservesD [OF assms] assms(2)
  by (auto simp: Register_def Let_def split: prod.splits sum.splits)
    (metis snd_conv)+

section \<open>Properties of authentication\<close>

text \<open>The setting's key and the hex text of a token are storable.\<close>

lemma text_ok_token_key [simp]: "text_ok pluginTokenSettingsKey"
  by (simp add: pluginTokenSettingsKey_def)

lemma text_ok_hex [simp]: "text_ok (hex_EncodeToString bs)"
proof (rule text_ok_ascii)
  have "ascii_char (hex_char n)" if "n < 16" for n
    using that by (simp add: ascii_char_def hex_char_def)
  moreover have "(of_char c :: nat) div 16 < 16" for c :: char
    by (simp add: less_mult_imp_div_less)
  ultimately show "list_all ascii_char (hex_EncodeToString bs)"
    by (simp add: hex_EncodeToString_def list_all_iff)
qed

lemma currentToken_stored:
  assumes "db_faults s = []" "map_of (bt_settings s) pluginTokenSettingsKey = Some (hex_EncodeToString c)"
    and "c \<noteq> []" "Decrypt enc c = Inr token"
  shows "currentToken enc s = (Some token, s)"
  using assms settings.get_up [OF assms(1), of pluginTokenSettingsKey "''''"]
  by (simp add: currentToken_def hex_round_trip)

lemma RequireBearerToken_stored:
  assumes "currentToken enc s = (Some token, s)"
  shows "RequireBearerToken enc h r s =
    (if req_Header r ''Authorization'' = ''Bearer '' @ token then h r s
     else (http_Error ''forbidden'' 403, s))"
proof (cases "CutPrefix (req_Header r ''Authorization'') ''Bearer ''")
  case (Pair got found)
  have "found \<and> got = token \<longleftrightarrow> req_Header r ''Authorization'' = ''Bearer '' @ token"
    using Pair CutPrefix_True [of "req_Header r ''Authorization''" "''Bearer ''" got]
      CutPrefix_append [of "''Bearer ''" token] by auto
  then show ?thesis
    using assms Pair by (auto simp: RequireBearerToken_def ConstantTimeCompare_eq)
qed

text \<open>
  C11. A call that presents the connection secret gets a token, and from then on a
  guarded route runs its handler exactly for requests that present that token as
  their bearer token, and answers 403 with the state unchanged to all others,
  those with an earlier token among them.
\<close>

theorem Register_issues_token:
  assumes "aead_correct enc" "rand_fills rand" "rand 12 = Inr nonce"
    and "db_faults s = []" "req_Header r connectionSecretHeader = secret"
  shows "let (resp, s') = Register enc secret rand raw r s; token = hex_EncodeToString raw in
    resp_Status resp = 200 \<and> resp_Body resp = ''{\"token\":\"'' @ token @ ''\"}'' @ newline \<and>
    (\<forall>h q. RequireBearerToken enc h q s' =
      (if req_Header q ''Authorization'' = ''Bearer '' @ token then h q s'
       else (http_Error ''forbidden'' 403, s')))"
proof -
  let ?token = "hex_EncodeToString raw"
  have "length nonce = 12" using assms(2,3) by (simp add: rand_fills_def)
  then have "nonce \<noteq> []" by auto
  then obtain c where c: "Encrypt enc rand ?token = Inr c" "c \<noteq> []"
    using assms(1,3) by (auto simp: Encrypt_def aead_correct_def)
  let ?set = "SettingsStore_Set pluginTokenSettingsKey (hex_EncodeToString c) s"
  obtain s' where set: "?set = (Inr (), s')" "db_faults s' = []"
    using settings.set_up [OF assms(4), of pluginTokenSettingsKey "hex_EncodeToString c"]
    by (cases ?set) auto
  have "map_of (bt_settings s') pluginTokenSettingsKey = Some (hex_EncodeToString c)"
    using settings.set_ok [of pluginTokenSettingsKey "hex_EncodeToString c" s "()"] set(1) by simp
  then have "currentToken enc s' = (Some ?token, s')"
    by (rule currentToken_stored [OF set(2)]) (use c Decrypt_Encrypt [OF assms(1,2)] in auto)
  then show ?thesis
    using assms(5) c(1) set(1)
    by (simp add: Register_def Let_def ConstantTimeCompare_eq RequireBearerToken_stored)
qed

text \<open>An authenticated cipher to run the examples with: it appends the nonce as its tag.\<close>

definition sample_aead :: AEAD where
  "sample_aead = \<lparr>NonceSize = 12, Seal = (\<lambda>nonce p. p @ nonce),
     Open = (\<lambda>nonce c. if drop (length c - 12) c = nonce then Inr (take (length c - 12) c)
       else Inl ''cipher: message authentication failed'')\<rparr>"

lemma sample_aead_correct: "aead_correct sample_aead"
  by (simp add: aead_correct_def sample_aead_def)

definition sample_rand :: randomness where
  "sample_rand n = Inr (replicate n (CHR ''k''))"

lemma sample_rand_fills: "rand_fills sample_rand"
  by (simp add: rand_fills_def sample_rand_def)

definition sample_request :: "string \<Rightarrow> string \<Rightarrow> request" where
  "sample_request header v = \<lparr>req_Method = ''GET'', req_Path = ''/manifest'',
     req_Header = (\<lambda>h. if h = header then v else ''''), req_FormValue = (\<lambda>_. ''''),
     req_Query = (\<lambda>_. ''''), req_PathValue = (\<lambda>_. ''''), req_ParseForm = None,
     req_Json = Inl ''EOF''\<rparr>"

theorem Register_issues_token_witness:
  "let (resp, s') = Register sample_aead ''s3cret'' sample_rand ''AB''
         (sample_request connectionSecretHeader ''s3cret'') sample_db in
   resp_Body resp = ''{\"token\":\"4142\"}'' @ newline \<and>
   RequireBearerToken sample_aead (\<lambda>q s. (http_Error ''reached'' 200, s))
     (sample_request ''Authorization'' ''Bearer 4142'') s' = (http_Error ''reached'' 200, s') \<and>
   RequireBearerToken sample_aead (\<lambda>q s. (http_Error ''reached'' 200, s))
     (sample_request ''Authorization'' ''Bearer 4143'') s' = (http_Error ''forbidden'' 403, s')"
proof -
  have pre: "sample_rand 12 = Inr (replicate 12 (CHR ''k''))" "db_faults sample_db = []"
      "req_Header (sample_request connectionSecretHeader ''s3cret'') connectionSecretHeader = ''s3cret''"
    by (simp_all add: sample_rand_def sample_db_def empty_db_def sample_request_def)
  have token: "hex_EncodeToString ''AB'' = ''4142''" by code_simp
  show ?thesis
    using Register_issues_token [OF sample_aead_correct sample_rand_fills pre(1-3), of "''AB''"]
    by (auto simp: token Let_def sample_request_def split: prod.splits)
qed

text \<open>
  C12. Registration ends in one of three ways: 401 exactly when the presented secret
  is not the configured one, with the whole state as it was; 500 when encrypting
  or storing fails, with every stored setting as it was, so an earlier token
  stays valid; or 200 with the token setting replaced and every other setting kept.
\<close>

theorem Register_outcomes:
  "let (resp, s') = Register enc secret rand raw r s in
     (resp_Status resp = 401 \<longleftrightarrow> req_Header r connectionSecretHeader \<noteq> secret) \<and>
     (resp_Status resp = 401 \<longrightarrow> s' = s) \<and>
     (resp_Status resp = 500 \<longrightarrow> map_of (bt_settings s') = map_of (bt_settings s)) \<and>
     (resp_Status resp = 200 \<longrightarrow> (\<exists>c. Encrypt enc rand (hex_EncodeToString raw) = Inr c \<and>
        map_of (bt_settings s') =
          (map_of (bt_settings s))(pluginTokenSettingsKey \<mapsto> hex_EncodeToString c))) \<and>
     resp_Status resp \<in> {200, 401, 500}"
proof (cases "Encrypt enc rand (hex_EncodeToString raw)")
  case (Inl e)
  then show ?thesis
    by (auto simp: Register_def http_Error_def ConstantTimeCompare_eq Let_def)
next
  case (Inr c)
  show ?thesis
  proof (cases "SettingsStore_Set pluginTokenSettingsKey (hex_EncodeToString c) s")
    case (Pair res s')
    then show ?thesis
      using Inr settings.set_ok [of pluginTokenSettingsKey "hex_EncodeToString c" s]
        settings.set_failed [of pluginTokenSettingsKey "hex_EncodeToString c" s]
      by (cases res) (auto simp: Register_def http_Error_def ConstantTimeCompare_eq Let_def)
  qed
qed

theorem Register_outcomes_witness:
  "resp_Status (fst (Register sample_aead ''s3cret'' sample_rand ''AB''
     (sample_request connectionSecretHeader ''wrong'') sample_db)) = 401"
  using Register_outcomes [of sample_aead "''s3cret''" sample_rand "''AB''"
      "sample_request connectionSecretHeader ''wrong''" sample_db]
  by (auto simp: sample_request_def split: prod.splits)

end
