(* ===== verification/Scheduler.thy ===== *)
theory Scheduler
  imports SimpleFin_Client Auth
begin

text \<open>
  The background jobs of \<^verbatim>\<open>internal/scheduler/scheduler.go\<close>, each as the change one run
  of it makes to the tables. Goroutines and tickers are left to the step relation
  of the system; the log is not modelled. A job runs in an environment: the local
  zone, the process's clock, the configured numbers, the cipher, the portals and the bridge.
\<close>

section \<open>Environment\<close>

record env =
  env_tz :: tz
  env_now :: time
  env_BillInstanceLookaheadDays :: int
  env_VendorRefreshIntervalMinutes :: int
  env_Encryptor :: AEAD
  env_registry :: registry
  env_parse :: url_parser
  env_bridge :: bridge

section \<open>Instance generation\<close>

fun ensure_all :: "tz \<Rightarrow> int \<Rightarrow> time list \<Rightarrow> unit dbm" where
  "ensure_all tz rid [] s = (Inr (), s)"
| "ensure_all tz rid (due # rest) s =
     (case BillInstanceStore_EnsureInstance tz rid due s of
        (Inl e, s') \<Rightarrow> (Inl e, s')
      | (Inr _, s') \<Rightarrow> ensure_all tz rid rest s')"

definition GenerateInstancesForDefinition :: "tz \<Rightarrow> time \<Rightarrow> BillDefinition \<Rightarrow> int \<Rightarrow> unit dbm" where
  "GenerateInstancesForDefinition tz now def lookaheadDays =
     (let today = time_Date tz (Year tz now) (Month tz now) (Day tz now) 0 0 0 0 (time_loc now);
          until = AddDate tz today 0 0 lookaheadDays
      in ensure_all tz (bd_ID def) (NextDueDates tz def today until))"

text \<open>An error of one definition is logged and the next one has its turn.\<close>

fun generate_each :: "tz \<Rightarrow> time \<Rightarrow> int \<Rightarrow> BillDefinition list \<Rightarrow> db \<Rightarrow> db" where
  "generate_each tz now days [] s = s"
| "generate_each tz now days (def # defs) s =
     generate_each tz now days defs (snd (GenerateInstancesForDefinition tz now def days s))"

definition generateInstances :: "env \<Rightarrow> db \<Rightarrow> db" where
  "generateInstances E s =
     (case BillDefinitionStore_ListAll s of
        (Inl e, s') \<Rightarrow> s'
      | (Inr defs, s') \<Rightarrow>
          generate_each (env_tz E) (env_now E) (env_BillInstanceLookaheadDays E) defs s')"

section \<open>SimpleFIN refresh\<close>

definition nullableString :: "string \<Rightarrow> string option" where
  "nullableString s = (if s \<noteq> '''' then Some s else None)"

definition nullableInt64Ptr :: "int option \<Rightarrow> int option" where
  "nullableInt64Ptr v = (case v of None \<Rightarrow> None | Some n \<Rightarrow> Some n)"

definition nullableTimePtr :: "time option \<Rightarrow> time option" where
  "nullableTimePtr v = (case v of None \<Rightarrow> None | Some t \<Rightarrow> Some t)"

definition account_row :: "time \<Rightarrow> sf_Account \<Rightarrow> Account" where
  "account_row t0 acc =
     \<lparr>acc_ID = 0, acc_SimpleFinID = sf_ID acc, acc_OrgName = nullableString (sf_OrgName acc),
      acc_Name = sf_Name acc, acc_DisplayName = None, acc_Currency = sf_Currency acc,
      acc_BalanceCents = sf_BalanceCents acc, acc_AvailableBalanceCents = nullableInt64Ptr (sf_AvailableBalanceCents acc),
      acc_BalanceDate = nullableTimePtr (sf_BalanceDate acc), acc_Visible = False, acc_LastSyncedAt = None,
      acc_LastSyncError = None, acc_CreatedAt = t0\<rparr>"

text \<open>The zero value of \<^verbatim>\<open>time.Time\<close>.\<close>

definition zero_time :: time where
  "zero_time = \<lparr>time_sec = - 62135596800, time_nsec = 0, time_loc = UTC\<rparr>"

fun upsert_accounts :: "sf_Account list \<Rightarrow> db \<Rightarrow> db" where
  "upsert_accounts [] s = s"
| "upsert_accounts (a # as) s = upsert_accounts as (snd (AccountStore_Upsert (account_row zero_time a) s))"

definition RefreshSimpleFinNow :: "env \<Rightarrow> db \<Rightarrow> db" where
  "RefreshSimpleFinNow E s =
     (case SimpleFinConnectionStore_Get s of
        (Inl e, s') \<Rightarrow> s'
      | (Inr conn, s') \<Rightarrow>
          (case Decrypt (env_Encryptor E) (sfc_EncryptedAccessURL conn) of
             Inl e \<Rightarrow> snd (SimpleFinConnectionStore_MarkSynced (sfc_ID conn) (Some (Error e)) s')
           | Inr accessURL \<Rightarrow>
               (case FetchAccounts False (env_parse E) (env_bridge E) accessURL of
                  Inl e \<Rightarrow> snd (SimpleFinConnectionStore_MarkSynced (sfc_ID conn) (Some (Error e)) s')
                | Inr accounts \<Rightarrow>
                    snd (SimpleFinConnectionStore_MarkSynced (sfc_ID conn) None
                      (upsert_accounts accounts s')))))"

section \<open>Vendor refresh\<close>

definition RefreshVendorConnectionNow :: "env \<Rightarrow> VendorConnection \<Rightarrow> db \<Rightarrow> db" where
  "RefreshVendorConnectionNow E conn s =
     (case connectors_Get (env_registry E) (vc_Connector conn) of
        Inl e \<Rightarrow> snd (VendorConnectionStore_MarkSynced (vc_ID conn) '''' (Some (Error e)) s)
      | Inr connector \<Rightarrow>
          (case Decrypt (env_Encryptor E) (vc_EncryptedPassword conn) of
             Inl e \<Rightarrow> snd (VendorConnectionStore_MarkSynced (vc_ID conn) '''' (Some (Error e)) s)
           | Inr password \<Rightarrow>
               (case connector \<lparr>cred_Tenant = vc_Tenant conn, cred_Username = vc_Username conn,
                                cred_Password = password\<rparr> of
                  Inl e \<Rightarrow> snd (VendorConnectionStore_MarkSynced (vc_ID conn) '''' (Some (Error e)) s)
                | Inr snapshot \<Rightarrow>
                    let s1 = snd (BillDefinitionStore_UpdateAmount (vc_BillDefinitionID conn)
                               (snap_AmountCents snapshot) s);
                        s2 = (if snap_AmountCents snapshot \<le> 0 then s1
                              else snd (BillInstanceStore_EnsureInstance (env_tz E)
                                     (vc_BillDefinitionID conn) (snap_DueDate snapshot) s1))
                    in snd (VendorConnectionStore_MarkSynced (vc_ID conn)
                         (snap_AccountNumber snapshot) None s2))))"

definition RefreshVendorConnectionIfStale :: "env \<Rightarrow> VendorConnection \<Rightarrow> db \<Rightarrow> db" where
  "RefreshVendorConnectionIfStale E conn s =
     (case vc_LastSyncedAt conn of
        Some t \<Rightarrow>
          if time_Since (env_now E) t < minutes (env_VendorRefreshIntervalMinutes E) then s
          else RefreshVendorConnectionNow E conn s
      | None \<Rightarrow> RefreshVendorConnectionNow E conn s)"

fun refresh_each :: "env \<Rightarrow> VendorConnection list \<Rightarrow> db \<Rightarrow> db" where
  "refresh_each E [] s = s"
| "refresh_each E (conn # conns) s = refresh_each E conns (RefreshVendorConnectionIfStale E conn s)"

definition refreshVendorConnections :: "env \<Rightarrow> db \<Rightarrow> db" where
  "refreshVendorConnections E s =
     (case VendorConnectionStore_ListAll s of
        (Inl e, s') \<Rightarrow> s'
      | (Inr conns, s') \<Rightarrow> refresh_each E conns s')"

section \<open>What every job keeps\<close>

text \<open>
  The jobs touch the database through six statements that write and three that
  read. A property of the tables that none of the six breaks is kept by every job,
  whatever the portals and the bridge answer.
\<close>

locale job_invariant =
  fixes I :: "db \<Rightarrow> bool"
  assumes list_bills: "preserves I BillDefinitionStore_ListAll"
    and get_simplefin: "preserves I SimpleFinConnectionStore_Get"
    and list_vendors: "preserves I VendorConnectionStore_ListAll"
    and ensure: "preserves I (BillInstanceStore_EnsureInstance tz rid t)"
    and amount: "preserves I (BillDefinitionStore_UpdateAmount rid cents)"
    and upsert: "preserves I (AccountStore_Upsert a)"
    and sf_synced: "preserves I (SimpleFinConnectionStore_MarkSynced rid e)"
    and vendor_synced: "preserves I (VendorConnectionStore_MarkSynced rid acct e)"
begin

lemma ensure_all_keeps: "I s \<Longrightarrow> I (snd (ensure_all tz rid ts s))"
proof (induction ts arbitrary: s)
  case (Cons t ts)
  then show ?case
    using preservesD [OF ensure, of s tz rid t] by (auto split: prod.split sum.split)
qed simp

lemma GenerateInstancesForDefinition_keeps: "I s \<Longrightarrow> I (snd (GenerateInstancesForDefinition tz now def days s))"
  by (simp add: GenerateInstancesForDefinition_def Let_def ensure_all_keeps)

lemma generate_each_keeps: "I s \<Longrightarrow> I (generate_each tz now days defs s)"
  by (induction defs arbitrary: s) (simp_all add: GenerateInstancesForDefinition_keeps)

lemma generateInstances_keeps: "I s \<Longrightarrow> I (generateInstances E s)"
  using preservesD [OF list_bills, of s]
  by (auto simp: generateInstances_def generate_each_keeps split: prod.split sum.split)

lemma upsert_accounts_keeps: "I s \<Longrightarrow> I (upsert_accounts as s)"
  by (induction as arbitrary: s) (simp_all add: preservesD [OF upsert])

lemma RefreshSimpleFinNow_keeps: "I s \<Longrightarrow> I (RefreshSimpleFinNow E s)"
  using preservesD [OF get_simplefin, of s]
  by (auto simp: RefreshSimpleFinNow_def upsert_accounts_keeps preservesD [OF sf_synced]
      split: prod.split sum.split)

lemma RefreshVendorConnectionNow_keeps: "I s \<Longrightarrow> I (RefreshVendorConnectionNow E conn s)"
  by (auto simp: RefreshVendorConnectionNow_def Let_def preservesD [OF vendor_synced]
      preservesD [OF amount] preservesD [OF ensure] split: sum.split)

lemma RefreshVendorConnectionIfStale_keeps: "I s \<Longrightarrow> I (RefreshVendorConnectionIfStale E conn s)"
  by (simp add: RefreshVendorConnectionIfStale_def RefreshVendorConnectionNow_keeps split: option.split)

lemma refreshVendorConnections_keeps: "I s \<Longrightarrow> I (refreshVendorConnections E s)"
proof -
  have "I (refresh_each E conns s)" if "I s" for conns s
    using that by (induction conns arbitrary: s) (simp_all add: RefreshVendorConnectionIfStale_keeps)
  then show "I s \<Longrightarrow> ?thesis"
    using preservesD [OF list_vendors, of s]
    by (auto simp: refreshVendorConnections_def split: prod.split sum.split)
qed

end

interpretation schema: job_invariant db_ok
  by unfold_locales (simp_all add: bill_store_ok connection_store_ok)

text \<open>Marking, amounts and balances never touch the instances; ensuring only adds to them.\<close>

lemma bt_bill_instances_kept:
  "bt_bill_instances (snd (BillDefinitionStore_UpdateAmount rid cents s)) = bt_bill_instances s"
  "bt_bill_instances (snd (AccountStore_Upsert a s)) = bt_bill_instances s"
  "bt_bill_instances (snd (SimpleFinConnectionStore_MarkSynced rid e s)) = bt_bill_instances s"
  "bt_bill_instances (snd (VendorConnectionStore_MarkSynced rid acct e s)) = bt_bill_instances s"
  unfolding BillDefinitionStore_UpdateAmount_def AccountStore_Upsert_def
    SimpleFinConnectionStore_MarkSynced_def VendorConnectionStore_MarkSynced_def
  by (simp_all add: sql_def update_definition_def fail_def storing_def Let_def split: list.split option.split)

lemma bt_bill_instances_grow:
  "\<exists>new. bt_bill_instances (snd (BillInstanceStore_EnsureInstance tz rid t s)) = bt_bill_instances s @ new"
  unfolding BillInstanceStore_EnsureInstance_def
  by (simp add: sql_def fail_def storing_def Let_def split: list.split option.split)

text \<open>The reads keep whatever the fault script cannot influence.\<close>

lemma preserves_job_reads:
  assumes "fault_free P"
  shows "preserves P BillDefinitionStore_ListAll" and "preserves P SimpleFinConnectionStore_Get"
    and "preserves P VendorConnectionStore_ListAll"
  using preserves_bill_reads(1) preserves_connection_reads(3,5) assms by blast+

interpretation history: job_invariant "\<lambda>s. A \<subseteq> set (bt_bill_instances s)" for A
proof (unfold_locales, goal_cases)
  case (4 tz rid t)
  show ?case
  proof (rule preservesI)
    fix s :: db assume A: "A \<subseteq> set (bt_bill_instances s)"
    obtain new where "bt_bill_instances (snd (BillInstanceStore_EnsureInstance tz rid t s)) = bt_bill_instances s @ new"
      using bt_bill_instances_grow by blast
    with A show "A \<subseteq> set (bt_bill_instances (snd (BillInstanceStore_EnsureInstance tz rid t s)))" by auto
  qed
qed (rule preserves_job_reads, simp add: fault_free_def | simp add: preserves_def bt_bill_instances_kept)+

text \<open>A definition without its amount.\<close>

definition rules_of :: "db \<Rightarrow> BillDefinition list" where
  "rules_of s = map (\<lambda>b. b\<lparr>bd_AmountCents := 0\<rparr>) (bt_bill_definitions s)"

lemma rules_of_kept:
  "rules_of (snd (BillInstanceStore_EnsureInstance tz rid t s)) = rules_of s"
  "rules_of (snd (BillDefinitionStore_UpdateAmount rid cents s)) = rules_of s"
  "rules_of (snd (AccountStore_Upsert a s)) = rules_of s"
  "rules_of (snd (SimpleFinConnectionStore_MarkSynced rid e s)) = rules_of s"
  "rules_of (snd (VendorConnectionStore_MarkSynced rid acct e s)) = rules_of s"
  unfolding BillDefinitionStore_UpdateAmount_def AccountStore_Upsert_def
    SimpleFinConnectionStore_MarkSynced_def VendorConnectionStore_MarkSynced_def
    BillInstanceStore_EnsureInstance_def
  by (simp_all add: sql_def update_definition_def update_where_def fail_def storing_def Let_def rules_of_def
      split: list.split option.split)

interpretation rules: job_invariant "\<lambda>s. rules_of s = D" for D
  by unfold_locales
    (rule preserves_job_reads, simp add: fault_free_def rules_of_def | simp add: preserves_def rules_of_kept)+

text \<open>A script without failures left stays empty.\<close>

lemma sql_no_faults:
  "(\<And>s. db_faults (snd (stmt s)) = db_faults s) \<Longrightarrow> preserves (\<lambda>s. db_faults s = []) (sql stmt)"
  by (simp add: preserves_def sql_up)

lemma no_faults_updates:
  "preserves (\<lambda>s. db_faults s = []) (BillInstanceStore_EnsureInstance tz rid t)"
  "preserves (\<lambda>s. db_faults s = []) (BillDefinitionStore_UpdateAmount rid cents)"
  "preserves (\<lambda>s. db_faults s = []) (AccountStore_Upsert a)"
  "preserves (\<lambda>s. db_faults s = []) (SimpleFinConnectionStore_MarkSynced rid e)"
  "preserves (\<lambda>s. db_faults s = []) (VendorConnectionStore_MarkSynced rid acct e)"
  unfolding BillDefinitionStore_UpdateAmount_def AccountStore_Upsert_def
    SimpleFinConnectionStore_MarkSynced_def VendorConnectionStore_MarkSynced_def
    BillInstanceStore_EnsureInstance_def
  by (rule sql_no_faults, simp add: fail_def storing_def Let_def update_definition_def)+

lemma no_faults_reads:
  "preserves (\<lambda>s. db_faults s = []) BillDefinitionStore_ListAll"
  "preserves (\<lambda>s. db_faults s = []) SimpleFinConnectionStore_Get"
  "preserves (\<lambda>s. db_faults s = []) VendorConnectionStore_ListAll"
  unfolding BillDefinitionStore_ListAll_def SimpleFinConnectionStore_Get_def VendorConnectionStore_ListAll_def
  by (rule sql_no_faults, simp split: list.split)+

interpretation no_faults: job_invariant "\<lambda>s. db_faults s = []"
  by unfold_locales (rule no_faults_reads no_faults_updates)+

section \<open>Properties of the jobs\<close>

datatype job = GenerateInstances | RefreshSimpleFin | RefreshVendors

fun run_job :: "env \<Rightarrow> job \<Rightarrow> db \<Rightarrow> db" where
  "run_job E GenerateInstances s = generateInstances E s"
| "run_job E RefreshSimpleFin s = RefreshSimpleFinNow E s"
| "run_job E RefreshVendors s = refreshVendorConnections E s"

text \<open>
  C19. Whatever the portals and the bridge answer and whichever statements fail, a
  background job keeps the schema's invariant, loses or alters no existing bill
  instance (so nothing that was paid becomes unpaid again) and changes nothing of
  any bill definition but its amount.
\<close>

theorem jobs_keep_history:
  "(db_ok s \<longrightarrow> db_ok (run_job E j s)) \<and>
   set (bt_bill_instances s) \<subseteq> set (bt_bill_instances (run_job E j s)) \<and>
   rules_of (run_job E j s) = rules_of s"
proof (cases j)
  case GenerateInstances
  then show ?thesis
    using schema.generateInstances_keeps history.generateInstances_keeps rules.generateInstances_keeps by simp
next
  case RefreshSimpleFin
  then show ?thesis
    using schema.RefreshSimpleFinNow_keeps history.RefreshSimpleFinNow_keeps
      rules.RefreshSimpleFinNow_keeps by simp
next
  case RefreshVendors
  then show ?thesis
    using schema.refreshVendorConnections_keeps history.refreshVendorConnections_keeps
      rules.refreshVendorConnections_keeps by simp
qed

definition sample_env :: env where
  "sample_env = \<lparr>env_tz = fixed_tz 0, env_now = \<lparr>time_sec = 1768502700, time_nsec = 7, time_loc = Local\<rparr>,
     env_BillInstanceLookaheadDays = 60, env_VendorRefreshIntervalMinutes = 360,
     env_Encryptor = sample_aead, env_registry = Map.empty, env_parse = (\<lambda>_. Inl ''no url''),
     env_bridge = (\<lambda>_. Inl ''unreachable'')\<rparr>"

theorem jobs_keep_history_witness:
  "db_ok sample_db \<and> db_ok (run_job sample_env GenerateInstances sample_db) \<and>
   length (filter bi_Paid (bt_bill_instances sample_db)) = 1"
  using jobs_keep_history [of sample_db sample_env GenerateInstances] sample_db_ok
  by (simp add: sample_db_def)

text \<open>
  What a run of the generator adds, day by day: the days of the window on which the
  definition is due. The days come from the schedule engine's correctness.
\<close>

lemma ensure_all_run:
  assumes "db_ok s" "db_faults s = []" "rid \<in> bd_ID ` set (bt_bill_definitions s)"
    and "seq_instances s + int (length ts) \<le> 2 ^ 31"
  shows "\<exists>s'. ensure_all tz rid ts s = (Inr (), s') \<and> db_ok s' \<and> db_faults s' = [] \<and>
    bt_bill_definitions s' = bt_bill_definitions s \<and>
    seq_instances s' = seq_instances s + int (length ts) \<and>
    occurrences s' = occurrences s \<union> {rid} \<times> time_date tz ` set ts"
  using assms
proof (induction ts arbitrary: s)
  case (Cons t ts)
  have seq: "1 \<le> seq_instances s" and ids: "keys_ok bd_ID (bt_bill_definitions s) (seq_definitions s)"
    using Cons.prems(1) by (simp_all add: db_ok_def instances_ok_def definitions_ok_def keys_ok_def)
  then have room: "int4 (seq_instances s)" "int4 rid"
    using Cons.prems(3,4) keys_ok_int4 [OF ids] by (auto simp: int4_def)
  obtain s1 where s1: "BillInstanceStore_EnsureInstance tz rid t s = (Inr (), s1)"
    and st: "s1 = s\<lparr>seq_instances := seq_instances s + 1, bt_bill_instances := bt_bill_instances s @
      (if (rid, time_date tz t) \<in> occurrences s then [] else [\<lparr>bi_ID = seq_instances s, bi_BillDefinitionID = rid,
         bi_DueDate = time_date tz t, bi_Paid = False, bi_PaidAt = None\<rparr>])\<rparr>"
    using EnsureInstance_run [OF Cons.prems(1,2) room(1) Cons.prems(3) room(2), of tz t] by blast
  have ok1: "db_ok s1" using preservesD [OF EnsureInstance_ok Cons.prems(1), of tz rid t] s1 by simp
  have occ: "occurrences s1 = insert (rid, time_date tz t) (occurrences s)"
    by (auto simp: st occurrences_def)
  obtain s' where "ensure_all tz rid ts s1 = (Inr (), s')" "db_ok s'" "db_faults s' = []"
      "bt_bill_definitions s' = bt_bill_definitions s1" "seq_instances s' = seq_instances s1 + int (length ts)"
      "occurrences s' = occurrences s1 \<union> {rid} \<times> time_date tz ` set ts"
    using Cons.IH [OF ok1] Cons.prems st by auto
  then show ?case using s1 occ by (auto simp: st)
qed simp

definition window_end :: "tz \<Rightarrow> time \<Rightarrow> int \<Rightarrow> date" where
  "window_end tz now days = civil (day_number (time_date tz now) + days)"

lemma generated_dates:
  assumes "regular_location tz (time_loc now)" "\<forall>day. bd_DayOfMonth def = Some day \<longrightarrow> 1 \<le> day"
  shows "let today = time_Date tz (Year tz now) (Month tz now) (Day tz now) 0 0 0 0 (time_loc now);
      ts = NextDueDates tz def today (AddDate tz today 0 0 days) in
    time_date tz ` set ts =
      {d \<in> set (date_range (time_date tz now) (window_end tz now days)). due_on tz def d} \<and>
    length ts \<le> nat (days + 1)"
proof -
  let ?l = "time_loc now"
  define n where "n = day_number (time_date tz now)"
  have lc: "local_calendar tz ?l" using assms by (simp add: regular_location_iff)
  have today: "time_Date tz (Year tz now) (Month tz now) (Day tz now) 0 0 0 0 ?l = day_start tz ?l n"
    by (simp add: time_Date_midnight n_def day_number_def)
  have date: "time_date tz (day_start tz ?l k) = civil k" for k
    by (rule local_calendar.day_start_date [OF lc])
  have ts: "NextDueDates tz def (day_start tz ?l n) (AddDate tz (day_start tz ?l n) 0 0 days) =
      map (day_start tz ?l) (filter (\<lambda>k. due_on tz def (civil k)) [n..n + days])"
    using local_calendar.NextDueDates_day_numbers [OF lc _ _ assms(2), of "day_start tz ?l n" "day_start tz ?l (n + days)"]
    by (simp add: local_calendar.AddDate_days [OF lc] date day_number_civil)
  have "length (filter (\<lambda>k. due_on tz def (civil k)) [n..n + days]) \<le> nat (days + 1)"
    using length_filter_le [of "\<lambda>k. due_on tz def (civil k)" "[n..n + days]"] by simp
  moreover have "set (date_range (time_date tz now) (window_end tz now days)) = civil ` {n..n + days}"
    by (simp add: date_range_def window_end_def n_def day_number_civil)
  ultimately show ?thesis
    unfolding today Let_def ts by (auto simp: date image_image)
qed

definition due_in_window :: "env \<Rightarrow> db \<Rightarrow> (int \<times> date) set" where
  "due_in_window E s =
     {(bd_ID b, d) | b d. b \<in> set (bt_bill_definitions s) \<and> due_on (env_tz E) b d \<and>
        d \<in> set (date_range (time_date (env_tz E) (env_now E))
          (window_end (env_tz E) (env_now E) (env_BillInstanceLookaheadDays E)))}"

lemma GenerateInstancesForDefinition_run:
  assumes "regular_location tz (time_loc now)" "db_ok s" "db_faults s = []"
    and "definition_check b" "bd_ID b \<in> bd_ID ` set (bt_bill_definitions s)"
    and "seq_instances s + int (nat (days + 1)) \<le> 2 ^ 31"
  shows "\<exists>s'. GenerateInstancesForDefinition tz now b days s = (Inr (), s') \<and> db_ok s' \<and> db_faults s' = [] \<and>
    bt_bill_definitions s' = bt_bill_definitions s \<and>
    seq_instances s' \<le> seq_instances s + int (nat (days + 1)) \<and>
    occurrences s' = occurrences s \<union> {bd_ID b} \<times>
      {d \<in> set (date_range (time_date tz now) (window_end tz now days)). due_on tz b d}"
proof -
  define today where "today = time_Date tz (Year tz now) (Month tz now) (Day tz now) 0 0 0 0 (time_loc now)"
  define ts where "ts = NextDueDates tz b today (AddDate tz today 0 0 days)"
  have "\<forall>day. bd_DayOfMonth b = Some day \<longrightarrow> 1 \<le> day"
    using assms(4) by (auto simp: definition_check_def)
  then have ts: "time_date tz ` set ts = {d \<in> set (date_range (time_date tz now) (window_end tz now days)). due_on tz b d}"
      "length ts \<le> nat (days + 1)"
    using generated_dates [OF assms(1), of b days] by (simp_all add: ts_def today_def Let_def)
  have "seq_instances s + int (length ts) \<le> 2 ^ 31" using assms(6) ts(2) by linarith
  from ensure_all_run [OF assms(2,3,5) this, of tz] ts(2) show ?thesis
    by (auto simp del: of_nat_nat int_nat_eq simp: GenerateInstancesForDefinition_def Let_def ts_def [symmetric] today_def [symmetric] ts(1))
qed

lemma generate_each_run:
  assumes "regular_location tz (time_loc now)" "nat (days + 1) = w" "db_ok s" "db_faults s = []"
    and "set defs \<subseteq> set (bt_bill_definitions s)"
    and "seq_instances s + int (length defs) * int w \<le> 2 ^ 31"
  shows "\<exists>s'. generate_each tz now days defs s = s' \<and> db_ok s' \<and> db_faults s' = [] \<and>
    bt_bill_definitions s' = bt_bill_definitions s \<and>
    seq_instances s' \<le> seq_instances s + int (length defs) * int w \<and>
    occurrences s' = occurrences s \<union> {(bd_ID b, d) | b d. b \<in> set defs \<and> due_on tz b d \<and>
      d \<in> set (date_range (time_date tz now) (window_end tz now days))}"
  using assms(3-)
proof (induction defs arbitrary: s)
  case (Cons b defs)
  have b: "b \<in> set (bt_bill_definitions s)" using Cons.prems(3) by simp
  then have check: "definition_check b" "bd_ID b \<in> bd_ID ` set (bt_bill_definitions s)"
    using Cons.prems(1) by (auto simp: db_ok_def definitions_ok_def)
  have rest: "0 \<le> int (length defs) * int w" by simp
  have all: "seq_instances s + (int w + int (length defs) * int w) \<le> 2 ^ 31"
    using Cons.prems(4) by (simp add: algebra_simps)
  with rest have "seq_instances s + int (nat (days + 1)) \<le> 2 ^ 31" unfolding assms(2) by linarith
  from GenerateInstancesForDefinition_run [OF assms(1) Cons.prems(1,2) check this, unfolded assms(2)]
  obtain s1 where s1: "GenerateInstancesForDefinition tz now b days s = (Inr (), s1)" "db_ok s1" "db_faults s1 = []"
      "bt_bill_definitions s1 = bt_bill_definitions s" "seq_instances s1 \<le> seq_instances s + int w"
      "occurrences s1 = occurrences s \<union> {bd_ID b} \<times>
        {d \<in> set (date_range (time_date tz now) (window_end tz now days)). due_on tz b d}"
    by blast
  have step: "generate_each tz now days (b # defs) s = generate_each tz now days defs s1"
    using s1(1) by simp
  have "seq_instances s1 + int (length defs) * int w \<le> 2 ^ 31"
    using all s1(5) by linarith
  then obtain s' where s': "generate_each tz now days defs s1 = s'" "db_ok s'" "db_faults s' = []"
      "bt_bill_definitions s' = bt_bill_definitions s1"
      "seq_instances s' \<le> seq_instances s1 + int (length defs) * int w"
      "occurrences s' = occurrences s1 \<union> {(bd_ID b, d) | b d. b \<in> set defs \<and> due_on tz b d \<and>
        d \<in> set (date_range (time_date tz now) (window_end tz now days))}"
    using Cons.IH [OF s1(2,3)] Cons.prems(3) s1(4) by auto
  have "occurrences s' = occurrences s \<union> {(bd_ID c, d) | c d. c \<in> set (b # defs) \<and> due_on tz c d \<and>
      d \<in> set (date_range (time_date tz now) (window_end tz now days))}"
    unfolding s'(6) s1(6) by auto
  moreover have "seq_instances s' \<le> seq_instances s + int (length (b # defs)) * int w"
    using s'(5) s1(5) by (simp add: algebra_simps)
  ultimately show ?case using step s' s1(4) by simp
qed simp

lemma generateInstances_run:
  assumes "regular_location (env_tz E) (time_loc (env_now E))" "db_ok s" "db_faults s = []"
    and "seq_instances s + int (length (bt_bill_definitions s)) * int (nat (env_BillInstanceLookaheadDays E + 1)) \<le> 2 ^ 31"
  shows "\<exists>s'. generateInstances E s = s' \<and> db_ok s' \<and> db_faults s' = [] \<and>
    bt_bill_definitions s' = bt_bill_definitions s \<and>
    seq_instances s' \<le> seq_instances s + int (length (bt_bill_definitions s)) * int (nat (env_BillInstanceLookaheadDays E + 1)) \<and>
    occurrences s' = occurrences s \<union> due_in_window E s"
  using generate_each_run [OF assms(1) refl assms(2,3), of "sort_by (pg_collate s) bd_Name (bt_bill_definitions s)"] assms
  by (simp add: generateInstances_def BillDefinitionStore_ListAll_def sql_up due_in_window_def
      del: of_nat_nat int_nat_eq)

text \<open>
  C3. One run of the generator, when its statements succeed, the serial counter has room
  and every local midnight exists in the zone, makes an instance exist
  for every bill on every day from today to the end of the look-ahead window on
  which the bill is due, and for no other day; instances that existed stay as
  they were, and a second run at the same time adds nothing.
\<close>

theorem generateInstances_exact:
  assumes "regular_location (env_tz E) (time_loc (env_now E))" "db_ok s" "db_faults s = []"
    and "seq_instances s + 2 * (int (length (bt_bill_definitions s)) *
      int (nat (env_BillInstanceLookaheadDays E + 1))) \<le> 2 ^ 31"
  shows "occurrences (generateInstances E s) = occurrences s \<union> due_in_window E s \<and>
    set (bt_bill_instances s) \<subseteq> set (bt_bill_instances (generateInstances E s)) \<and>
    occurrences (generateInstances E (generateInstances E s)) = occurrences (generateInstances E s)"
proof -
  let ?w = "nat (env_BillInstanceLookaheadDays E + 1)"
  note run = generateInstances_run [OF assms(1)]
  define k where "k = int (length (bt_bill_definitions s)) * int ?w"
  have "0 \<le> k" unfolding k_def by simp
  moreover have k2: "seq_instances s + 2 * k \<le> 2 ^ 31" using assms(4) unfolding k_def .
  ultimately have k: "seq_instances s + k \<le> 2 ^ 31" by linarith
  from run [OF assms(2,3) this [unfolded k_def], folded k_def] obtain s' where s': "generateInstances E s = s'" "db_ok s'" "db_faults s' = []"
      "bt_bill_definitions s' = bt_bill_definitions s" "seq_instances s' \<le> seq_instances s + k"
      "occurrences s' = occurrences s \<union> due_in_window E s"
    by blast
  have "seq_instances s' + int (length (bt_bill_definitions s')) * int ?w \<le> 2 ^ 31"
    unfolding s'(4) k_def [symmetric] using s'(5) k2 by linarith
  from run [OF s'(2,3) this] obtain s'' where "generateInstances E s' = s''" "occurrences s'' = occurrences s' \<union> due_in_window E s'"
    by blast
  moreover have "due_in_window E s' = due_in_window E s" by (simp add: due_in_window_def s'(4))
  ultimately show ?thesis
    using s' history.generateInstances_keeps [of "set (bt_bill_instances s)" s E] by auto
qed

theorem generateInstances_exact_witness:
  "db_ok sample_db \<and> (2, Date 2026 2 28) \<notin> occurrences sample_db \<and>
   (2, Date 2026 2 28) \<in> occurrences (generateInstances sample_env sample_db)"
proof -
  have pre: "regular_location (env_tz sample_env) (time_loc (env_now sample_env))"
    "db_faults sample_db = []" "seq_instances sample_db + 2 * (int (length (bt_bill_definitions sample_db)) *
      int (nat (env_BillInstanceLookaheadDays sample_env + 1))) \<le> 2 ^ 31"
    by (simp_all add: sample_env_def sample_db_def empty_db_def regular_fixed_tz)
  have days: "time_date (fixed_tz 0) \<lparr>time_sec = 1768502700, time_nsec = 7, time_loc = Local\<rparr> = Date 2026 1 15"
    "civil (day_number (Date 2026 1 15) + 60) = Date 2026 3 16"
    "Date 2026 2 28 \<in> set (date_range (Date 2026 1 15) (Date 2026 3 16))"
    by code_simp+
  have "due_on (fixed_tz 0) (day31_bill\<lparr>bd_ID := 2, bd_Name := ''Water''\<rparr>) (Date 2026 2 28)"
    by code_simp
  then have "(2, Date 2026 2 28) \<in> due_in_window sample_env sample_db"
    by (auto simp: due_in_window_def sample_env_def sample_db_def window_end_def days intro!: exI
        [of _ "day31_bill\<lparr>bd_ID := 2, bd_Name := ''Water''\<rparr>"])
  moreover have "(2, Date 2026 2 28) \<notin> occurrences sample_db"
    by (simp add: occurrences_def sample_db_def)
  ultimately show ?thesis
    using generateInstances_exact [OF pre(1) sample_db_ok pre(2,3)] sample_db_ok by blast
qed

text \<open>
  C39. A connection whose last attempt was recorded after some instant is left alone
  until one interval past that instant: the tables stay exactly as they are and the
  portal is not asked (the outcome is the same with any registry), whether the
  attempt succeeded or failed. Taking the instant to be a tick of the refresh ticker,
  whose attempt is recorded when it ends, the tick one interval later is skipped: a
  connection is refreshed on every other tick only.
\<close>

theorem RefreshVendorConnectionIfStale_cached:
  assumes "vc_LastSyncedAt conn = Some t" "time_nanos tick < time_nanos t"
    and "time_nanos (env_now E) \<le> time_nanos tick + minutes (env_VendorRefreshIntervalMinutes E)"
    and "0 < minutes (env_VendorRefreshIntervalMinutes E)"
  shows "RefreshVendorConnectionIfStale (E\<lparr>env_registry := reg\<rparr>) conn s = s"
proof -
  have "time_Since (env_now E) t < minutes (env_VendorRefreshIntervalMinutes E)"
    using assms(2-4) by (auto simp: time_Since_def)
  then show ?thesis using assms(1) by (simp add: RefreshVendorConnectionIfStale_def)
qed

definition sample_vendor :: VendorConnection where
  "sample_vendor = \<lparr>vc_ID = 1, vc_BillDefinitionID = 1, vc_Connector = ''billeriq'',
     vc_Tenant = ''WVWAuthority'', vc_Username = ''me'', vc_EncryptedPassword = ''x'',
     vc_LastAccountNumber = None, vc_LastSyncedAt = Some (sample_time 1768481101),
     vc_LastSyncError = Some ''billeriq: logging in: timeout'', vc_BootstrapManaged = True,
     vc_CreatedAt = sample_time 0\<rparr>"

theorem RefreshVendorConnectionIfStale_cached_witness:
  "time_nanos (sample_time 1768481100) + minutes 360 = time_nanos (sample_time 1768502700) \<and>
   RefreshVendorConnectionIfStale (sample_env\<lparr>env_now := sample_time 1768502700, env_registry := Map.empty\<rparr>)
     sample_vendor sample_db = sample_db"
  using RefreshVendorConnectionIfStale_cached [of sample_vendor "sample_time 1768481101" "sample_time 1768481100"
      "sample_env\<lparr>env_now := sample_time 1768502700\<rparr>" Map.empty sample_db]
  by (simp add: sample_vendor_def sample_time_def time_nanos_def minutes_def sample_env_def
      int64_range_def)

text \<open>
  What the connection's portal answers, and the rows of the connections once the
  attempt is recorded: the moment, the error if any, and the account number
  unless the portal gave none. An attempt with a text that no column takes is not recorded.
\<close>

definition vendor_snapshot :: "env \<Rightarrow> VendorConnection \<Rightarrow> (string, BillSnapshot) result" where
  "vendor_snapshot E conn = bindR (connectors_Get (env_registry E) (vc_Connector conn)) (\<lambda>connector.
     bindR (Decrypt (env_Encryptor E) (vc_EncryptedPassword conn)) (\<lambda>password.
     connector \<lparr>cred_Tenant = vc_Tenant conn, cred_Username = vc_Username conn, cred_Password = password\<rparr>))"

definition mark_synced :: "db \<Rightarrow> int \<Rightarrow> string option \<Rightarrow> string \<Rightarrow> VendorConnection list" where
  "mark_synced s rid err acct =
     (if text_ok acct \<and> pred_option text_ok err
      then update_where (\<lambda>r. vc_ID r = rid) (\<lambda>r. r\<lparr>vc_LastSyncedAt := Some (db_now s),
          vc_LastSyncError := err,
          vc_LastAccountNumber := (if acct \<noteq> '''' then Some acct else vc_LastAccountNumber r)\<rparr>)
        (bt_vendor_connections s)
      else bt_vendor_connections s)"

lemma error_texts_ok: "list_all text_ok (error_texts e) \<longleftrightarrow> pred_option text_ok (map_option error_text e)"
  by (cases e) (simp_all add: error_texts_def)

lemma RefreshVendorConnectionNow_cases:
  "RefreshVendorConnectionNow E conn s =
     (case vendor_snapshot E conn of
        Inl e \<Rightarrow> snd (VendorConnectionStore_MarkSynced (vc_ID conn) '''' (Some (Error e)) s)
      | Inr snap \<Rightarrow> snd (VendorConnectionStore_MarkSynced (vc_ID conn) (snap_AccountNumber snap) None
          (if snap_AmountCents snap \<le> 0
           then snd (BillDefinitionStore_UpdateAmount (vc_BillDefinitionID conn) (snap_AmountCents snap) s)
           else snd (BillInstanceStore_EnsureInstance (env_tz E) (vc_BillDefinitionID conn) (snap_DueDate snap)
             (snd (BillDefinitionStore_UpdateAmount (vc_BillDefinitionID conn) (snap_AmountCents snap) s))))))"
  by (simp add: RefreshVendorConnectionNow_def vendor_snapshot_def bindR_def Let_def split: sum.split)

lemma UpdateAmount_run:
  assumes "db_ok s" "db_faults s = []" "int4 rid" "int4 cents"
  shows "BillDefinitionStore_UpdateAmount rid cents s = (Inr (), s\<lparr>bt_bill_definitions :=
    update_where (\<lambda>b. bd_ID b = rid) (\<lambda>b. b\<lparr>bd_AmountCents := cents\<rparr>) (bt_bill_definitions s)\<rparr>)"
proof -
  have "definition_check (b\<lparr>bd_AmountCents := cents\<rparr>)" if "b \<in> set (bt_bill_definitions s)" for b
    using that assms(1)
    by (simp add: db_ok_def definitions_ok_def definition_check_def schedule_shape_check_def)
  then show ?thesis
    using assms(2-4) by (simp add: BillDefinitionStore_UpdateAmount_def sql_up update_definition_def)
qed

lemma Vendor_MarkSynced_run:
  assumes "db_faults s = []" "int4 rid"
  shows "snd (VendorConnectionStore_MarkSynced rid acct e s) =
    s\<lparr>bt_vendor_connections := mark_synced s rid (map_option error_text e) acct\<rparr>"
  using assms
  by (simp add: VendorConnectionStore_MarkSynced_def sql_up mark_synced_def storing_def error_texts_ok)

text \<open>
  C27. A refresh that fails (unknown connector, undecryptable password or an error of
  the portal) leaves the bills, their instances and everything else as they were
  and only records the attempt on the connection; one that succeeds sets the bill's
  amount to what the portal reports, adds its due date as an instance when something
  is owed, and keeps the known account number when the portal gives none. Either way the record of
  the attempt is dropped when the error or the account number is not a text Postgres stores.
\<close>

theorem RefreshVendorConnectionNow_outcome:
  assumes "db_ok s" "db_faults s = []" "int4 (seq_instances s)" "conn \<in> set (bt_vendor_connections s)"
    and "\<And>snap. vendor_snapshot E conn = Inr snap \<Longrightarrow> int4 (snap_AmountCents snap)"
  shows "let s' = RefreshVendorConnectionNow E conn s in
    case vendor_snapshot E conn of
      Inl e \<Rightarrow> s' = s\<lparr>bt_vendor_connections := mark_synced s (vc_ID conn) (Some e) ''''\<rparr>
    | Inr snap \<Rightarrow>
        bt_bill_definitions s' = update_where (\<lambda>b. bd_ID b = vc_BillDefinitionID conn)
          (\<lambda>b. b\<lparr>bd_AmountCents := snap_AmountCents snap\<rparr>) (bt_bill_definitions s) \<and>
        occurrences s' = occurrences s \<union> (if snap_AmountCents snap \<le> 0 then {}
          else {(vc_BillDefinitionID conn, time_date (env_tz E) (snap_DueDate snap))}) \<and>
        bt_vendor_connections s' = mark_synced s (vc_ID conn) None (snap_AccountNumber snap)"
proof -
  have v: "vendors_ok s" "definitions_ok s" using assms(1) by (simp_all add: db_ok_def)
  then have ids: "int4 (vc_ID conn)" "vc_BillDefinitionID conn \<in> bd_ID ` set (bt_bill_definitions s)"
    using assms(4) keys_ok_int4 [of vc_ID] by (auto simp: vendors_ok_def)
  then have bid: "int4 (vc_BillDefinitionID conn)"
    using v(2) keys_ok_int4 [of bd_ID] by (auto simp: definitions_ok_def)
  show ?thesis
  proof (cases "vendor_snapshot E conn")
    case (Inl e)
    then show ?thesis
      by (simp add: RefreshVendorConnectionNow_cases Vendor_MarkSynced_run [OF assms(2) ids(1)])
  next
    case (Inr snap)
    define s1 where "s1 = s\<lparr>bt_bill_definitions := update_where (\<lambda>b. bd_ID b = vc_BillDefinitionID conn)
      (\<lambda>b. b\<lparr>bd_AmountCents := snap_AmountCents snap\<rparr>) (bt_bill_definitions s)\<rparr>"
    have upd: "BillDefinitionStore_UpdateAmount (vc_BillDefinitionID conn) (snap_AmountCents snap) s = (Inr (), s1)"
      using UpdateAmount_run [OF assms(1,2) bid assms(5) [OF Inr]] by (simp add: s1_def)
    have ok1: "db_ok s1"
      using preservesD [OF definition_updates_ok(3) assms(1), of "vc_BillDefinitionID conn" "snap_AmountCents snap"] upd
      by simp
    have rid1: "vc_BillDefinitionID conn \<in> bd_ID ` set (bt_bill_definitions s1)"
      using ids(2) by (simp add: s1_def image_update_where)
    have "db_faults s1 = []" "int4 (seq_instances s1)" using assms(2,3) by (simp_all add: s1_def)
    note ens = EnsureInstance_run [OF ok1 this rid1 bid, of "env_tz E" "snap_DueDate snap"]
    define s2 where "s2 = (if snap_AmountCents snap \<le> 0 then s1 else
      snd (BillInstanceStore_EnsureInstance (env_tz E) (vc_BillDefinitionID conn) (snap_DueDate snap) s1))"
    have s2: "db_faults s2 = []" "db_now s2 = db_now s" "bt_vendor_connections s2 = bt_vendor_connections s"
      "bt_bill_definitions s2 = bt_bill_definitions s1"
      "occurrences s2 = occurrences s \<union> (if snap_AmountCents snap \<le> 0 then {}
        else {(vc_BillDefinitionID conn, time_date (env_tz E) (snap_DueDate snap))})"
      unfolding s2_def ens using assms(2) by (auto simp: s1_def occurrences_def)
    have "RefreshVendorConnectionNow E conn s =
        s2\<lparr>bt_vendor_connections := mark_synced s2 (vc_ID conn) None (snap_AccountNumber snap)\<rparr>"
      using Vendor_MarkSynced_run [OF s2(1) ids(1), of "snap_AccountNumber snap" None]
      by (simp only: RefreshVendorConnectionNow_cases Inr upd sum.case snd_conv s2_def [symmetric] option.map)
    moreover have "occurrences (s2\<lparr>bt_vendor_connections := vs\<rparr>) = occurrences s2" for vs
      by (simp add: occurrences_def)
    ultimately show ?thesis
      using s2 by (simp add: Inr s1_def mark_synced_def)
  qed
qed

definition owed_snapshot :: BillSnapshot where
  "owed_snapshot = \<lparr>snap_AmountCents = 4215, snap_DueDate = sample_time 1775001600, snap_AccountNumber = ''''\<rparr>"

definition vendor_env :: env where
  "vendor_env = sample_env\<lparr>env_registry := [''billeriq'' \<mapsto> (\<lambda>_. Inr owed_snapshot)]\<rparr>"

definition known_vendor :: VendorConnection where
  "known_vendor = sample_vendor\<lparr>vc_EncryptedPassword := replicate 12 (CHR ''k'') @ ''pw'' @ replicate 12 (CHR ''k''),
     vc_LastAccountNumber := Some ''12-34''\<rparr>"

definition vendor_db :: db where
  "vendor_db = sample_db\<lparr>bt_vendor_connections := [known_vendor], seq_vendors := 2\<rparr>"

theorem RefreshVendorConnectionNow_outcome_witness:
  "let s' = RefreshVendorConnectionNow vendor_env known_vendor vendor_db in
   map bd_AmountCents (bt_bill_definitions s') = [4215, 12843] \<and>
   (1, Date 2026 4 1) \<in> occurrences s' \<and>
   map vc_LastAccountNumber (bt_vendor_connections s') = [Some ''12-34''] \<and>
   map vc_LastSyncError (bt_vendor_connections s') = [None]"
proof -
  have ok: "db_ok vendor_db"
    using sample_db_ok
    by (simp add: vendor_db_def known_vendor_def sample_vendor_def db_ok_def table_ok_defs keys_ok_def
        sample_db_def)
  have up: "db_faults vendor_db = []" "int4 (seq_instances vendor_db)" "known_vendor \<in> set (bt_vendor_connections vendor_db)"
    by (simp_all add: vendor_db_def sample_db_def empty_db_def int4_def)
  have snap: "vendor_snapshot vendor_env known_vendor = Inr owed_snapshot"
    by code_simp
  have day: "time_date (fixed_tz 0) (sample_time 1775001600) = Date 2026 4 1"
    by code_simp
  have "int4 (snap_AmountCents owed_snapshot)" by (simp add: owed_snapshot_def int4_def)
  then have amount: "int4 (snap_AmountCents snap)" if "vendor_snapshot vendor_env known_vendor = Inr snap" for snap
    using that by (simp add: snap)
  have tz: "env_tz vendor_env = fixed_tz 0" by (simp add: vendor_env_def sample_env_def)
  define s' where "s' = RefreshVendorConnectionNow vendor_env known_vendor vendor_db"
  show ?thesis
    using RefreshVendorConnectionNow_outcome [where E = vendor_env, OF ok up amount]
    unfolding snap Let_def sum.case s'_def [symmetric]
    by (simp add: tz day owed_snapshot_def vendor_db_def known_vendor_def sample_vendor_def mark_synced_def
      update_where_def sample_db_def empty_db_def day31_bill_def)
qed

end
