(* ===== verification/Go_Float.thy ===== *)
theory Go_Float
  imports Money "HOL-Library.Log_Nat" Complex_Main
begin

text \<open>
  Go's \<^verbatim>\<open>float64\<close> as far as the program uses it: reading a decimal
  (\<^verbatim>\<open>strconv.ParseFloat\<close>), multiplying, adding and dividing, converting to and from
  \<^verbatim>\<open>int\<close>, and printing with two decimals (\<^verbatim>\<open>%.2f\<close>). A finite value is the rational it
  denotes; every operation computes exactly and rounds to the nearest
  representable value, ties to even. The two zeros are one value here: no text
  the program prints tells them apart. A conversion to \<^verbatim>\<open>int\<close> out of range
  gives the smallest one, as on amd64, and a product is rounded before it is added to.
\<close>

section \<open>Rounding\<close>

datatype float64 = Finite rat | PosInf | NegInf | NaN

text \<open>The exponent \<open>e\<close> with \<open>2 ^ e \<le> x < 2 ^ (e + 1)\<close>, for a positive rational.\<close>

definition exponent :: "rat \<Rightarrow> int" where
  "exponent x =
     (let (p, q) = quotient_of x; e = bitlen p - bitlen q
      in if 2 powi e \<le> x then e else e - 1)"

definition half_even :: "rat \<Rightarrow> int" where
  "half_even x =
     (let n = \<lfloor>x\<rfloor>; r = x - of_int n
      in if r < 1 / 2 then n else if r > 1 / 2 then n + 1 else if even n then n else n + 1)"

definition round_mag :: "rat \<Rightarrow> rat" where
  "round_mag x =
     (if x = 0 then 0
      else let u = 2 powi (max (- 1074) (exponent x - 52)) in of_int (half_even (x / u)) * u)"

definition rnd :: "rat \<Rightarrow> float64" where
  "rnd x =
     (let y = round_mag \<bar>x\<bar>
      in if 2 ^ 1024 \<le> y then (if x < 0 then NegInf else PosInf)
         else Finite (if x < 0 then - y else y))"

section \<open>The rounding error\<close>

lemma exponent_bounds:
  assumes "0 < x"
  shows "2 powi exponent x \<le> x" "x < 2 powi (exponent x + 1)"
proof -
  obtain p q where pq: "quotient_of x = (p, q)" by (cases "quotient_of x")
  have q: "0 < q" using quotient_of_denom_pos [OF pq] .
  have x: "x = of_int p / of_int q" using quotient_of_div [OF pq] .
  then have p: "0 < p" using assms q by (simp add: zero_less_divide_iff)
  have len: "1 \<le> bitlen n" "of_int n < (2::rat) powi bitlen n" "2 powi (bitlen n - 1) \<le> (of_int n :: rat)"
    if "0 < n" for n
  proof -
    show l: "1 \<le> bitlen n" using that by (simp add: bitlen_ge_iff_power)
    have "(of_int n :: rat) < of_int (2 ^ nat (bitlen n))" using bitlen_bounds [OF that] by linarith
    then show "of_int n < (2::rat) powi bitlen n" using l by (simp add: power_int_nonneg_exp)
    have "(of_int (2 ^ nat (bitlen n - 1)) :: rat) \<le> of_int n" using bitlen_bounds [OF that] by linarith
    then show "2 powi (bitlen n - 1) \<le> (of_int n :: rat)" using l by (simp add: power_int_nonneg_exp)
  qed
  define e where "e = bitlen p - bitlen q"
  have "x < 2 powi bitlen p / of_int q"
    using len(2) [OF p] q by (simp add: x divide_strict_right_mono)
  also have "\<dots> \<le> 2 powi bitlen p / 2 powi (bitlen q - 1)"
    using len(3) [OF q] by (intro divide_left_mono) (auto simp: q)
  also have "\<dots> = 2 powi (e + 1)" by (simp add: e_def power_int_diff power_int_add)
  finally have up: "x < 2 powi (e + 1)" .
  have "2 powi (e - 1) = 2 powi (bitlen p - 1) / (2::rat) powi bitlen q"
    by (simp add: e_def power_int_diff)
  also have "\<dots> \<le> of_int p / 2 powi bitlen q"
    using len(3) [OF p] by (intro divide_right_mono) auto
  also have "\<dots> \<le> x" unfolding x
    using len(2) [OF q] p q by (intro divide_left_mono) (auto simp: q)
  finally have lo: "2 powi (e - 1) \<le> x" .
  have ex: "exponent x = (if 2 powi e \<le> x then e else e - 1)"
    by (simp add: exponent_def pq e_def)
  show "2 powi exponent x \<le> x" "x < 2 powi (exponent x + 1)"
    using up lo by (auto simp: ex)
qed

lemma half_even_error: "\<bar>of_int (half_even x) - x\<bar> \<le> 1 / 2"
proof -
  have "of_int \<lfloor>x\<rfloor> \<le> x" "x < of_int \<lfloor>x\<rfloor> + 1" by linarith+
  then show ?thesis by (auto simp: half_even_def Let_def abs_le_iff)
qed

lemma half_even_int [simp]: "half_even (of_int n) = n"
  by (simp add: half_even_def)

lemma round_mag_error:
  assumes "2 powi (- 1022) \<le> x"
  shows "\<bar>round_mag x - x\<bar> \<le> x / 2 ^ 53"
proof -
  have "(0::rat) < 2 powi (- 1022)" by simp
  then have pos: "0 < x" using assms by linarith
  have "(2::rat) powi (- 1022) < 2 powi (exponent x + 1)"
    using assms exponent_bounds(2) [OF pos] by linarith
  then have e: "- 1022 \<le> exponent x"
    using power_int_increasing [of "exponent x + 1" "- 1022" "2::rat"] by linarith
  define u :: rat where "u = 2 powi (exponent x - 52)"
  have u: "0 < u" by (simp add: u_def)
  have r: "round_mag x = of_int (half_even (x / u)) * u"
    using e pos by (simp add: round_mag_def u_def Let_def max_def)
  have "round_mag x - x = (of_int (half_even (x / u)) - x / u) * u"
    using u by (simp add: r left_diff_distrib)
  then have "\<bar>round_mag x - x\<bar> = \<bar>of_int (half_even (x / u)) - x / u\<bar> * u"
    using u by (simp add: abs_mult)
  also have "\<dots> \<le> 1 / 2 * u" using u half_even_error by (intro mult_right_mono) auto
  also have "u = 2 powi exponent x / 2 ^ 52" by (simp add: u_def power_int_diff)
  also have "1 / 2 * (2 powi exponent x / 2 ^ 52) \<le> x / 2 ^ 53"
    using exponent_bounds(1) [OF pos] by simp
  finally show ?thesis .
qed

lemma rnd_approx:
  assumes "2 powi (- 1022) \<le> \<bar>x\<bar>" "\<bar>x\<bar> \<le> 2 ^ 1000"
  shows "\<exists>y. rnd x = Finite y \<and> \<bar>y - x\<bar> \<le> \<bar>x\<bar> / 2 ^ 53"
proof -
  have err: "abs (round_mag \<bar>x\<bar> - \<bar>x\<bar>) \<le> \<bar>x\<bar> / 2 ^ 53" by (rule round_mag_error [OF assms(1)])
  also have "\<dots> \<le> \<bar>x\<bar>" by simp
  finally have "round_mag \<bar>x\<bar> \<le> 2 * 2 ^ 1000" using assms(2) by linarith
  also have "(2::rat) * 2 ^ 1000 < 2 ^ 1024" by simp
  finally have "\<not> 2 ^ 1024 \<le> round_mag \<bar>x\<bar>" by simp
  then have "rnd x = Finite (if x < 0 then - round_mag \<bar>x\<bar> else round_mag \<bar>x\<bar>)"
    by (simp only: rnd_def Let_def if_False)
  moreover have "\<bar>(if x < 0 then - round_mag \<bar>x\<bar> else round_mag \<bar>x\<bar>) - x\<bar> \<le> \<bar>x\<bar> / 2 ^ 53"
    using err by (cases "x < 0") (auto simp: abs_if split: if_splits)
  ultimately show ?thesis by blast
qed

lemma rnd_0 [simp]: "rnd 0 = Finite 0"
  by (simp add: rnd_def round_mag_def)

text \<open>Integers below \<open>2 ^ 53\<close> are exact.\<close>

lemma rnd_int:
  assumes "\<bar>n\<bar> < 2 ^ 53"
  shows "rnd (of_int n) = Finite (of_int n)"
proof (cases "n = 0")
  case False
  define m where "m = \<bar>n\<bar>"
  define x :: rat where "x = of_int m"
  have "1 \<le> m" using False by (simp add: m_def)
  then have x: "1 \<le> x" "0 < x" by (simp_all add: x_def)
  have "x < of_int (2 ^ 53)" using assms unfolding x_def m_def by linarith
  then have "x < 2 ^ 53" by simp
  then have "2 powi exponent x < (2::rat) powi 53" using exponent_bounds(1) [OF x(2)] by simp
  then have e: "exponent x \<le> 52"
    using power_int_increasing [of 53 "exponent x" "2::rat"] by linarith
  have "2 powi 0 < (2::rat) powi (exponent x + 1)" using exponent_bounds(2) [OF x(2)] x(1) by simp
  then have e0: "0 \<le> exponent x"
    using power_int_increasing [of "exponent x + 1" 0 "2::rat"] by linarith
  define k where "k = nat (52 - exponent x)"
  define u :: rat where "u = 2 powi (exponent x - 52)"
  have "exponent x - 52 = - int k" using e by (simp add: k_def)
  then have u: "u = 1 / 2 ^ k" by (simp add: u_def power_int_minus_divide)
  have "x / u = of_int (m * 2 ^ k)" by (simp add: u x_def)
  then have "half_even (x / u) = m * 2 ^ k" by (simp only: half_even_int)
  moreover have "round_mag x = of_int (half_even (x / u)) * u"
    using e0 x by (simp add: round_mag_def u_def Let_def max_def)
  ultimately have "round_mag x = x" by (simp add: u x_def)
  moreover have "\<bar>of_int n\<bar> = x" by (simp add: x_def m_def)
  moreover have "x < 2 ^ 1024" using \<open>x < 2 ^ 53\<close> by (rule less_trans) simp
  ultimately show ?thesis by (auto simp: rnd_def Let_def x_def m_def abs_if split: if_splits)
qed simp

section \<open>Operations\<close>

text \<open>The second operand is a constant of the source, different from zero and positive.\<close>

fun float_mul :: "float64 \<Rightarrow> rat \<Rightarrow> float64" where
  "float_mul (Finite x) y = rnd (x * y)"
| "float_mul z y = z"

fun float_add :: "float64 \<Rightarrow> rat \<Rightarrow> float64" where
  "float_add (Finite x) y = rnd (x + y)"
| "float_add z y = z"

fun float_div :: "float64 \<Rightarrow> rat \<Rightarrow> float64" where
  "float_div (Finite x) y = rnd (x / y)"
| "float_div z y = z"

definition int_to_float :: "int \<Rightarrow> float64" where
  "int_to_float n = rnd (of_int n)"

fun float_to_int :: "float64 \<Rightarrow> int" where
  "float_to_int (Finite x) =
     (let t = (if x < 0 then - \<lfloor>- x\<rfloor> else \<lfloor>x\<rfloor>) in if int64_range t then t else - (2 ^ 63))"
| "float_to_int z = - (2 ^ 63)"

text \<open>\<^verbatim>\<open>%.2f\<close>.\<close>

fun fixed2 :: "float64 \<Rightarrow> string" where
  "fixed2 (Finite x) =
     (let n = nat (half_even (\<bar>x\<bar> * 100))
      in (if x < 0 then ''-'' else '''') @ show_nat (n div 100) @ ''.'' @ two_digits (n mod 100))"
| "fixed2 PosInf = ''+Inf''"
| "fixed2 NegInf = ''-Inf''"
| "fixed2 NaN = ''NaN''"

text \<open>\<^verbatim>\<open>int(x*100 + 0.5)\<close>, by which both bill forms turn dollars into cents, and
  \<^verbatim>\<open>float64(cents)/100\<close>.\<close>

definition dollars_to_cents :: "float64 \<Rightarrow> int" where
  "dollars_to_cents x = float_to_int (float_add (float_mul x 100) (1 / 2))"

definition cents_to_dollars :: "int \<Rightarrow> float64" where
  "cents_to_dollars cents = float_div (int_to_float cents) 100"

section \<open>Amounts survive the conversions\<close>

lemma cents_to_dollars_approx:
  assumes "\<bar>c\<bar> < 2 ^ 53" "c \<noteq> 0"
  shows "\<exists>y. cents_to_dollars c = Finite y \<and> \<bar>y - of_int c / 100\<bar> \<le> \<bar>of_int c\<bar> / 100 / 2 ^ 53"
proof -
  have "1 \<le> \<bar>c\<bar>" using assms(2) by simp
  then have "(1::rat) \<le> \<bar>of_int c\<bar>" by linarith
  then have lo: "1 / 100 \<le> \<bar>of_int c / 100 :: rat\<bar>" by simp
  have "(2::rat) powi (- 1022) \<le> 2 powi (- 7)" by (rule power_int_increasing) simp_all
  also have "\<dots> \<le> 1 / 100" by (simp add: power_int_minus)
  finally have lo': "2 powi (- 1022) \<le> \<bar>of_int c / 100 :: rat\<bar>" using lo by linarith
  have "\<bar>of_int c :: rat\<bar> < of_int (2 ^ 53)" using assms(1) by linarith
  then have "\<bar>of_int c / 100 :: rat\<bar> \<le> 2 ^ 53" by simp
  also have "(2::rat) ^ 53 \<le> 2 ^ 1000" by (rule power_increasing) simp_all
  finally show ?thesis
    using rnd_approx [OF lo'] assms(1)
    by (simp add: cents_to_dollars_def int_to_float_def rnd_int)
qed


lemma half_even_near:
  assumes "\<bar>x - of_int n\<bar> < 1 / 2" shows "half_even x = n"
proof -
  have "\<bar>of_int (half_even x) - x\<bar> \<le> 1 / 2" by (rule half_even_error)
  then have "\<bar>of_int (half_even x) - of_int n :: rat\<bar> < 1" using assms by linarith
  then have "\<bar>half_even x - n\<bar> < 1" by linarith
  then show ?thesis by linarith
qed

lemma fixed2_cents:
  assumes "\<bar>c\<bar> < 2 ^ 51"
  shows "fixed2 (cents_to_dollars c) = render_cents c"
proof (cases "c = 0")
  case True
  then show ?thesis
    by (simp add: cents_to_dollars_def int_to_float_def render_cents_def half_even_def)
next
  case False
  define C :: rat where "C = \<bar>of_int c\<bar>"
  have "1 \<le> \<bar>c\<bar>" using False by simp
  then have "1 \<le> C" "C < of_int (2 ^ 51)" using assms unfolding C_def by linarith+
  then have C: "1 \<le> C" "C < 2 ^ 51" by simp_all
  have "\<bar>c\<bar> < 2 ^ 53" using assms by simp
  from cents_to_dollars_approx [OF this False] obtain y
    where y: "cents_to_dollars c = Finite y" "\<bar>y - of_int c / 100\<bar> \<le> C / 100 / 2 ^ 53"
    by (auto simp: C_def)
  have small: "C / 100 / 2 ^ 53 < 1 / 200" using C(2) by simp
  have sign: "y < 0 \<longleftrightarrow> c < 0"
    using y(2) small C(1) False unfolding C_def by (cases "c < 0") (auto simp: abs_if split: if_splits)
  have "\<bar>\<bar>y\<bar> * 100 - of_int \<bar>c\<bar>\<bar> \<le> C / 2 ^ 53"
    using y(2) sign unfolding C_def by (auto simp: abs_if split: if_splits)
  also have "\<dots> < 1 / 2" using C(2) by simp
  finally have "half_even (\<bar>y\<bar> * 100) = \<bar>c\<bar>" by (rule half_even_near)
  then show ?thesis
    using sign by (simp add: y(1) render_cents_def Let_def)
qed

lemma rnd_approx_mid:
  assumes "1 / 4 \<le> \<bar>x\<bar>" "\<bar>x\<bar> \<le> 2 ^ 60"
  shows "\<exists>y. rnd x = Finite y \<and> \<bar>y - x\<bar> \<le> \<bar>x\<bar> / 2 ^ 53"
proof (rule rnd_approx)
  have "(2::rat) powi (- 1022) \<le> 2 powi (- 2)" by (rule power_int_increasing) simp_all
  also have "\<dots> = 1 / 4" by (simp add: power_int_minus)
  finally show "2 powi (- 1022) \<le> \<bar>x\<bar>" using assms(1) by linarith
  have "(2::rat) ^ 60 \<le> 2 ^ 1000" by (rule power_increasing) simp_all
  then show "\<bar>x\<bar> \<le> 2 ^ 1000" using assms(2) by linarith
qed

lemma dollars_to_cents_dollars:
  assumes "\<bar>c\<bar> < 2 ^ 49"
  shows "dollars_to_cents (cents_to_dollars c) = (if 0 \<le> c then c else c + 1)"
proof (cases "c = 0")
  case True
  obtain h where h: "rnd (1 / 2) = Finite h" "\<bar>h - 1 / 2\<bar> \<le> \<bar>1 / 2\<bar> / 2 ^ 53"
    using rnd_approx_mid [of "1 / 2"] by auto
  then have "0 \<le> h" "\<lfloor>h\<rfloor> = 0" by (auto simp: abs_if floor_eq_iff split: if_splits)
  then show ?thesis
    using True h(1)
    by (simp add: dollars_to_cents_def cents_to_dollars_def int_to_float_def int64_range_def)
next
  case False
  define C :: rat where "C = \<bar>of_int c\<bar>"
  have "1 \<le> \<bar>c\<bar>" using False by simp
  then have "1 \<le> C" "C < of_int (2 ^ 49)" using assms unfolding C_def by linarith+
  then have C: "1 \<le> C" "C < 2 ^ 49" by simp_all
  have "\<bar>c\<bar> < 2 ^ 53" using assms by simp
  from cents_to_dollars_approx [OF this False] obtain y
    where y: "cents_to_dollars c = Finite y" "\<bar>y - of_int c / 100\<bar> \<le> C / 100 / 2 ^ 53"
    by (auto simp: C_def)
  have y100: "\<bar>y * 100 - of_int c\<bar> \<le> C / 2 ^ 53"
    using y(2) by (simp add: abs_le_iff field_simps)
  have c1: "\<bar>of_int c :: rat\<bar> = C" by (simp add: C_def)
  have eps: "C / 2 ^ 53 < 1 / 16" "C / 2 ^ 53 \<le> C" "2 * C + 1 \<le> 2 ^ 60" using C by simp_all
  have m: "1 / 4 \<le> \<bar>y * 100\<bar>" "\<bar>y * 100\<bar> \<le> 2 * C" "\<bar>y * 100\<bar> \<le> 2 ^ 60"
    using y100 C(1) c1 eps by linarith+
  obtain g where g: "rnd (y * 100) = Finite g" "\<bar>g - y * 100\<bar> \<le> \<bar>y * 100\<bar> / 2 ^ 53"
    using rnd_approx_mid [OF m(1,3)] by blast
  have "\<bar>g - of_int c\<bar> \<le> \<bar>g - y * 100\<bar> + \<bar>y * 100 - of_int c\<bar>" by linarith
  also have "\<dots> \<le> \<bar>y * 100\<bar> / 2 ^ 53 + C / 2 ^ 53" by (rule add_mono [OF g(2) y100])
  also have "\<dots> \<le> 2 * C / 2 ^ 53 + C / 2 ^ 53" using m(2) by (intro add_mono divide_right_mono) simp_all
  finally have gc: "\<bar>g - of_int c\<bar> \<le> 3 * C / 2 ^ 53" by (simp add: add_divide_distrib [symmetric])
  have "3 * C / 2 ^ 53 < 1 / 4" using eps(1) by simp
  then have h0: "1 / 4 \<le> \<bar>g + 1 / 2\<bar>" "\<bar>g + 1 / 2\<bar> \<le> 2 * C + 1" "\<bar>g + 1 / 2\<bar> \<le> 2 ^ 60"
    using gc C(1) c1 eps by linarith+
  obtain h where h: "rnd (g + 1 / 2) = Finite h" "\<bar>h - (g + 1 / 2)\<bar> \<le> \<bar>g + 1 / 2\<bar> / 2 ^ 53"
    using rnd_approx_mid [OF h0(1,3)] by blast
  have "\<bar>h - (of_int c + 1 / 2)\<bar> \<le> \<bar>h - (g + 1 / 2)\<bar> + \<bar>g - of_int c\<bar>" by linarith
  also have "\<dots> \<le> \<bar>g + 1 / 2\<bar> / 2 ^ 53 + 3 * C / 2 ^ 53" by (rule add_mono [OF h(2) gc])
  also have "\<dots> \<le> (2 * C + 1) / 2 ^ 53 + 3 * C / 2 ^ 53" using h0(2) by (intro add_mono divide_right_mono) simp_all
  also have "\<dots> = (5 * C + 1) / 2 ^ 53" by (simp add: add_divide_distrib [symmetric])
  also have "\<dots> < 1 / 2" using C(2) by simp
  finally have hc: "\<bar>h - (of_int c + 1 / 2)\<bar> < 1 / 2" .
  have "(if h < 0 then - \<lfloor>- h\<rfloor> else \<lfloor>h\<rfloor>) = (if 0 \<le> c then c else c + 1)"
  proof (cases "0 \<le> c")
    case True
    then have "0 \<le> (of_int c :: rat)" by simp
    then have "0 \<le> h" "\<lfloor>h\<rfloor> = c" using hc by (auto simp: abs_if floor_eq_iff split: if_splits)
    with True show ?thesis by simp
  next
    case neg: False
    then have "(of_int c :: rat) \<le> - 1" by linarith
    then have "h < 0" "\<lfloor>- h\<rfloor> = - c - 1" using hc by (auto simp: abs_if floor_eq_iff split: if_splits)
    with neg show ?thesis by simp
  qed
  moreover have "int64_range (if 0 \<le> c then c else c + 1)"
    using assms by (auto simp: int64_range_def)
  ultimately show ?thesis
    by (simp add: dollars_to_cents_def y(1) g(1) h(1) Let_def)
qed


section \<open>Reading\<close>

text \<open>
  \<^verbatim>\<open>strconv.ParseFloat(s, 64)\<close>: the digits of the mantissa (decimal, or hexadecimal
  after \<^verbatim>\<open>0x\<close>) with the number of those after the point, then the exponent, which
  stops growing at five digits; underscores are skipped and checked at the end.
\<close>

fun scan_mantissa :: "bool \<Rightarrow> bool \<Rightarrow> nat \<Rightarrow> nat \<Rightarrow> nat \<Rightarrow> string \<Rightarrow> nat \<times> nat \<times> nat \<times> string" where
  "scan_mantissa hex dot v nd nf [] = (v, nd, nf, [])"
| "scan_mantissa hex dot v nd nf (c # cs) =
     (if c = CHR ''_'' then scan_mantissa hex dot v nd nf cs
      else if c = CHR ''.'' then
        (if dot then (v, nd, nf, c # cs) else scan_mantissa hex True v nd nf cs)
      else case (if hex then hex_val c else digit_val c) of
        None \<Rightarrow> (v, nd, nf, c # cs)
      | Some d \<Rightarrow> scan_mantissa hex dot ((if hex then 16 else 10) * v + d) (nd + 1)
          (if dot then nf + 1 else nf) cs)"

fun scan_exponent :: "nat \<Rightarrow> string \<Rightarrow> nat \<times> string" where
  "scan_exponent e [] = (e, [])"
| "scan_exponent e (c # cs) =
     (if c = CHR ''_'' then scan_exponent e cs
      else case digit_val c of
        None \<Rightarrow> (e, c # cs)
      | Some d \<Rightarrow> scan_exponent (if e < 10000 then 10 * e + d else e) cs)"

definition read_exponent :: "bool \<Rightarrow> string \<Rightarrow> int option" where
  "read_exponent hex s =
     (case s of
        [] \<Rightarrow> if hex then None else Some 0
      | c # t \<Rightarrow>
          if lower_char c \<noteq> (if hex then CHR ''p'' else CHR ''e'') then None
          else let u = (if t \<noteq> [] \<and> (hd t = CHR ''+'' \<or> hd t = CHR ''-'') then tl t else t)
            in if u = [] \<or> digit_val (hd u) = None then None
               else (case scan_exponent 0 u of (e, rest) \<Rightarrow>
                 if rest \<noteq> [] then None
                 else Some (if hd t = CHR ''-'' then - int e else int e)))"

text \<open>An underscore stands after a digit (or the base prefix) and before a digit.\<close>

fun underscores_ok :: "bool \<Rightarrow> bool \<Rightarrow> bool \<Rightarrow> string \<Rightarrow> bool" where
  "underscores_ok hex dig us [] = (\<not> us)"
| "underscores_ok hex dig us (c # cs) =
     (if digit_val c \<noteq> None \<or> hex \<and> hex_val c \<noteq> None then underscores_ok hex True False cs
      else if c = CHR ''_'' then dig \<and> underscores_ok hex False True cs
      else \<not> us \<and> underscores_ok hex False False cs)"

definition hex_prefix :: "string \<Rightarrow> bool" where
  "hex_prefix s \<longleftrightarrow> 2 < length s \<and> hd s = CHR ''0'' \<and> lower_char (s ! 1) = CHR ''x''"

definition read_magnitude :: "string \<Rightarrow> rat option" where
  "read_magnitude s =
     (let hex = hex_prefix s; body = (if hex then drop 2 s else s) in
      case scan_mantissa hex False 0 0 0 body of (v, nd, nf, rest) \<Rightarrow>
        if nd = 0 then None
        else case read_exponent hex rest of
          None \<Rightarrow> None
        | Some e \<Rightarrow>
            if CHR ''_'' \<in> set s \<and> \<not> underscores_ok hex hex False body then None
            else Some (if hex then of_nat v / 16 ^ nf * 2 powi e else of_nat v / 10 ^ nf * 10 powi e))"

definition ParseFloat :: "string \<Rightarrow> float64 option" where
  "ParseFloat s =
     (let signed = (s \<noteq> [] \<and> (hd s = CHR ''+'' \<or> hd s = CHR ''-''));
          neg = (s \<noteq> [] \<and> hd s = CHR ''-'');
          body = (if signed then tl s else s) in
      if EqualFold body ''inf'' \<or> EqualFold body ''infinity'' then Some (if neg then NegInf else PosInf)
      else if EqualFold s ''nan'' then Some NaN
      else case read_magnitude body of
        None \<Rightarrow> None
      | Some x \<Rightarrow> (case rnd (if neg then - x else x) of Finite y \<Rightarrow> Some (Finite y) | _ \<Rightarrow> None))"


section \<open>Reading back what was printed\<close>

lemma digit_val_letters:
  "digit_val CHR ''_'' = None" "digit_val CHR ''x'' = None" "digit_val CHR ''i'' = None"
  "digit_val CHR ''n'' = None"
  by (simp_all add: digit_val_def)

lemma scan_mantissa_digits:
  "all_digits s \<Longrightarrow> scan_mantissa False dot v nd nf (s @ t) =
     scan_mantissa False dot (v * 10 ^ length s + digits_value s) (nd + length s)
       (if dot then nf + length s else nf) t"
proof (induction s arbitrary: v nd nf)
  case Nil
  then show ?case by (simp add: digits_value_def)
next
  case (Cons c s)
  then obtain d where d: "digit_val c = Some d" by auto
  then have "c \<noteq> CHR ''_''" "c \<noteq> CHR ''.''" by (auto simp: digit_val_cases digit_val_letters)
  moreover have "digits_value (c # s) = d * 10 ^ length s + digits_value s"
    using digits_value_append [of "[c]" s] Cons.prems d by (simp add: digits_value_def)
  ultimately show ?case
    using Cons d by (simp add: algebra_simps)
qed

lemma read_magnitude_numeral:
  assumes "all_digits ws" "ws \<noteq> []" "all_digits fs" "fs \<noteq> []"
  shows "read_magnitude (ws @ ''.'' @ fs) = Some (of_nat (digits_value (ws @ fs)) / 10 ^ length fs)"
proof -
  have "lower_char c \<noteq> CHR ''x''" if "digit_val c \<noteq> None \<or> c = CHR ''.''" for c
    using that lower_digit [of c] digit_val_letters(2) by (cases "c = CHR ''.''") (simp add: lower_char_def, force)
  then have "\<not> hex_prefix (ws @ ''.'' @ fs)"
    using assms by (cases ws; cases "tl ws") (auto simp: hex_prefix_def)
  moreover have "CHR ''_'' \<notin> set (ws @ ''.'' @ fs)"
    using assms(1,3) by (auto simp: all_digits_def list_all_iff digit_val_letters)
  moreover have "scan_mantissa False False 0 0 0 (ws @ ''.'' @ fs) =
      (digits_value (ws @ fs), length ws + length fs, length fs, [])"
    using assms scan_mantissa_digits [of ws False 0 0 0 "''.'' @ fs"]
      scan_mantissa_digits [of fs True "digits_value ws" "length ws" 0 "[]"]
    by (simp add: digits_value_append)
  ultimately show ?thesis
    using assms by (simp add: read_magnitude_def read_exponent_def Let_def)
qed



text \<open>The text \<^verbatim>\<open>%.2f\<close> gives for an amount reads back as the very value it was printed from.\<close>

lemma ParseFloat_cents:
  assumes "\<bar>c\<bar> < 2 ^ 53"
  shows "ParseFloat (render_cents c) = Some (cents_to_dollars c)"
proof -
  define ws fs where "ws = show_nat (nat \<bar>c\<bar> div 100)" and "fs = two_digits (nat \<bar>c\<bar> mod 100)"
  have d: "all_digits ws" "ws \<noteq> []" "all_digits fs" "fs \<noteq> []" "length fs = 2"
    by (simp_all add: ws_def fs_def)
  have "digits_value (ws @ fs) = nat \<bar>c\<bar>"
    using d by (simp add: digits_value_append) (simp add: ws_def fs_def)
  then have mag: "read_magnitude (ws @ ''.'' @ fs) = Some (\<bar>of_int c\<bar> / 100)"
    using read_magnitude_numeral [OF d(1-4)] d(5) by simp
  obtain x xs where x: "ws = x # xs" "digit_val x \<noteq> None" using d(1,2) by (cases ws) auto
  then have lx: "lower_char x = x" "x \<notin> {CHR ''i'', CHR ''n'', CHR ''+'', CHR ''-''}"
    by (auto simp: lower_digit digit_val_letters digit_val_cases)
  then have names: "\<not> EqualFold (ws @ ''.'' @ fs) ''inf''" "\<not> EqualFold (ws @ ''.'' @ fs) ''infinity''"
      "\<not> EqualFold (ws @ ''.'' @ fs) ''nan''" "\<not> EqualFold (CHR ''-'' # ws @ ''.'' @ fs) ''nan''"
    using x(1) by (auto simp: EqualFold_def lower_char_def Let_def split: if_splits)
  have val: "cents_to_dollars c = rnd (of_int c / 100)"
    using assms by (simp add: cents_to_dollars_def int_to_float_def rnd_int)
  have fin: "\<exists>y. rnd (of_int c / 100) = Finite y"
    using cents_to_dollars_approx [OF assms] by (cases "c = 0") (auto simp: val)
  have "render_cents c = (if c < 0 then ''-'' else '''') @ ws @ ''.'' @ fs"
    by (simp add: render_cents_def ws_def fs_def)
  then show ?thesis
    using mag names lx(2) x(1) fin by (cases "c < 0") (auto simp: ParseFloat_def val)
qed


end
