(* ===== verification/View.thy ===== *)
theory View
  imports Scheduler Go_Float
begin

text \<open>
  The kiosk page of \<^verbatim>\<open>internal/handlers/view.go\<close>: the data its template is given, and the
  handler. The template itself is an argument.
\<close>

section \<open>Amounts\<close>

definition formatCents :: "int \<Rightarrow> string" where
  "formatCents cents = ''$'' @ fixed2 (cents_to_dollars cents)"

definition formatCentsPlain :: "int \<Rightarrow> string" where
  "formatCentsPlain cents = fixed2 (cents_to_dollars cents)"

section \<open>The page\<close>

definition viewLookaheadDays :: int where "viewLookaheadDays = 60"

record viewBillRow =
  vb_Name :: string
  vb_Amount :: string
  vb_Due :: time
  vb_Overdue :: bool

record viewAccountRow =
  va_Name :: string
  va_OrgName :: string
  va_Balance :: string
  va_IsCredit :: bool

record viewData =
  vd_Bills :: "viewBillRow list"
  vd_Accounts :: "viewAccountRow list"
  vd_SimpleFinConnected :: bool

definition null_string :: "string option \<Rightarrow> string" where
  "null_string x = (case x of None \<Rightarrow> '''' | Some s \<Rightarrow> s)"

definition view_bill :: "time \<Rightarrow> BillInstanceView \<Rightarrow> viewBillRow" where
  "view_bill today inst = \<lparr>vb_Name = v_Name inst, vb_Amount = formatCents (v_AmountCents inst),
     vb_Due = v_DueDate inst, vb_Overdue = Before (v_DueDate inst) today\<rparr>"

definition view_account :: "Account \<Rightarrow> viewAccountRow" where
  "view_account acc = \<lparr>va_Name = EffectiveName acc, va_OrgName = null_string (acc_OrgName acc),
     va_Balance = formatCents (acc_BalanceCents acc), va_IsCredit = IsCredit acc\<rparr>"

text \<open>Bank accounts come first, credit accounts after them, each in the order of the query.\<close>

definition banks_first :: "('r \<Rightarrow> bool) \<Rightarrow> 'r list \<Rightarrow> 'r list" where
  "banks_first credit rows = filter (\<lambda>r. \<not> credit r) rows @ filter credit rows"

definition view_data :: "tz \<Rightarrow> time \<Rightarrow> viewData dbm" where
  "view_data tz now s =
     (let today = time_Date tz (Year tz now) (Month tz now) (Day tz now) 0 0 0 0 (time_loc now);
          until = AddDate tz today 0 0 viewLookaheadDays
      in case BillInstanceStore_ListUpcomingUnpaid tz until s of
        (Inl e, s1) \<Rightarrow> (Inl e, s1)
      | (Inr instances, s1) \<Rightarrow>
          let data = \<lparr>vd_Bills = map (view_bill today) instances, vd_Accounts = [],
                vd_SimpleFinConnected = False\<rparr>
          in case SimpleFinConnectionStore_Get s1 of
            (Inl e, s2) \<Rightarrow> (Inr data, s2)
          | (Inr conn, s2) \<Rightarrow>
              (case AccountStore_ListVisible s2 of
                 (Inl e, s3) \<Rightarrow> (Inr (data\<lparr>vd_SimpleFinConnected := True\<rparr>), s3)
               | (Inr accounts, s3) \<Rightarrow>
                   (Inr (data\<lparr>vd_Accounts := banks_first va_IsCredit (map view_account accounts),
                      vd_SimpleFinConnected := True\<rparr>), s3)))"

definition View :: "env \<Rightarrow> viewData template \<Rightarrow> handler" where
  "View E tmpl r s =
     (case view_data (env_tz E) (env_now E) s of
        (Inl e, s') \<Rightarrow> (http_Error (error_text e) 500, s')
      | (Inr data, s') \<Rightarrow> (execute_template tmpl data, s'))"

section \<open>What the page shows\<close>

lemma setcompr2_cong:
  assumes "\<And>x y. P x y \<Longrightarrow> f x y = g x y"
  shows "{f x y | x y. P x y} = {g x y | x y. P x y}"
  using assms by metis


lemma formatCents_exact: "\<bar>c\<bar> < 2 ^ 51 \<Longrightarrow> formatCents c = ''$'' @ render_cents c"
  by (simp add: formatCents_def fixed2_cents)

lemma banks_first_sorted: "sorted_wrt (\<lambda>x y. credit x \<longrightarrow> credit y) (banks_first credit rows)"
proof -
  have "sorted_wrt (\<lambda>x y. credit x \<longrightarrow> credit y) (filter (\<lambda>r. \<not> credit r) rows)"
    "sorted_wrt (\<lambda>x y. credit x \<longrightarrow> credit y) (filter credit rows)"
    by (induction rows) auto
  then show ?thesis by (auto simp: banks_first_def sorted_wrt_append)
qed

text \<open>A due date is UTC midnight of its day, \<open>today\<close> is local midnight.\<close>

lemma midnights_less:
  fixes a b e off x y :: int
  assumes "y + off = (b - e) * 86400" "x = (a - e) * 86400" "\<bar>off\<bar> < 86400"
  shows "x < y \<longleftrightarrow> a < b \<or> a = b \<and> off < 0"
proof (cases a b rule: linorder_cases)
  case less
  then have "x < y" using assms by (simp only: left_diff_distrib)
  with less show ?thesis by simp
next
  case equal
  then have "x < y \<longleftrightarrow> off < 0" using assms by auto
  with equal show ?thesis by simp
next
  case greater
  then have "\<not> x < y" using assms by (simp only: left_diff_distrib)
  with greater show ?thesis by simp
qed

lemma overdue_iff:
  assumes "regular_location tz l" "valid_date d" "valid_date t"
    and off: "off = zone_offset (lookup tz l (time_sec (local_midnight tz l t)))" "\<bar>off\<bar> < 86400"
  shows "Before (local_midnight tz UTC d) (local_midnight tz l t) \<longleftrightarrow> d < t \<or> d = t \<and> off < 0"
proof -
  have mid: "local_midnight tz l' e = day_start tz l' (day_number e)" for l' e
    by (simp add: local_midnight_def time_Date_midnight day_number_def)
  have "local_sec tz (local_midnight tz l t) = (day_number t - unix_epoch_day) * 86400"
    using assms(1) by (simp add: mid regular_location_def)
  then have "time_sec (local_midnight tz l t) + off = (day_number t - unix_epoch_day) * 86400"
    by (simp add: local_sec_def off(1) mid)
  moreover have "time_sec (local_midnight tz UTC d) = (day_number d - unix_epoch_day) * 86400"
    by (simp add: mid day_start_def resolve_def Let_def)
  ultimately have "time_sec (local_midnight tz UTC d) < time_sec (local_midnight tz l t) \<longleftrightarrow>
      day_number d < day_number t \<or> day_number d = day_number t \<and> off < 0"
    by (rule midnights_less [OF _ _ off(2)])
  then show ?thesis
    using assms(2,3) day_number_less_iff [of d t] day_number_inj [of d t]
    by (auto simp: Before_def mid)
qed

text \<open>The offset of the zone at the start of the day of an instant.\<close>

definition day_offset :: "tz \<Rightarrow> time \<Rightarrow> int" where
  "day_offset tz now =
     zone_offset (lookup tz (time_loc now) (time_sec (local_midnight tz (time_loc now) (time_date tz now))))"

lemma view_bill_row:
  assumes "db_ok s" "regular_location tz (time_loc now)" "\<bar>day_offset tz now\<bar> < 86400"
    and "i \<in> set (bt_bill_instances s)" "d \<in> set (bt_bill_definitions s)"
  shows "view_bill (local_midnight tz (time_loc now) (time_date tz now)) (instance_view tz i d) =
      \<lparr>vb_Name = bd_Name d, vb_Amount = ''$'' @ render_cents (bd_AmountCents d),
        vb_Due = local_midnight tz UTC (bi_DueDate i),
        vb_Overdue = (bi_DueDate i < time_date tz now \<or>
          bi_DueDate i = time_date tz now \<and> day_offset tz now < 0)\<rparr>"
proof -
  have "valid_date (bi_DueDate i)" "int4 (bd_AmountCents d)"
    using assms(1,4,5) by (auto simp: db_ok_def instances_ok_def definitions_ok_def)
  moreover from this have "\<bar>bd_AmountCents d\<bar> < 2 ^ 51" by (auto simp: int4_def)
  ultimately show ?thesis
    using overdue_iff [where d = "bi_DueDate i" and t = "time_date tz now", OF assms(2) _ time_date_valid refl]
      assms(3)
    by (simp add: view_bill_def instance_view_def formatCents_exact day_offset_def)
qed

text \<open>
  C26. The kiosk page lists, by due date, every unpaid bill due within sixty days of
  today, however long ago it fell due, with its exact amount in dollars and cents;
  balances appear exactly when a connection is stored, for the visible accounts, bank
  accounts first. A bill is marked overdue from the day after its due date, but west
  of Greenwich already on the due date itself.
\<close>

theorem view_data_exact:
  assumes "db_ok s" "db_faults s = []" "regular_location tz (time_loc now)" "\<bar>day_offset tz now\<bar> < 86400"
  shows "\<exists>data. view_data tz now s = (Inr data, s) \<and>
    sorted (map (\<lambda>b. time_date tz (vb_Due b)) (vd_Bills data)) \<and>
    set (vd_Bills data) =
      {\<lparr>vb_Name = bd_Name d, vb_Amount = ''$'' @ render_cents (bd_AmountCents d),
        vb_Due = local_midnight tz UTC (bi_DueDate i),
        vb_Overdue = (bi_DueDate i < time_date tz now \<or>
          bi_DueDate i = time_date tz now \<and> day_offset tz now < 0)\<rparr> | i d.
        i \<in> set (bt_bill_instances s) \<and> \<not> bi_Paid i \<and> bi_DueDate i \<le> window_end tz now 60 \<and>
        d \<in> set (bt_bill_definitions s) \<and> bd_ID d = bi_BillDefinitionID i} \<and>
    (vd_SimpleFinConnected data \<longleftrightarrow> bt_simplefin_connection s \<noteq> []) \<and>
    set (vd_Accounts data) = (if bt_simplefin_connection s = [] then {}
      else view_account ` {a \<in> set (bt_accounts s). acc_Visible a}) \<and>
    sorted_wrt (\<lambda>x y. va_IsCredit x \<longrightarrow> va_IsCredit y) (vd_Accounts data)"
proof -
  let ?l = "time_loc now"
  let ?p = "\<lambda>i. bi_Paid i = False \<and> bi_DueDate i \<le> window_end tz now 60"
  have lc: "local_calendar tz ?l" using assms(3) by (simp add: regular_location_iff)
  have today: "time_Date tz (Year tz now) (Month tz now) (Day tz now) 0 0 0 0 ?l =
      local_midnight tz ?l (time_date tz now)"
    by (simp add: local_midnight_def)
  have until: "time_date tz (AddDate tz (local_midnight tz ?l (time_date tz now)) 0 0 60) = window_end tz now 60"
    unfolding local_midnight_def midnight_of_date
    by (simp add: local_calendar.AddDate_days [OF lc] local_calendar.day_start_date [OF lc] window_end_def)
  define bills where "bills = map (view_bill (local_midnight tz ?l (time_date tz now))) (instance_views tz ?p s)"
  define data where "data = \<lparr>vd_Bills = bills, vd_Accounts = (if bt_simplefin_connection s = [] then []
      else banks_first va_IsCredit (map view_account
        (sort_by (pg_collate s) acc_Name (filter acc_Visible (bt_accounts s))))),
    vd_SimpleFinConnected = (bt_simplefin_connection s \<noteq> [])\<rparr>"
  have run: "view_data tz now s = (Inr data, s)"
    using assms(2)
    by (simp add: view_data_def today until BillInstanceStore_ListUpcomingUnpaid_def sql_up Let_def
        viewLookaheadDays_def SimpleFinConnectionStore_Get_def AccountStore_ListVisible_def data_def bills_def
        split: list.split)

  have order: "sorted (map (\<lambda>b. time_date tz (vb_Due b)) bills)"
    using instance_views_sorted [OF assms(1), of tz ?p] by (simp add: bills_def view_bill_def comp_def)
  have "set bills = {view_bill (local_midnight tz ?l (time_date tz now)) (instance_view tz i d) | i d.
      i \<in> set (bt_bill_instances s) \<and> \<not> bi_Paid i \<and> bi_DueDate i \<le> window_end tz now 60 \<and>
      d \<in> set (bt_bill_definitions s) \<and> bd_ID d = bi_BillDefinitionID i}"
    by (auto simp: bills_def set_instance_views)
  also have "\<dots> = {\<lparr>vb_Name = bd_Name d, vb_Amount = ''$'' @ render_cents (bd_AmountCents d),
        vb_Due = local_midnight tz UTC (bi_DueDate i),
        vb_Overdue = (bi_DueDate i < time_date tz now \<or>
          bi_DueDate i = time_date tz now \<and> day_offset tz now < 0)\<rparr> | i d.
      i \<in> set (bt_bill_instances s) \<and> \<not> bi_Paid i \<and> bi_DueDate i \<le> window_end tz now 60 \<and>
      d \<in> set (bt_bill_definitions s) \<and> bd_ID d = bi_BillDefinitionID i}"
    by (rule setcompr2_cong) (use view_bill_row [OF assms(1,3,4)] in blast)
  finally have rows: "set bills = \<dots>" .
  have "set (vd_Accounts data) = (if bt_simplefin_connection s = [] then {}
      else view_account ` {a \<in> set (bt_accounts s). acc_Visible a})"
    by (auto simp: data_def banks_first_def)
  moreover have "sorted_wrt (\<lambda>x y. va_IsCredit x \<longrightarrow> va_IsCredit y) (vd_Accounts data)"
    by (simp add: data_def banks_first_sorted)
  moreover have "vd_Bills data = bills" "vd_SimpleFinConnected data \<longleftrightarrow> bt_simplefin_connection s \<noteq> []"
    by (simp_all add: data_def)
  ultimately show ?thesis
    using run order rows by (intro exI [of _ data]) simp
qed

theorem view_data_exact_witness:
  "let tz = fixed_tz (- 18000); now = \<lparr>time_sec = 1772298000, time_nsec = 0, time_loc = Local\<rparr> in
   time_date tz now = Date 2026 2 28 \<and>
   (\<exists>data. view_data tz now sample_db = (Inr data, sample_db) \<and>
      \<lparr>vb_Name = ''Electric'', vb_Amount = ''$128.43'', vb_Due = local_midnight tz UTC (Date 2026 2 28),
       vb_Overdue = True\<rparr> \<in> set (vd_Bills data))"
proof -
  let ?tz = "fixed_tz (- 18000)" and ?now = "\<lparr>time_sec = 1772298000, time_nsec = 0, time_loc = Local\<rparr>"
  have day: "time_date ?tz ?now = Date 2026 2 28" by code_simp
  have off: "day_offset ?tz ?now = - 18000" by (simp add: day_offset_def lookup_def)
  have up: "db_faults sample_db = []" by (simp add: sample_db_def empty_db_def)
  have reg: "regular_location ?tz (time_loc ?now)" by (simp add: regular_fixed_tz)
  have last: "Date 2026 2 28 \<le> window_end ?tz ?now 60" by code_simp
  have amount: "render_cents 12843 = ''128.43''"
    by (simp add: render_cents_def show_nat.simps two_digits_def)
  have "\<bar>day_offset ?tz ?now\<bar> < 86400" by (simp add: off)
  from view_data_exact [OF sample_db_ok up reg this] obtain data
    where data: "view_data ?tz ?now sample_db = (Inr data, sample_db)"
      and rows: "set (vd_Bills data) =
      {\<lparr>vb_Name = bd_Name d, vb_Amount = ''$'' @ render_cents (bd_AmountCents d),
        vb_Due = local_midnight ?tz UTC (bi_DueDate i),
        vb_Overdue = (bi_DueDate i < time_date ?tz ?now \<or>
          bi_DueDate i = time_date ?tz ?now \<and> day_offset ?tz ?now < 0)\<rparr> | i d.
        i \<in> set (bt_bill_instances sample_db) \<and> \<not> bi_Paid i \<and> bi_DueDate i \<le> window_end ?tz ?now 60 \<and>
        d \<in> set (bt_bill_definitions sample_db) \<and> bd_ID d = bi_BillDefinitionID i}"
    by blast
  have "\<lparr>vb_Name = ''Electric'', vb_Amount = ''$128.43'', vb_Due = local_midnight ?tz UTC (Date 2026 2 28),
       vb_Overdue = True\<rparr> \<in> set (vd_Bills data)"
    unfolding rows day off using last
    by (force simp: sample_db_def day31_bill_def amount)
  with data day show ?thesis by (simp add: Let_def)
qed


end
