(* ===== verification/Events.thy ===== *)
theory Events
  imports View
begin

text \<open>
  The calendar feed and its button (\<^verbatim>\<open>internal/handlers/events.go\<close>): unpaid bills as
  events, and the action the host posts back when somebody taps \<^verbatim>\<open>Mark Paid\<close>.
\<close>

section \<open>The feed\<close>

record eventActionOut =
  ea_ID :: string
  ea_Label :: string
  ea_RequiresParent :: bool

record eventOut =
  ev_UID :: string
  ev_Summary :: string
  ev_Location :: string
  ev_Description :: string
  ev_StartsAt :: time
  ev_EndsAt :: time
  ev_AllDay :: bool
  ev_Actions :: "eventActionOut list"

definition markPaidActions :: "eventActionOut list" where
  "markPaidActions = [\<lparr>ea_ID = ''mark_paid'', ea_Label = ''Mark Paid'', ea_RequiresParent = True\<rparr>]"

definition bill_event :: "tz \<Rightarrow> BillInstanceView \<Rightarrow> eventOut" where
  "bill_event tz inst =
     (let due = time_Date tz (Year tz (v_DueDate inst)) (Month tz (v_DueDate inst))
            (Day tz (v_DueDate inst)) 0 0 0 0 Local
      in \<lparr>ev_UID = ''bill-instance-'' @ Itoa (v_InstanceID inst),
          ev_Summary = v_Name inst @ '' bill due ('' @ formatCents (v_AmountCents inst) @ '')'',
          ev_Location = '''', ev_Description = '''', ev_StartsAt = due, ev_EndsAt = add_24h due,
          ev_AllDay = True, ev_Actions = markPaidActions\<rparr>)"

text \<open>The JSON of the structs; \<^verbatim>\<open>omitempty\<close> leaves out a false flag and an empty list.\<close>

definition action_json :: "eventActionOut \<Rightarrow> string" where
  "action_json a = json_object ([(''id'', json_quote (ea_ID a)), (''label'', json_quote (ea_Label a))] @
     (if ea_RequiresParent a then [(''requires_parent'', ''true'')] else []))"

definition event_json :: "tz \<Rightarrow> eventOut \<Rightarrow> string option" where
  "event_json tz e =
     (case (time_json tz (ev_StartsAt e), time_json tz (ev_EndsAt e)) of
        (Some starts, Some ends) \<Rightarrow> Some (json_object
          ([(''uid'', json_quote (ev_UID e)), (''summary'', json_quote (ev_Summary e)),
            (''location'', json_quote (ev_Location e)), (''description'', json_quote (ev_Description e)),
            (''starts_at'', starts), (''ends_at'', ends), (''all_day'', json_bool (ev_AllDay e))] @
           (if ev_Actions e = [] then []
            else [(''actions'', json_array (map action_json (ev_Actions e)))])))
      | _ \<Rightarrow> None)"

text \<open>When one event cannot be encoded nothing is written, and the error is dropped.\<close>

definition events_reply :: "tz \<Rightarrow> eventOut list \<Rightarrow> response" where
  "events_reply tz es =
     (if \<exists>e \<in> set es. event_json tz e = None
      then \<lparr>resp_Status = 200, resp_Header = [(''Content-Type'', ''application/json'')], resp_Body = ''''\<rparr>
      else json_reply (json_object [(''events'', json_array (map (the \<circ> event_json tz) es))]))"

definition Events :: "env \<Rightarrow> handler" where
  "Events E r s =
     (let tz = env_tz E; bad = http_Error ''from/to query params must be YYYY-MM-DD'' 400 in
      case ParseInLocation tz layout_iso (req_Query r ''from'') UTC of
        Inl e \<Rightarrow> (bad, s)
      | Inr _ \<Rightarrow>
          (case ParseInLocation tz layout_iso (req_Query r ''to'') UTC of
             Inl e \<Rightarrow> (bad, s)
           | Inr to \<Rightarrow>
               (case BillInstanceStore_ListUpcomingUnpaid tz to s of
                  (Inl e, s') \<Rightarrow> (http_Error (error_text e) 500, s')
                | (Inr instances, s') \<Rightarrow> (events_reply tz (map (bill_event tz) instances), s'))))"

section \<open>The action\<close>

text \<open>
  \<^verbatim>\<open>fmt.Sscanf(s, "bill-instance-%d", &n)\<close>: the literal, then blanks but no line break,
  a sign and at least one digit; what follows the digits is not looked at.
\<close>

definition scan_int :: "string \<Rightarrow> int option" where
  "scan_int s =
     (let t = TrimLeftSpace s; blanks = take (length s - length t) s;
          sign = (if t \<noteq> [] \<and> (hd t = CHR ''+'' \<or> hd t = CHR ''-'') then [hd t] else []);
          digits = takeWhile is_digit (drop (length sign) t)
      in if CHR 0x0A \<in> set blanks \<or> digits = [] then None else ParseInt (sign @ digits))"

definition scan_uid :: "string \<Rightarrow> int option" where
  "scan_uid s = (if HasPrefix s ''bill-instance-'' then scan_int (drop 14 s) else None)"

text \<open>The body of the request has one field.\<close>

definition decode_actionIn :: "json \<Rightarrow> (string, string) result" where
  [simp]: "decode_actionIn v = decode_struct [(''uid'', decode_string (\<lambda>x _. x))] v ''''"

definition Action :: handler where
  "Action r s =
     (if req_PathValue r ''id'' \<noteq> ''mark_paid'' then (http_NotFound, s)
      else case (case req_Json r of Inl e \<Rightarrow> Inl e
            | Inr v \<Rightarrow> decode_actionIn v) of
        Inl e \<Rightarrow> (http_Error ''invalid request body'' 400, s)
      | Inr uid \<Rightarrow>
          (case scan_uid uid of
             None \<Rightarrow> (http_Error ''unrecognized event uid'' 400, s)
           | Some instanceID \<Rightarrow>
               (case BillInstanceStore_MarkPaid instanceID s of
                  (Inl e, s') \<Rightarrow> (http_Error (''marking paid: '' @ error_text e) 500, s')
                | (Inr _, s') \<Rightarrow> (http_OK, s'))))"

definition Healthz :: handler where
  "Healthz r s = (http_OK, s)"

section \<open>A tap marks its own bill\<close>

lemma takeWhile_digits: "all_digits s \<Longrightarrow> takeWhile is_digit s = s"
  by (simp add: takeWhile_eq_all_conv all_digits_def list_all_iff is_digit_def)

lemma scan_uid_Itoa:
  assumes "int64_range n" shows "scan_uid (''bill-instance-'' @ Itoa n) = Some n"
proof -
  define ds where "ds = show_nat (nat \<bar>n\<bar>)"
  obtain d where d: "d < 10" "hd ds = digit_char d" using hd_show_nat [of "nat \<bar>n\<bar>"] ds_def by blast
  have ds: "all_digits ds" "ds \<noteq> []" "plain_char (hd ds)" "hd ds \<noteq> CHR ''+''" "hd ds \<noteq> CHR ''-''"
    using digit_char_neq [OF d(1)] plain_digit_char [OF d(1)] unfolding d(2)
    by (simp_all add: ds_def show_nat_nonempty)
  have Itoa: "Itoa n = (if n < 0 then CHR ''-'' # ds else ds)" by (simp add: Itoa_def ds_def)
  have "TrimLeftSpace (Itoa n) = Itoa n"
    by (rule TrimLeftSpace_plain) (simp add: Itoa ds)
  then show ?thesis
    using ParseInt_Itoa [OF assms] ds
    by (auto simp: scan_uid_def scan_int_def HasPrefix_def takeWhile_digits Let_def Itoa split: if_splits)
qed

definition event_uid :: "int \<Rightarrow> string" where
  "event_uid n = ''bill-instance-'' @ Itoa n"

text \<open>The request the host posts when the button of an event is tapped.\<close>

definition tap :: "string \<Rightarrow> request \<Rightarrow> bool" where
  "tap uid r \<longleftrightarrow> req_PathValue r ''id'' = ''mark_paid'' \<and> req_Json r = Inr (JObj [(''uid'', JStr uid)])"

lemma Action_tap:
  assumes "tap uid r" "scan_uid uid = Some n"
  shows "Action r s = (case BillInstanceStore_MarkPaid n s of
      (Inl e, s') \<Rightarrow> (http_Error (''marking paid: '' @ error_text e) 500, s')
    | (Inr _, s') \<Rightarrow> (http_OK, s'))"
  using assms by (simp add: Action_def tap_def decode_struct_def decode_key_def decode_string_def EqualFold_def)

lemma MarkPaid_run:
  assumes "db_faults s = []" "int4 (bi_ID i)" "i \<in> set (bt_bill_instances s)"
  shows "BillInstanceStore_MarkPaid (bi_ID i) s = (Inr (), s\<lparr>bt_bill_instances :=
    update_where (\<lambda>j. bi_ID j = bi_ID i) (\<lambda>j. j\<lparr>bi_Paid := True, bi_PaidAt := Some (db_now s)\<rparr>)
      (bt_bill_instances s)\<rparr>)"
proof -
  have "filter (\<lambda>j. bi_ID j = bi_ID i) (bt_bill_instances s) \<noteq> []"
    using assms(3) by (auto simp: filter_empty_conv)
  then show ?thesis
    using assms(1,2) by (simp add: BillInstanceStore_MarkPaid_def sql_up Let_def)
qed

text \<open>What the feed offers for a list of instances, and which instances are unpaid.\<close>

definition unpaid :: "db \<Rightarrow> BillInstance set" where
  "unpaid s = {i \<in> set (bt_bill_instances s). \<not> bi_Paid i}"

lemma unpaid_MarkPaid:
  assumes "instances_ok s" "i \<in> set (bt_bill_instances s)"
  shows "unpaid (s\<lparr>bt_bill_instances := update_where (\<lambda>j. bi_ID j = bi_ID i)
    (\<lambda>j. j\<lparr>bi_Paid := True, bi_PaidAt := t\<rparr>) (bt_bill_instances s)\<rparr>) = unpaid s - {i}"
proof -
  have "distinct (map bi_ID (bt_bill_instances s))" using assms(1) by (simp add: instances_ok_def keys_ok_def)
  then have "bi_ID j = bi_ID i \<longleftrightarrow> j = i" if "j \<in> set (bt_bill_instances s)" for j
    using that assms(2) by (metis distinct_map inj_onD)
  then have "(\<lambda>j. if bi_ID j = bi_ID i then j\<lparr>bi_Paid := True, bi_PaidAt := t\<rparr> else j) ` set (bt_bill_instances s) =
      (\<lambda>j. if j = i then i\<lparr>bi_Paid := True, bi_PaidAt := t\<rparr> else j) ` set (bt_bill_instances s)"
    by (intro image_cong refl) simp
  moreover have "i = i\<lparr>bi_Paid := True, bi_PaidAt := t\<rparr> \<Longrightarrow> bi_Paid i" by (cases i) simp
  ultimately show ?thesis by (auto simp: unpaid_def set_update_where)
qed

section \<open>Properties of the feed\<close>

text \<open>
  C25. The feed and its button belong together. For a well-formed query the feed offers
  an event for exactly the unpaid bills due up to the day asked for (starting at local
  midnight of the due day), and posting the event's identifier back marks exactly that
  bill's instance paid: every other unpaid bill stays unpaid.
\<close>

theorem Events_Action_contract:
  assumes "db_ok s" "db_faults s = []"
    and "ParseInLocation (env_tz E) layout_iso (req_Query q ''from'') UTC = Inr from"
    and "ParseInLocation (env_tz E) layout_iso (req_Query q ''to'') UTC = Inr to"
  shows "\<exists>es. Events E q s = (events_reply (env_tz E) es, s) \<and>
    (\<lambda>e. (ev_UID e, ev_StartsAt e)) ` set es =
      {(event_uid (bi_ID i), local_midnight (env_tz E) Local (bi_DueDate i)) | i.
        i \<in> unpaid s \<and> bi_DueDate i \<le> time_date (env_tz E) to} \<and>
    (\<forall>i \<in> unpaid s. \<forall>r. tap (event_uid (bi_ID i)) r \<longrightarrow>
      fst (Action r s) = http_OK \<and> unpaid (snd (Action r s)) = unpaid s - {i})"
proof -
  let ?tz = "env_tz E"
  let ?p = "\<lambda>i. bi_Paid i = False \<and> bi_DueDate i \<le> time_date ?tz to"
  define es where "es = map (bill_event ?tz) (instance_views ?tz ?p s)"
  have run: "Events E q s = (events_reply ?tz es, s)"
    using assms(2-4)
    by (simp add: Events_def Let_def BillInstanceStore_ListUpcomingUnpaid_def sql_up es_def)
  have ok: "instances_ok s" "definitions_ok s" using assms(1) by (simp_all add: db_ok_def)
  have "map (\<lambda>v. (ev_UID (bill_event ?tz v), ev_StartsAt (bill_event ?tz v))) (instance_views ?tz ?p s) =
      map (\<lambda>i. (event_uid (bi_ID i), local_midnight ?tz Local (time_date ?tz (local_midnight ?tz UTC (bi_DueDate i)))))
        (sort_by (\<le>) bi_DueDate (filter ?p (bt_bill_instances s)))"
    by (rule map_instance_views [OF assms(1)])
      (simp add: bill_event_def instance_view_def event_uid_def Let_def local_midnight_def [of ?tz Local])
  from arg_cong [OF this, of set, unfolded set_map set_sort_by set_filter]
  have "(\<lambda>e. (ev_UID e, ev_StartsAt e)) ` set es =
      (\<lambda>i. (event_uid (bi_ID i), local_midnight ?tz Local (time_date ?tz (local_midnight ?tz UTC (bi_DueDate i))))) `
        {i \<in> set (bt_bill_instances s). ?p i}"
    by (simp only: es_def set_map image_image)
  also have "\<dots> = (\<lambda>i. (event_uid (bi_ID i), local_midnight ?tz Local (bi_DueDate i))) `
      {i \<in> set (bt_bill_instances s). ?p i}"
    by (rule image_cong [OF refl]) (use ok(1) in \<open>simp add: instances_ok_def\<close>)
  finally have "(\<lambda>e. (ev_UID e, ev_StartsAt e)) ` set es =
      {(event_uid (bi_ID i), local_midnight ?tz Local (bi_DueDate i)) | i.
        i \<in> unpaid s \<and> bi_DueDate i \<le> time_date ?tz to}"
    by (simp add: unpaid_def image_def) blast
  moreover have "fst (Action r s) = http_OK \<and> unpaid (snd (Action r s)) = unpaid s - {i}"
    if "i \<in> unpaid s" "tap (event_uid (bi_ID i)) r" for i r
  proof -
    have i: "i \<in> set (bt_bill_instances s)" using that(1) by (simp add: unpaid_def)
    then have id4: "int4 (bi_ID i)" using ok(1) keys_ok_int4 [of bi_ID] by (auto simp: instances_ok_def)
    then have "int64_range (bi_ID i)" by (auto simp: int4_def int64_range_def)
    then have "scan_uid (event_uid (bi_ID i)) = Some (bi_ID i)"
      by (simp add: event_uid_def scan_uid_Itoa del: append.simps)
    then show ?thesis
      using Action_tap [OF that(2)] MarkPaid_run [OF assms(2) id4 i] unpaid_MarkPaid [OF ok(1) i] by simp
  qed
  ultimately show ?thesis using run by blast
qed


definition sample_query :: request where
  "sample_query = (sample_request ''Authorization'' ''Bearer x'')\<lparr>
     req_Query := (\<lambda>k. if k = ''from'' then ''2026-02-01'' else ''2026-02-28'')\<rparr>"

definition sample_tap :: request where
  "sample_tap = (sample_request ''Authorization'' ''Bearer x'')\<lparr>req_Method := ''POST'',
     req_PathValue := (\<lambda>_. ''mark_paid''), req_Json := Inr (JObj [(''uid'', JStr ''bill-instance-1'')])\<rparr>"

theorem Events_Action_contract_witness:
  "(\<exists>es. Events sample_env sample_query sample_db = (events_reply (fixed_tz 0) es, sample_db) \<and>
     ''bill-instance-1'' \<in> ev_UID ` set es) \<and>
   fst (Action sample_tap sample_db) = http_OK \<and> bi_ID ` unpaid (snd (Action sample_tap sample_db)) = {2}"
proof -
  have tz: "env_tz sample_env = fixed_tz 0" by (simp add: sample_env_def)
  have up: "db_faults sample_db = []" by (simp add: sample_db_def empty_db_def)
  have q: "ParseInLocation (env_tz sample_env) layout_iso (req_Query sample_query ''from'') UTC = Inr (sample_time 1769904000)"
      "ParseInLocation (env_tz sample_env) layout_iso (req_Query sample_query ''to'') UTC = Inr (sample_time 1772236800)"
    by code_simp+
  have day: "time_date (fixed_tz 0) (sample_time 1772236800) = Date 2026 2 28" by code_simp
  have uid: "event_uid 1 = ''bill-instance-1''" by code_simp
  define i where "i = \<lparr>bi_ID = 1, bi_BillDefinitionID = 1, bi_DueDate = Date 2026 2 28, bi_Paid = False, bi_PaidAt = None\<rparr>"
  have un: "unpaid sample_db = {i, \<lparr>bi_ID = 2, bi_BillDefinitionID = 2, bi_DueDate = Date 2026 1 31, bi_Paid = False, bi_PaidAt = None\<rparr>}"
    by (auto simp: unpaid_def sample_db_def i_def)
  have t: "tap (event_uid (bi_ID i)) sample_tap" by (simp add: tap_def sample_tap_def uid i_def)
  from Events_Action_contract [OF sample_db_ok up q, unfolded tz day] obtain es
    where es: "Events sample_env sample_query sample_db = (events_reply (fixed_tz 0) es, sample_db)"
      "(\<lambda>e. (ev_UID e, ev_StartsAt e)) ` set es =
        {(event_uid (bi_ID i), local_midnight (fixed_tz 0) Local (bi_DueDate i)) | i.
          i \<in> unpaid sample_db \<and> bi_DueDate i \<le> Date 2026 2 28}"
      "\<forall>i \<in> unpaid sample_db. \<forall>r. tap (event_uid (bi_ID i)) r \<longrightarrow>
        fst (Action r sample_db) = http_OK \<and> unpaid (snd (Action r sample_db)) = unpaid sample_db - {i}"
    by blast
  have iu: "i \<in> unpaid sample_db" by (simp add: un)
  have "(event_uid 1, local_midnight (fixed_tz 0) Local (Date 2026 2 28)) \<in> (\<lambda>e. (ev_UID e, ev_StartsAt e)) ` set es"
    unfolding es(2) using iu by (auto simp: i_def intro!: exI [of _ i])
  then have "''bill-instance-1'' \<in> ev_UID ` set es" by (auto simp: uid)
  moreover have "fst (Action sample_tap sample_db) = http_OK" "unpaid (snd (Action sample_tap sample_db)) = unpaid sample_db - {i}"
    using es(3) iu t by blast+
  moreover have "bi_ID ` (unpaid sample_db - {i}) = {2}" by (auto simp: un i_def)
  ultimately show ?thesis using es(1) by auto
qed

lemma MarkPaid_scoped:
  "\<exists>fs. let (r, s') = BillInstanceStore_MarkPaid n s in
     (ok r \<and> s' = s\<lparr>db_faults := fs, bt_bill_instances := update_where (\<lambda>j. bi_ID j = n)
        (\<lambda>j. j\<lparr>bi_Paid := True, bi_PaidAt := Some (db_now s)\<rparr>) (bt_bill_instances s)\<rparr>) \<or>
     (\<not> ok r \<and> s' = s\<lparr>db_faults := fs\<rparr>)"
proof (cases rule: sql_cases [where s = s and stmt = "\<lambda>s. if \<not> int4 n then fail ''id'' s
       else let k = length (filter (\<lambda>i. bi_ID i = n) (bt_bill_instances s));
                s' = s\<lparr>bt_bill_instances := update_where (\<lambda>i. bi_ID i = n)
                  (\<lambda>i. i\<lparr>bi_Paid := True, bi_PaidAt := Some (db_now s)\<rparr>) (bt_bill_instances s)\<rparr>
         in if k = 0 then (Inl (Error (''bill instance '' @ Itoa n @ '' not found'')), s')
            else (Inr (), s')"])
  case (fault e fs)
  then show ?thesis by (auto simp: BillInstanceStore_MarkPaid_def)
next
  case (run fs)
  have "update_where (\<lambda>i. bi_ID i = n) f (bt_bill_instances s) = bt_bill_instances s"
    if "filter (\<lambda>i. bi_ID i = n) (bt_bill_instances s) = []" for f
    using that by (auto simp: update_where_def filter_empty_conv intro!: map_idI)
  with run show ?thesis
    by (auto simp: BillInstanceStore_MarkPaid_def fail_def storing_def Let_def intro!: exI [of _ fs])
qed

lemma Action_cases:
  obtains (kept) resp where "Action r s = (resp, s)" "resp_Status resp \<noteq> 200"
      "req_PathValue r ''id'' \<noteq> ''mark_paid'' \<Longrightarrow> resp_Status resp = 404"
    | (paid) n where "req_PathValue r ''id'' = ''mark_paid''"
      "Action r s = (case BillInstanceStore_MarkPaid n s of
        (Inl e, s') \<Rightarrow> (http_Error (''marking paid: '' @ error_text e) 500, s')
      | (Inr _, s') \<Rightarrow> (http_OK, s'))"
proof (cases "req_PathValue r ''id'' = ''mark_paid''")
  case id: True
  define d where "d = (case req_Json r of Inl e \<Rightarrow> Inl e
    | Inr v \<Rightarrow> decode_actionIn v)"
  show thesis
  proof (cases d)
    case (Inl e)
    with id show thesis
      by (intro kept [of "http_Error ''invalid request body'' 400"]) (simp_all add: Action_def d_def http_Error_def)
  next
    case (Inr uid)
    show thesis
    proof (cases "scan_uid uid")
      case None
      with Inr id show thesis
        by (intro kept [of "http_Error ''unrecognized event uid'' 400"]) (simp_all add: Action_def d_def http_Error_def)
    next
      case (Some n)
      with Inr id show thesis by (intro paid [of n]) (simp_all add: Action_def d_def)
    qed
  qed
next
  case False
  then show thesis by (intro kept [of http_NotFound]) (simp_all add: Action_def http_NotFound_def http_Error_def)
qed

text \<open>
  The action route can do nothing else: whatever is posted, it changes no table but
  the instances, and of these at most the payment of the one instance it names; an
  answer other than 200 leaves every table as it was.
\<close>

theorem Action_scoped:
  "\<exists>n fs. let (resp, s') = Action r s in
     (s' = s\<lparr>db_faults := fs\<rparr> \<or>
      s' = s\<lparr>db_faults := fs, bt_bill_instances := update_where (\<lambda>j. bi_ID j = n)
        (\<lambda>j. j\<lparr>bi_Paid := True, bi_PaidAt := Some (db_now s)\<rparr>) (bt_bill_instances s)\<rparr>) \<and>
     (resp_Status resp \<noteq> 200 \<longrightarrow> s' = s\<lparr>db_faults := fs\<rparr>) \<and>
     (req_PathValue r ''id'' \<noteq> ''mark_paid'' \<longrightarrow> resp_Status resp = 404 \<and> s' = s)"
proof -
  have same: "s = s\<lparr>db_faults := db_faults s\<rparr>" by simp
  show ?thesis
  proof (cases rule: Action_cases [of r s])
    case (kept resp)
    then show ?thesis using same by (intro exI [of _ 0] exI [of _ "db_faults s"]) simp
  next
    case (paid n)
    obtain fs where "let (r, s') = BillInstanceStore_MarkPaid n s in
     (ok r \<and> s' = s\<lparr>db_faults := fs, bt_bill_instances := update_where (\<lambda>j. bi_ID j = n)
        (\<lambda>j. j\<lparr>bi_Paid := True, bi_PaidAt := Some (db_now s)\<rparr>) (bt_bill_instances s)\<rparr>) \<or>
     (\<not> ok r \<and> s' = s\<lparr>db_faults := fs\<rparr>)" using MarkPaid_scoped by blast
    with paid show ?thesis
      by (intro exI [of _ n] exI [of _ fs])
        (auto simp: http_Error_def http_OK_def ok_def split: prod.splits sum.splits)
  qed
qed

theorem Action_scoped_witness:
  "resp_Status (fst (Action (sample_tap\<lparr>req_PathValue := (\<lambda>_. ''delete'')\<rparr>) sample_db)) = 404 \<and>
   snd (Action (sample_tap\<lparr>req_PathValue := (\<lambda>_. ''delete'')\<rparr>) sample_db) = sample_db"
  using Action_scoped [of "sample_tap\<lparr>req_PathValue := (\<lambda>_. ''delete'')\<rparr>" sample_db]
  by (auto simp: case_prod_beta)


end
