(* ===== verification/Settings.thy ===== *)
theory Settings
  imports Events
begin

text \<open>
  The settings page (\<^verbatim>\<open>internal/handlers/settings.go\<close>): its form parser, its nine
  actions, the data its template is given, and the handler. An action ends in an error
  message or a success message; starting the background refresh
  (\<^verbatim>\<open>go a.refreshSimpleFinAsync()\<close>) is a flag of the outcome, and the refresh itself is a
  job of the scheduler that runs later.
\<close>

section \<open>The bill form\<close>

definition blank_definition :: BillDefinition where
  "blank_definition = \<lparr>bd_ID = 0, bd_Name = '''', bd_AmountCents = 0, bd_ScheduleType = ScheduleMonthly,
     bd_DayOfMonth = None, bd_QuarterStartMonth = None, bd_OneOffDate = None, bd_VendorURL = None,
     bd_SimpleFinAccountID = None, bd_BootstrapManaged = False, bd_CreatedAt = zero_time\<rparr>"

definition single_quoted :: "string \<Rightarrow> string" where
  "single_quoted s = [CHR 0x27] @ s @ [CHR 0x27]"

text \<open>A number field that must lie in a range.\<close>

definition int_between :: "int \<Rightarrow> int \<Rightarrow> string \<Rightarrow> int option" where
  "int_between lo hi s = (case Atoi s of None \<Rightarrow> None | Some n \<Rightarrow> if n < lo \<or> n > hi then None else Some n)"

definition parseBillForm :: "tz \<Rightarrow> request \<Rightarrow> (string, BillDefinition) result" where
  "parseBillForm tz r =
     (let form = req_FormValue r; name = TrimSpace (form ''name'') in
      if name = '''' then Inl ''name is required''
      else case ParseFloat (form ''amount'') of
        None \<Rightarrow> Inl ''invalid amount''
      | Some amountDollars \<Rightarrow>
          let def = blank_definition\<lparr>bd_Name := name, bd_AmountCents := dollars_to_cents amountDollars,
                bd_VendorURL := (if form ''vendor_url'' \<noteq> '''' then Some (TrimSpace (form ''vendor_url'')) else None)\<rparr>
          in if form ''schedule'' = ''monthly'' then
               (case int_between 1 31 (form ''day_of_month'') of
                  None \<Rightarrow> Inl ''day_of_month must be between 1 and 31''
                | Some day \<Rightarrow> Inr (def\<lparr>bd_ScheduleType := ScheduleMonthly, bd_DayOfMonth := Some day\<rparr>))
             else if form ''schedule'' = ''quarterly'' then
               (case int_between 1 31 (form ''day_of_month'') of
                  None \<Rightarrow> Inl ''day_of_month must be between 1 and 31''
                | Some day \<Rightarrow>
                    (case int_between 1 3 (form ''quarter_start_month'') of
                       None \<Rightarrow> Inl ''quarter_start_month must be 1, 2, or 3''
                     | Some start \<Rightarrow> Inr (def\<lparr>bd_ScheduleType := ScheduleQuarterly,
                         bd_DayOfMonth := Some day, bd_QuarterStartMonth := Some start\<rparr>)))
             else if form ''schedule'' = ''one_off'' then
               (case ParseInLocation tz layout_iso (form ''one_off_date'') UTC of
                  Inl e \<Rightarrow> Inl ''one_off_date must be YYYY-MM-DD''
                | Inr due \<Rightarrow> Inr (def\<lparr>bd_ScheduleType := ScheduleOneOff, bd_OneOffDate := Some due\<rparr>))
             else Inl (''schedule must be '' @ single_quoted ''monthly'' @ '', '' @ single_quoted ''quarterly'' @
               '', or '' @ single_quoted ''one_off''))"

section \<open>The actions\<close>

record outcome =
  out_Err :: string
  out_Success :: string
  out_Refresh :: bool

definition failed :: "string \<Rightarrow> outcome" where
  "failed msg = \<lparr>out_Err = msg, out_Success = '''', out_Refresh = False\<rparr>"

definition succeeded :: "string \<Rightarrow> outcome" where
  "succeeded msg = \<lparr>out_Err = '''', out_Success = msg, out_Refresh = False\<rparr>"

type_synonym action = "request \<Rightarrow> db \<Rightarrow> outcome \<times> db"

text \<open>The common end of adding and changing a bill: its instances are generated at once.\<close>

definition generate_for :: "env \<Rightarrow> BillDefinition \<Rightarrow> string \<Rightarrow> string \<Rightarrow> db \<Rightarrow> outcome \<times> db" where
  "generate_for E def fine partial s =
     (case GenerateInstancesForDefinition (env_tz E) (env_now E) def (env_BillInstanceLookaheadDays E) s of
        (Inl e, s') \<Rightarrow> (succeeded (''bill '' @ Quote (bd_Name def) @ '' '' @ partial @
          '', but generating upcoming due dates failed: '' @ error_text e), s')
      | (Inr _, s') \<Rightarrow> (succeeded (fine @ '' '' @ Quote (bd_Name def) @ ''.''), s'))"

definition addBill :: "env \<Rightarrow> action" where
  "addBill E r s =
     (case parseBillForm (env_tz E) r of
        Inl e \<Rightarrow> (failed e, s)
      | Inr def \<Rightarrow>
          (case BillDefinitionStore_Create (env_tz E) def s of
             (Inl e, s') \<Rightarrow> (failed (''creating bill: '' @ error_text e), s')
           | (Inr rid, s') \<Rightarrow> generate_for E (def\<lparr>bd_ID := rid\<rparr>) ''Added'' ''added'' s'))"

definition updateBill :: "env \<Rightarrow> action" where
  "updateBill E r s =
     (case Atoi (req_FormValue r ''id'') of
        None \<Rightarrow> (failed ''invalid bill id'', s)
      | Some rid \<Rightarrow>
          (case BillDefinitionStore_GetByID rid s of
             (Inl e, s1) \<Rightarrow> (failed (error_text e), s1)
           | (Inr existing, s1) \<Rightarrow>
               if bd_BootstrapManaged existing
               then (failed (''this bill is managed by bills.json and can'' @ [CHR 0x27] @ ''t be edited here''), s1)
               else (case parseBillForm (env_tz E) r of
                  Inl e \<Rightarrow> (failed e, s1)
                | Inr def \<Rightarrow>
                    (case BillDefinitionStore_Update (env_tz E) rid def s1 of
                       (Inl e, s2) \<Rightarrow> (failed (''updating bill: '' @ error_text e), s2)
                     | (Inr _, s2) \<Rightarrow> generate_for E (def\<lparr>bd_ID := rid\<rparr>) ''Updated'' ''updated'' s2))))"

definition deleteBill :: action where
  "deleteBill r s =
     (case Atoi (req_FormValue r ''id'') of
        None \<Rightarrow> (failed ''invalid bill id'', s)
      | Some rid \<Rightarrow>
          (case BillDefinitionStore_GetByID rid s of
             (Inl e, s1) \<Rightarrow> (failed (error_text e), s1)
           | (Inr existing, s1) \<Rightarrow>
               if bd_BootstrapManaged existing
               then (failed (''this bill is managed by bills.json and can'' @ [CHR 0x27] @ ''t be deleted here''), s1)
               else (case BillDefinitionStore_Delete rid s1 of
                  (Inl e, s2) \<Rightarrow> (failed (''deleting bill: '' @ error_text e), s2)
                | (Inr _, s2) \<Rightarrow> (succeeded (''Deleted '' @ Quote (bd_Name existing) @ ''.''), s2))))"

definition markPaid :: action where
  "markPaid r s =
     (case Atoi (req_FormValue r ''id'') of
        None \<Rightarrow> (failed ''invalid instance id'', s)
      | Some rid \<Rightarrow>
          (case BillInstanceStore_MarkPaid rid s of
             (Inl e, s') \<Rightarrow> (failed (''marking paid: '' @ error_text e), s')
           | (Inr _, s') \<Rightarrow> (succeeded ''Marked paid.'', s')))"

definition connectSimpleFin :: "env \<Rightarrow> randomness \<Rightarrow> action" where
  "connectSimpleFin E rand r s =
     (let token = TrimSpace (req_FormValue r ''setup_token'') in
      if token = '''' then (failed ''setup token is required'', s)
      else case ClaimSetupToken False (env_parse E) (env_bridge E) token of
        Inl e \<Rightarrow> (failed (''connecting to SimpleFIN: '' @ e), s)
      | Inr accessURL \<Rightarrow>
          (case Encrypt (env_Encryptor E) rand accessURL of
             Inl e \<Rightarrow> (failed (''encrypting access URL: '' @ e), s)
           | Inr encrypted \<Rightarrow>
               (case SimpleFinConnectionStore_Connect encrypted s of
                  (Inl e, s') \<Rightarrow> (failed (''saving SimpleFIN connection: '' @ error_text e), s')
                | (Inr _, s') \<Rightarrow>
                    ((succeeded ''SimpleFIN connected - refreshing balances now.'')\<lparr>out_Refresh := True\<rparr>, s'))))"

definition disconnectSimpleFin :: action where
  "disconnectSimpleFin r s =
     (case SimpleFinConnectionStore_Disconnect s of
        (Inl e, s') \<Rightarrow> (failed (''disconnecting: '' @ error_text e), s')
      | (Inr _, s') \<Rightarrow>
          (case AccountStore_DeleteAll s' of
             (Inl e, s'') \<Rightarrow> (failed (''removing synced accounts: '' @ error_text e), s'')
           | (Inr _, s'') \<Rightarrow> (succeeded ''SimpleFIN disconnected.'', s'')))"

definition refreshSimpleFinNow :: action where
  "refreshSimpleFinNow r s =
     (case SimpleFinConnectionStore_Get s of
        (Inl e, s') \<Rightarrow> (failed ''SimpleFIN is not connected'', s')
      | (Inr _, s') \<Rightarrow> ((succeeded ''Refreshing balances now.'')\<lparr>out_Refresh := True\<rparr>, s'))"

definition toggleAccountVisibility :: action where
  "toggleAccountVisibility r s =
     (case Atoi (req_FormValue r ''id'') of
        None \<Rightarrow> (failed ''invalid account id'', s)
      | Some rid \<Rightarrow>
          (case AccountStore_SetVisible rid (req_FormValue r ''visible'' = ''true'') s of
             (Inl e, s') \<Rightarrow> (failed (''toggling account: '' @ error_text e), s')
           | (Inr _, s') \<Rightarrow> (succeeded '''', s')))"

definition setAccountDisplayName :: action where
  "setAccountDisplayName r s =
     (case Atoi (req_FormValue r ''id'') of
        None \<Rightarrow> (failed ''invalid account id'', s)
      | Some rid \<Rightarrow>
          (case AccountStore_SetDisplayName rid (TrimSpace (req_FormValue r ''display_name'')) s of
             (Inl e, s') \<Rightarrow> (failed (''setting display name: '' @ error_text e), s')
           | (Inr _, s') \<Rightarrow> (succeeded '''', s')))"

definition handleSettingsAction :: "env \<Rightarrow> randomness \<Rightarrow> action" where
  "handleSettingsAction E rand r s =
     (case req_ParseForm r of
        Some e \<Rightarrow> (failed (''bad form: '' @ e), s)
      | None \<Rightarrow>
          let a = req_FormValue r ''action'' in
          if a = ''add_bill'' then addBill E r s
          else if a = ''update_bill'' then updateBill E r s
          else if a = ''delete_bill'' then deleteBill r s
          else if a = ''mark_paid'' then markPaid r s
          else if a = ''connect_simplefin'' then connectSimpleFin E rand r s
          else if a = ''disconnect_simplefin'' then disconnectSimpleFin r s
          else if a = ''refresh_simplefin'' then refreshSimpleFinNow r s
          else if a = ''toggle_account_visibility'' then toggleAccountVisibility r s
          else if a = ''set_account_display_name'' then setAccountDisplayName r s
          else (failed ''unknown action'', s))"

section \<open>The page\<close>

record settingsInstanceRow =
  si_InstanceID :: int
  si_Name :: string
  si_Amount :: string
  si_Due :: time
  si_Paid :: bool
  si_BootstrapManaged :: bool

record settingsBillDefRow =
  sd_ID :: int
  sd_Name :: string
  sd_Amount :: string
  sd_AmountDollars :: string
  sd_ScheduleDesc :: string
  sd_ScheduleType :: string
  sd_DayOfMonth :: string
  sd_QuarterStartMonth :: string
  sd_OneOffDate :: string
  sd_VendorURL :: string
  sd_BootstrapManaged :: bool

record settingsAccountRow =
  sa_ID :: int
  sa_Name :: string
  sa_DisplayName :: string
  sa_OrgName :: string
  sa_Balance :: string
  sa_Visible :: bool
  sa_IsCredit :: bool

record settingsPageData =
  sp_Instances :: "settingsInstanceRow list"
  sp_Definitions :: "settingsBillDefRow list"
  sp_SimpleFinConnected :: bool
  sp_SimpleFinLastSynced :: string
  sp_SimpleFinLastError :: string
  sp_Accounts :: "settingsAccountRow list"
  sp_Error :: string
  sp_Success :: string
  sp_SimpleFinRefreshing :: bool

fun schedule_text :: "ScheduleType \<Rightarrow> string" where
  "schedule_text ScheduleMonthly = ''monthly''"
| "schedule_text ScheduleQuarterly = ''quarterly''"
| "schedule_text ScheduleOneOff = ''one_off''"
| "schedule_text ScheduleVendor = ''vendor''"

definition quarterRotationMonths :: "int \<Rightarrow> string" where
  "quarterRotationMonths n =
     (if n = 1 then ''Jan/Apr/Jul/Oct'' else if n = 2 then ''Feb/May/Aug/Nov''
      else if n = 3 then ''Mar/Jun/Sep/Dec'' else '''')"

definition scheduleDescription :: "tz \<Rightarrow> BillDefinition \<Rightarrow> string" where
  "scheduleDescription tz def =
     (case (bd_ScheduleType def, bd_OneOffDate def, bd_DayOfMonth def, bd_QuarterStartMonth def) of
        (ScheduleOneOff, Some t, _, _) \<Rightarrow> ''One-off: '' @ Format tz t layout_iso
      | (ScheduleMonthly, _, Some day, _) \<Rightarrow> ''Monthly on day '' @ Itoa day
      | (ScheduleQuarterly, _, Some day, Some start) \<Rightarrow>
          ''Quarterly ('' @ quarterRotationMonths start @ '') on day '' @ Itoa day
      | _ \<Rightarrow> ''Unknown schedule'')"

definition bill_row :: "tz \<Rightarrow> BillDefinition \<Rightarrow> settingsBillDefRow" where
  "bill_row tz def =
     \<lparr>sd_ID = bd_ID def, sd_Name = bd_Name def, sd_Amount = formatCents (bd_AmountCents def),
      sd_AmountDollars = formatCentsPlain (bd_AmountCents def),
      sd_ScheduleDesc = scheduleDescription tz def, sd_ScheduleType = schedule_text (bd_ScheduleType def),
      sd_DayOfMonth = (case bd_DayOfMonth def of None \<Rightarrow> '''' | Some d \<Rightarrow> Itoa d),
      sd_QuarterStartMonth = (case bd_QuarterStartMonth def of None \<Rightarrow> '''' | Some q \<Rightarrow> Itoa q),
      sd_OneOffDate = (case bd_OneOffDate def of None \<Rightarrow> '''' | Some t \<Rightarrow> Format tz t layout_iso),
      sd_VendorURL = null_string (bd_VendorURL def), sd_BootstrapManaged = bd_BootstrapManaged def\<rparr>"

text \<open>A definition the map does not know counts as not managed.\<close>

definition instance_row :: "BillDefinition list \<Rightarrow> BillInstanceView \<Rightarrow> settingsInstanceRow" where
  "instance_row defs inst =
     \<lparr>si_InstanceID = v_InstanceID inst, si_Name = v_Name inst, si_Amount = formatCents (v_AmountCents inst),
      si_Due = v_DueDate inst, si_Paid = v_Paid inst,
      si_BootstrapManaged = (map_of (rev (map (\<lambda>d. (bd_ID d, bd_BootstrapManaged d)) defs)) (v_DefinitionID inst)
        = Some True)\<rparr>"

definition account_row_of :: "Account \<Rightarrow> settingsAccountRow" where
  "account_row_of acc =
     \<lparr>sa_ID = acc_ID acc, sa_Name = acc_Name acc, sa_DisplayName = null_string (acc_DisplayName acc),
      sa_OrgName = null_string (acc_OrgName acc), sa_Balance = formatCents (acc_BalanceCents acc),
      sa_Visible = acc_Visible acc, sa_IsCredit = IsCredit acc\<rparr>"

definition format_datetime :: "tz \<Rightarrow> time \<Rightarrow> string" where
  "format_datetime tz t =
     (let c = nat (local_sec tz t mod 86400) in
      Format tz t layout_iso @ '' '' @ two_digits (c div 3600) @ '':'' @
      two_digits (c mod 3600 div 60) @ '':'' @ two_digits (c mod 60))"

definition buildSettingsPageData :: "tz \<Rightarrow> time \<Rightarrow> settingsPageData dbm" where
  "buildSettingsPageData tz now =
     (let today = truncate_24h now; windowEnd = AddDate tz today 0 0 90 in
      andThen (BillInstanceStore_ListAllForSettings tz (AddDate tz today 0 0 (- 30)) windowEnd) (\<lambda>instances.
      andThen BillDefinitionStore_ListAll (\<lambda>defs s.
        let data = \<lparr>sp_Instances = map (instance_row defs) instances,
              sp_Definitions = map (bill_row tz) defs, sp_SimpleFinConnected = False,
              sp_SimpleFinLastSynced = '''', sp_SimpleFinLastError = '''', sp_Accounts = [],
              sp_Error = '''', sp_Success = '''', sp_SimpleFinRefreshing = False\<rparr> in
        case SimpleFinConnectionStore_Get s of
          (Inl e, s') \<Rightarrow> if e = ErrNoSimpleFinConnection then (Inr data, s') else (Inl e, s')
        | (Inr conn, s') \<Rightarrow>
            andThen AccountStore_ListAll (\<lambda>accounts s''.
              (Inr (data\<lparr>sp_SimpleFinConnected := True,
                 sp_SimpleFinLastSynced := (case sfc_LastSyncedAt conn of None \<Rightarrow> '''' | Some t \<Rightarrow> format_datetime tz t),
                 sp_SimpleFinLastError := null_string (sfc_LastSyncError conn),
                 sp_Accounts := banks_first sa_IsCredit (map account_row_of accounts)\<rparr>), s'')) s')))"

text \<open>The goroutine builds a scheduler of its own from the stores of the page and runs one refresh.\<close>

definition refreshSimpleFinAsync :: "env \<Rightarrow> db \<Rightarrow> db" where
  [simp]: "refreshSimpleFinAsync E s = RefreshSimpleFinNow E s"

text \<open>The handler; the flag says whether a background refresh was started.\<close>

definition settings_page :: "env \<Rightarrow> randomness \<Rightarrow> settingsPageData template \<Rightarrow> request \<Rightarrow> db \<Rightarrow> (response \<times> bool) \<times> db" where
  "settings_page E rand tmpl r s =
     (let post = (req_Method r = ''POST'');
          (out, s1) = (if post then handleSettingsAction E rand r s else (succeeded '''', s));
          refreshing = (post \<and> out_Err out = '''' \<and>
            (req_FormValue r ''action'' = ''connect_simplefin'' \<or> req_FormValue r ''action'' = ''refresh_simplefin''))
      in case buildSettingsPageData (env_tz E) (env_now E) s1 of
        (Inl e, s2) \<Rightarrow> ((http_Error (error_text e) 500, out_Refresh out), s2)
      | (Inr data, s2) \<Rightarrow>
          ((execute_template tmpl (data\<lparr>sp_Error := out_Err out, sp_Success := out_Success out,
              sp_SimpleFinRefreshing := refreshing\<rparr>), out_Refresh out), s2))"

definition SettingsPage :: "env \<Rightarrow> randomness \<Rightarrow> settingsPageData template \<Rightarrow> handler" where
  "SettingsPage E rand tmpl r s = (case settings_page E rand tmpl r s of ((resp, _), s') \<Rightarrow> (resp, s'))"

section \<open>The edit form\<close>

text \<open>
  The row of a bill fills the fields of its edit form (\<^verbatim>\<open>settings/_bills_table.html\<close>),
  and submitting the form sends them back.
\<close>

definition edit_form :: "settingsBillDefRow \<Rightarrow> request \<Rightarrow> bool" where
  "edit_form row r \<longleftrightarrow>
     req_FormValue r ''id'' = Itoa (sd_ID row) \<and> req_FormValue r ''name'' = sd_Name row \<and>
     req_FormValue r ''amount'' = sd_AmountDollars row \<and> req_FormValue r ''schedule'' = sd_ScheduleType row \<and>
     req_FormValue r ''day_of_month'' = sd_DayOfMonth row \<and>
     req_FormValue r ''quarter_start_month'' = sd_QuarterStartMonth row \<and>
     req_FormValue r ''one_off_date'' = sd_OneOffDate row \<and> req_FormValue r ''vendor_url'' = sd_VendorURL row"

text \<open>What the form can carry: trimmed texts, and a day with a four-digit year.\<close>

definition editable :: "tz \<Rightarrow> BillDefinition \<Rightarrow> bool" where
  "editable tz b \<longleftrightarrow>
     bd_Name b \<noteq> '''' \<and> TrimSpace (bd_Name b) = bd_Name b \<and>
     (case bd_VendorURL b of None \<Rightarrow> True | Some u \<Rightarrow> TrimSpace u = u) \<and>
     (case bd_OneOffDate b of None \<Rightarrow> True
      | Some t \<Rightarrow> writable (time_date tz t) \<and> t = local_midnight tz UTC (time_date tz t)) \<and>
     bd_ScheduleType b \<noteq> ScheduleVendor"

definition resaved :: "int \<Rightarrow> int" where
  "resaved c = (if 0 \<le> c then c else c + 1)"

text \<open>
  A blank URL typed into the form is stored as an empty text, which the next form shows like no URL
  at all, and sends back as none.
\<close>

definition resaved_url :: "string option \<Rightarrow> string option" where
  "resaved_url u = (if u = Some '''' then None else u)"

lemma form_amount:
  assumes "int4 c"
  shows "\<exists>x. ParseFloat (formatCentsPlain c) = Some x \<and> dollars_to_cents x = resaved c"
proof -
  have "\<bar>c\<bar> < 2 ^ 49" using assms by (auto simp: int4_def)
  then show ?thesis
    using fixed2_cents [of c] ParseFloat_cents [of c] dollars_to_cents_dollars [of c]
    by (auto simp: formatCentsPlain_def resaved_def)
qed

lemma int_between_Itoa: "lo \<le> n \<Longrightarrow> n \<le> hi \<Longrightarrow> int4 n \<Longrightarrow> int_between lo hi (Itoa n) = Some n"
proof -
  assume "lo \<le> n" "n \<le> hi" "int4 n"
  moreover from this have "int64_range n" by (auto simp: int4_def int64_range_def)
  ultimately show ?thesis by (simp add: int_between_def ParseInt_Itoa)
qed

lemma Format_UTC_midnight:
  "writable (time_date tz t) \<Longrightarrow> t = local_midnight tz UTC (time_date tz t) \<Longrightarrow>
   ParseInLocation tz layout_iso (Format tz t layout_iso) UTC = Inr t"
  using ParseInLocation_write_date [of "time_date tz t" layout_iso tz UTC]
  by (simp add: Format_def write_date_def date_layouts_def)

text \<open>What comes back is the bill itself, up to the amount and an empty URL.\<close>

definition submitted :: "BillDefinition \<Rightarrow> BillDefinition" where
  "submitted b = blank_definition\<lparr>bd_Name := bd_Name b, bd_AmountCents := resaved (bd_AmountCents b),
     bd_ScheduleType := bd_ScheduleType b, bd_DayOfMonth := bd_DayOfMonth b,
     bd_QuarterStartMonth := bd_QuarterStartMonth b, bd_OneOffDate := bd_OneOffDate b,
     bd_VendorURL := resaved_url (bd_VendorURL b)\<rparr>"

lemma parseBillForm_row:
  assumes "definition_check b" "editable tz b" "int4 (bd_AmountCents b)" "edit_form (bill_row tz b) r"
  shows "parseBillForm tz r = Inr (submitted b)"
proof -
  obtain x where x: "ParseFloat (formatCentsPlain (bd_AmountCents b)) = Some x"
    "dollars_to_cents x = resaved (bd_AmountCents b)" using form_amount [OF assms(3)] by blast
  note form = assms(4) [unfolded edit_form_def bill_row_def, simplified]
  have url: "null_string (bd_VendorURL b) \<noteq> '''' \<Longrightarrow>
      Some (TrimSpace (null_string (bd_VendorURL b))) = resaved_url (bd_VendorURL b)"
    "null_string (bd_VendorURL b) = '''' \<Longrightarrow> None = resaved_url (bd_VendorURL b)"
    using assms(2) by (auto simp: editable_def null_string_def resaved_url_def split: option.splits)
  have name: "bd_Name b \<noteq> ''''" "TrimSpace (bd_Name b) = bd_Name b" using assms(2) by (simp_all add: editable_def)
  note rules = parseBillForm_def Let_def form name x url submitted_def blank_definition_def
  show ?thesis
  proof (cases "bd_ScheduleType b")
    case ScheduleMonthly
    then obtain d where "bd_DayOfMonth b = Some d" "1 \<le> d" "d \<le> 31" "bd_OneOffDate b = None" "bd_QuarterStartMonth b = None"
      using assms(1) by (auto simp: definition_check_def schedule_shape_check_def)
    then show ?thesis using ScheduleMonthly by (simp add: rules int_between_Itoa int4_def)
  next
    case ScheduleQuarterly
    then obtain d q where "bd_DayOfMonth b = Some d" "1 \<le> d" "d \<le> 31" "bd_QuarterStartMonth b = Some q" "1 \<le> q" "q \<le> 3"
        "bd_OneOffDate b = None"
      using assms(1) by (auto simp: definition_check_def schedule_shape_check_def)
    then show ?thesis using ScheduleQuarterly by (simp add: rules int_between_Itoa int4_def)
  next
    case ScheduleOneOff
    then obtain t where "bd_OneOffDate b = Some t" "bd_DayOfMonth b = None" "bd_QuarterStartMonth b = None"
      using assms(1) by (auto simp: definition_check_def schedule_shape_check_def)
    moreover from this have "ParseInLocation tz layout_iso (Format tz t layout_iso) UTC = Inr t"
      using assms(2) by (intro Format_UTC_midnight) (auto simp: editable_def)
    ultimately show ?thesis using ScheduleOneOff by (simp add: rules)
  next
    case ScheduleVendor
    then show ?thesis using assms(2) by (simp add: editable_def)
  qed
qed

section \<open>What every action keeps\<close>

text \<open>
  The actions change the tables through ten store methods. Two of them are called for an
  existing bill only after the bill was read and found not to be managed by
  \<^verbatim>\<open>bills.json\<close>, and new bills are not managed: a property of the tables needs to survive
  the methods under these conditions only.
\<close>

definition unmanaged :: "int \<Rightarrow> db \<Rightarrow> bool" where
  "unmanaged rid s \<longleftrightarrow> (\<forall>b \<in> set (bt_bill_definitions s). bd_ID b = rid \<longrightarrow> \<not> bd_BootstrapManaged b)"

lemma parseBillForm_unmanaged: "parseBillForm tz r = Inr b \<Longrightarrow> \<not> bd_BootstrapManaged b"
  by (auto simp: parseBillForm_def Let_def blank_definition_def split: if_splits option.splits sum.splits)

lemma GetByID_found:
  assumes "BillDefinitionStore_GetByID rid s = (x, s')" "x = Inr b"
  shows "filter (\<lambda>b. bd_ID b = rid) (bt_bill_definitions s') \<noteq> [] \<and>
    hd (filter (\<lambda>b. bd_ID b = rid) (bt_bill_definitions s')) = b"
  using assms
  by (auto simp: BillDefinitionStore_GetByID_def sql_def fail_def storing_def scanBillDefinition_def
      split: list.splits option.splits if_splits)

lemma hd_filter_unmanaged:
  assumes "filter (\<lambda>b. bd_ID b = rid) (bt_bill_definitions s) \<noteq> [] \<and>
      hd (filter (\<lambda>b. bd_ID b = rid) (bt_bill_definitions s)) = b"
    and "distinct (map bd_ID (bt_bill_definitions s))" "\<not> bd_BootstrapManaged b"
  shows "unmanaged rid s"
proof -
  have "b \<in> set (filter (\<lambda>b. bd_ID b = rid) (bt_bill_definitions s))"
    using assms(1) hd_in_set by blast
  then have "b \<in> set (bt_bill_definitions s)" "bd_ID b = rid" by simp_all
  then have "c = b" if "c \<in> set (bt_bill_definitions s)" "bd_ID c = rid" for c
    using assms(2) that by (metis distinct_map inj_onD)
  then show ?thesis using assms(3) by (auto simp: unmanaged_def)
qed

locale settings_invariant =
  fixes I :: "db \<Rightarrow> bool"
  assumes fault_free: "fault_free I"
    and ids: "I s \<Longrightarrow> distinct (map bd_ID (bt_bill_definitions s))"
    and create: "\<not> bd_BootstrapManaged b \<Longrightarrow> preserves I (BillDefinitionStore_Create tz b)"
    and update: "I s \<Longrightarrow> unmanaged rid s \<Longrightarrow> I (snd (BillDefinitionStore_Update tz rid b s))"
    and delete: "I s \<Longrightarrow> unmanaged rid s \<Longrightarrow> I (snd (BillDefinitionStore_Delete rid s))"
    and ensure: "preserves I (BillInstanceStore_EnsureInstance tz rid t)"
    and paid: "preserves I (BillInstanceStore_MarkPaid rid)"
    and connect: "preserves I (SimpleFinConnectionStore_Connect url)"
    and disconnect: "preserves I SimpleFinConnectionStore_Disconnect"
    and delete_all: "preserves I AccountStore_DeleteAll"
    and visible: "preserves I (AccountStore_SetVisible rid v)"
    and display_name: "preserves I (AccountStore_SetDisplayName rid n)"
begin

lemma ensure_all_keeps: "preserves I (ensure_all tz rid ts)"
proof (rule preservesI)
  fix s assume "I s"
  then show "I (snd (ensure_all tz rid ts s))"
  proof (induction ts arbitrary: s)
    case (Cons t ts)
    obtain x s1 where e: "BillInstanceStore_EnsureInstance tz rid t s = (x, s1)" by force
    show ?case
      using Cons.IH preserves_result [OF ensure Cons.prems e] by (simp add: e split: sum.split)
  qed simp
qed

lemma generate_for_keeps: "I s \<Longrightarrow> I (snd (generate_for E def fine partial s))"
  using preserves_result [OF ensure_all_keeps]
  by (auto simp: generate_for_def GenerateInstancesForDefinition_def Let_def split: prod.split sum.split)

lemma addBill_keeps: "I s \<Longrightarrow> I (snd (addBill E r s))"
proof (cases "parseBillForm (env_tz E) r")
  case (Inr def)
  assume s: "I s"
  have "\<not> bd_BootstrapManaged def" by (rule parseBillForm_unmanaged [OF Inr])
  from preservesD [OF create [OF this] s, of "env_tz E"] show ?thesis
    using Inr by (auto simp: addBill_def generate_for_keeps split: prod.split sum.split)
qed (simp add: addBill_def)

lemma read_bill:
  assumes "I s" "BillDefinitionStore_GetByID rid s = (x, s1)"
  shows "I s1" and "x = Inr b \<Longrightarrow> \<not> bd_BootstrapManaged b \<Longrightarrow> unmanaged rid s1"
proof -
  show I1: "I s1"
    using preservesD [OF preserves_bill_reads(2) [OF fault_free] assms(1), of rid] assms(2) by simp
  assume x: "x = Inr b" "\<not> bd_BootstrapManaged b"
  have "filter (\<lambda>b. bd_ID b = rid) (bt_bill_definitions s1) \<noteq> [] \<and>
      hd (filter (\<lambda>b. bd_ID b = rid) (bt_bill_definitions s1)) = b"
    using assms(2) x(1) by (rule GetByID_found)
  moreover have "distinct (map bd_ID (bt_bill_definitions s1))" by (rule ids [OF I1])
  ultimately show "unmanaged rid s1" using x(2) by (rule hd_filter_unmanaged)
qed

lemma updateBill_keeps: "I s \<Longrightarrow> I (snd (updateBill E r s))"
proof -
  assume s: "I s"
  show ?thesis
  proof (cases "Atoi (req_FormValue r ''id'')")
    case (Some rid)
    obtain x s1 where g: "BillDefinitionStore_GetByID rid s = (x, s1)" by force
    note s1 = read_bill [OF s g]
    have upd: "I s2" if "unmanaged rid s1" "BillDefinitionStore_Update (env_tz E) rid b s1 = (y, s2)" for b y s2
      using update [OF s1(1) that(1), of "env_tz E" b] that(2) by simp
    show ?thesis
      using Some g s1 upd
      by (auto simp: updateBill_def generate_for_keeps split: prod.split sum.split)
  qed (simp add: updateBill_def s)
qed

lemma deleteBill_keeps: "I s \<Longrightarrow> I (snd (deleteBill r s))"
proof -
  assume s: "I s"
  show ?thesis
  proof (cases "Atoi (req_FormValue r ''id'')")
    case (Some rid)
    obtain x s1 where g: "BillDefinitionStore_GetByID rid s = (x, s1)" by force
    note s1 = read_bill [OF s g]
    then show ?thesis
      using Some g delete [OF s1(1), of rid]
      by (auto simp: deleteBill_def split: prod.split sum.split)
  qed (simp add: deleteBill_def s)
qed

lemma simplefin_actions_keep:
  assumes "I s"
  shows "I (snd (connectSimpleFin E rand r s))" and "I (snd (disconnectSimpleFin r s))"
    and "I (snd (refreshSimpleFinNow r s))"
  using assms
  by (auto simp: connectSimpleFin_def disconnectSimpleFin_def refreshSimpleFinNow_def Let_def
      split: prod.split sum.split intro: preserves_result [OF connect] preserves_result [OF disconnect]
      preserves_result [OF delete_all] preserves_result [OF preserves_connection_reads(3) [OF fault_free]])

lemma small_actions_keep:
  assumes "I s"
  shows "I (snd (markPaid r s))" and "I (snd (toggleAccountVisibility r s))"
    and "I (snd (setAccountDisplayName r s))"
  using assms
  by (auto simp: markPaid_def toggleAccountVisibility_def setAccountDisplayName_def
      split: prod.split sum.split option.split intro: preserves_result [OF paid]
      preserves_result [OF visible] preserves_result [OF display_name])

lemma handleSettingsAction_keeps: "I s \<Longrightarrow> I (snd (handleSettingsAction E rand r s))"
  by (simp add: handleSettingsAction_def Let_def addBill_keeps updateBill_keeps deleteBill_keeps
      simplefin_actions_keep small_actions_keep split: option.split)

lemma buildSettingsPageData_keeps: "I s \<Longrightarrow> I (snd (buildSettingsPageData tz now s))"
proof -
  note reads = preserves_bill_reads [OF fault_free] preserves_connection_reads [OF fault_free]
  have last: "preserves I (\<lambda>s'. case SimpleFinConnectionStore_Get s' of
      (Inl e, s') \<Rightarrow> if e = ErrNoSimpleFinConnection then (Inr d, s') else (Inl e, s')
    | (Inr conn, s') \<Rightarrow> andThen AccountStore_ListAll (\<lambda>accounts s''. (Inr (f conn accounts), s'')) s')"
    for d :: settingsPageData and f
  proof (rule preservesI)
    fix s' assume "I s'"
    obtain x s2 where g: "SimpleFinConnectionStore_Get s' = (x, s2)" by force
    have "preserves I (andThen AccountStore_ListAll (\<lambda>accounts s''. (Inr (f conn accounts), s'')))" for conn
      by (intro preserves_andThen reads preservesI) simp
    with preserves_result [OF reads(8) \<open>I s'\<close> g]
    show "I (snd (case SimpleFinConnectionStore_Get s' of
        (Inl e, s') \<Rightarrow> if e = ErrNoSimpleFinConnection then (Inr d, s') else (Inl e, s')
      | (Inr conn, s') \<Rightarrow> andThen AccountStore_ListAll (\<lambda>accounts s''. (Inr (f conn accounts), s'')) s'))"
      by (cases x) (simp_all add: g preservesD)
  qed
  have "preserves I (buildSettingsPageData tz now)"
    unfolding buildSettingsPageData_def Let_def by (intro preserves_andThen reads last)
  then show "I s \<Longrightarrow> ?thesis" by (rule preservesD)
qed

lemma SettingsPage_keeps: "I s \<Longrightarrow> I (snd (SettingsPage E rand tmpl r s))"
proof -
  assume s: "I s"
  define out where "out = (if req_Method r = ''POST'' then handleSettingsAction E rand r s else (succeeded '''', s))"
  have "I (snd out)" using s by (simp add: out_def handleSettingsAction_keeps)
  then have "I (snd (buildSettingsPageData (env_tz E) (env_now E) (snd out)))"
    by (rule buildSettingsPageData_keeps)
  then show ?thesis
    by (auto simp: SettingsPage_def settings_page_def Let_def out_def [symmetric] split: prod.splits sum.splits)
qed

end

interpretation settings_schema: settings_invariant db_ok
  by unfold_locales
    (simp_all add: bill_store_ok connection_store_ok preservesD [OF definition_updates_ok(1)]
      preservesD [OF Delete_ok], simp add: db_ok_def definitions_ok_def keys_ok_def)

text \<open>
  The managed bills without their account references, and the occurrences that were
  recorded for them.
\<close>

definition managed :: "db \<Rightarrow> BillDefinition list" where
  "managed s = map (\<lambda>b. b\<lparr>bd_SimpleFinAccountID := None\<rparr>) (filter bd_BootstrapManaged (bt_bill_definitions s))"

definition managed_history :: "db \<Rightarrow> (int \<times> int \<times> date) set" where
  "managed_history s = (\<lambda>i. (bi_ID i, bi_BillDefinitionID i, bi_DueDate i)) `
     {i \<in> set (bt_bill_instances s). bi_BillDefinitionID i \<in> bd_ID ` set (managed s)}"

lemma managed_ids: "bd_ID ` set (managed s) = bd_ID ` {b \<in> set (bt_bill_definitions s). bd_BootstrapManaged b}"
  by (simp add: managed_def image_image)

lemma managed_clear: "map (\<lambda>b. b\<lparr>bd_SimpleFinAccountID := None\<rparr>) (filter bd_BootstrapManaged
    (update_where p (\<lambda>b. b\<lparr>bd_SimpleFinAccountID := None\<rparr>) rows)) =
  map (\<lambda>b. b\<lparr>bd_SimpleFinAccountID := None\<rparr>) (filter bd_BootstrapManaged rows)"
  by (induction rows) (auto simp: update_where_def)

lemmas statement_defs = fail_def storing_def Let_def update_definition_def

lemma managed_kept:
  "\<not> bd_BootstrapManaged b \<Longrightarrow> managed (snd (BillDefinitionStore_Create tz b s)) = managed s"
  "unmanaged rid s \<Longrightarrow> managed (snd (BillDefinitionStore_Update tz rid b s)) = managed s"
  "unmanaged rid s \<Longrightarrow> managed (snd (BillDefinitionStore_Delete rid s)) = managed s"
  "managed (snd (BillInstanceStore_EnsureInstance tz rid t s)) = managed s"
  "managed (snd (BillInstanceStore_MarkPaid rid s)) = managed s"
  "managed (snd (SimpleFinConnectionStore_Disconnect s)) = managed s"
  "managed (snd (AccountStore_DeleteAll s)) = managed s"
  "managed (snd (AccountStore_SetVisible rid v s)) = managed s"
  "managed (snd (AccountStore_SetDisplayName rid n s)) = managed s"
  unfolding BillDefinitionStore_Create_def BillDefinitionStore_Update_def BillDefinitionStore_Delete_def
    BillInstanceStore_EnsureInstance_def BillInstanceStore_MarkPaid_def SimpleFinConnectionStore_Disconnect_def
    AccountStore_DeleteAll_def AccountStore_SetVisible_def AccountStore_SetDisplayName_def
  by (rule sql_keeps; simp add: statement_defs managed_def unmanaged_def filter_update_other
      filter_delete_other managed_clear)+

lemma Connect_kept:
  "bt_bill_definitions (snd (SimpleFinConnectionStore_Connect url s)) = bt_bill_definitions s"
  "bt_bill_instances (snd (SimpleFinConnectionStore_Connect url s)) = bt_bill_instances s"
  by (rule Connect_cases [of url s]; simp)+

lemma managed_Connect: "managed (snd (SimpleFinConnectionStore_Connect url s)) = managed s"
  by (simp add: managed_def Connect_kept)

lemma unmanaged_id: "unmanaged rid s \<Longrightarrow> rid \<notin> bd_ID ` set (managed s)"
  by (auto simp: managed_ids unmanaged_def)

lemma instances_kept:
  "bt_bill_instances (snd (BillDefinitionStore_Create tz b s)) = bt_bill_instances s"
  "bt_bill_instances (snd (BillDefinitionStore_Update tz rid b s)) = bt_bill_instances s"
  "bt_bill_instances (snd (SimpleFinConnectionStore_Disconnect s)) = bt_bill_instances s"
  "bt_bill_instances (snd (AccountStore_DeleteAll s)) = bt_bill_instances s"
  "bt_bill_instances (snd (AccountStore_SetVisible rid v s)) = bt_bill_instances s"
  "bt_bill_instances (snd (AccountStore_SetDisplayName rid n s)) = bt_bill_instances s"
  unfolding BillDefinitionStore_Create_def BillDefinitionStore_Update_def
    SimpleFinConnectionStore_Disconnect_def AccountStore_DeleteAll_def AccountStore_SetVisible_def
    AccountStore_SetDisplayName_def
  by (rule sql_keeps; simp add: statement_defs)+

lemma managed_history_cong:
  "managed s' = managed s \<Longrightarrow> bt_bill_instances s' = bt_bill_instances s \<Longrightarrow> managed_history s' = managed_history s"
  by (simp add: managed_history_def)

lemma managed_history_Delete:
  assumes "unmanaged rid s"
  shows "managed_history (snd (BillDefinitionStore_Delete rid s)) = managed_history s"
proof -
  define s' where "s' = snd (BillDefinitionStore_Delete rid s)"
  have m: "managed s' = managed s" unfolding s'_def by (rule managed_kept(3) [OF assms])
  have "bt_bill_instances s' = bt_bill_instances s \<or>
      bt_bill_instances s' = delete_where (\<lambda>i. bi_BillDefinitionID i = rid) (bt_bill_instances s)"
    unfolding s'_def BillDefinitionStore_Delete_def by (simp add: statement_defs sql_def split: list.split option.split)
  then have "{i \<in> set (bt_bill_instances s'). bi_BillDefinitionID i \<in> bd_ID ` set (managed s)} =
      {i \<in> set (bt_bill_instances s). bi_BillDefinitionID i \<in> bd_ID ` set (managed s)}"
    using unmanaged_id [OF assms] by auto
  then show ?thesis unfolding s'_def [symmetric] by (simp only: managed_history_def m)
qed

lemma managed_history_MarkPaid: "managed_history (snd (BillInstanceStore_MarkPaid rid s)) = managed_history s"
proof -
  define s' where "s' = snd (BillInstanceStore_MarkPaid rid s)"
  have m: "managed s' = managed s" unfolding s'_def by (rule managed_kept(5))
  have keys: "map (\<lambda>i. (bi_ID i, bi_BillDefinitionID i, bi_DueDate i)) (bt_bill_instances s') =
      map (\<lambda>i. (bi_ID i, bi_BillDefinitionID i, bi_DueDate i)) (bt_bill_instances s)"
    unfolding s'_def BillInstanceStore_MarkPaid_def
    by (rule sql_keeps) (simp_all add: statement_defs map_update_where)
  have "managed_history u = {k \<in> set (map (\<lambda>i. (bi_ID i, bi_BillDefinitionID i, bi_DueDate i)) (bt_bill_instances u)).
      fst (snd k) \<in> bd_ID ` set (managed u)}" for u
    by (auto simp: managed_history_def)
  then show ?thesis unfolding s'_def [symmetric] by (simp only: keys m)
qed

lemma managed_history_Ensure:
  "managed_history s \<subseteq> managed_history (snd (BillInstanceStore_EnsureInstance tz rid t s))"
proof -
  obtain new where "bt_bill_instances (snd (BillInstanceStore_EnsureInstance tz rid t s)) = bt_bill_instances s @ new"
    using bt_bill_instances_grow by blast
  then show ?thesis by (auto simp: managed_history_def managed_kept(4))
qed

lemma managed_invariant:
  assumes "preserves db_ok m" "\<And>s. managed (snd (m s)) = managed s"
    and "\<And>s. bt_bill_instances (snd (m s)) = bt_bill_instances s"
  shows "preserves (\<lambda>s. db_ok s \<and> managed s = M \<and> A \<subseteq> managed_history s) m"
  using managed_history_cong [OF assms(2,3)] preservesD [OF assms(1)] by (simp add: preserves_def assms(2))

interpretation settings_managed:
  settings_invariant "\<lambda>s. db_ok s \<and> managed s = M \<and> A \<subseteq> managed_history s" for M A
proof (unfold_locales, goal_cases)
  case 1
  have "fault_free (\<lambda>s. managed s = M \<and> A \<subseteq> managed_history s)"
    by (simp add: fault_free_def managed_history_def managed_def)
  then show ?case using fault_free_db_ok by (simp add: fault_free_def)
next
  case 2
  then show ?case by (simp add: settings_schema.ids)
next
  case (3 b tz)
  then show ?case by (intro managed_invariant Create_ok managed_kept instances_kept)
next
  case (4 s rid tz b)
  then show ?case
    using settings_schema.update managed_history_cong [OF managed_kept(2) instances_kept(2)]
    by (simp add: managed_kept)
next
  case (5 s rid)
  then show ?case
    using settings_schema.delete by (simp add: managed_kept managed_history_Delete)
next
  case (6 tz rid t)
  show ?case
    using preservesD [OF EnsureInstance_ok] managed_history_Ensure
    by (fastforce simp: preserves_def managed_kept)
next
  case (7 rid)
  show ?case
    using preservesD [OF MarkPaid_ok] by (simp add: preserves_def managed_kept managed_history_MarkPaid)
next
  case (8 url)
  show ?case by (intro managed_invariant Connect_ok managed_Connect Connect_kept)
qed (intro managed_invariant simplefin_updates_ok Account_DeleteAll_ok account_updates_ok managed_kept instances_kept)+

section \<open>Properties of the settings page\<close>

lemma generate_for_success [simp]: "out_Err (fst (generate_for E def fine partial s)) = ''''"
  by (simp add: generate_for_def succeeded_def split: prod.split sum.split)

lemma ensure_all_definitions: "bt_bill_definitions (snd (ensure_all tz rid ts s)) = bt_bill_definitions s"
proof -
  have one: "bt_bill_definitions (snd (BillInstanceStore_EnsureInstance tz rid t s)) = bt_bill_definitions s" for t s
    unfolding BillInstanceStore_EnsureInstance_def by (rule sql_keeps) (simp_all add: statement_defs)
  show ?thesis
  proof (induction ts arbitrary: s)
    case (Cons t ts)
    obtain x s1 where e: "BillInstanceStore_EnsureInstance tz rid t s = (x, s1)" by force
    then have "bt_bill_definitions s1 = bt_bill_definitions s" using one [of t s] by simp
    then show ?case using Cons by (simp add: e split: sum.split)
  qed simp
qed

lemma generate_for_definitions [simp]:
  "bt_bill_definitions (snd (generate_for E def fine partial s)) = bt_bill_definitions s"
  using ensure_all_definitions
  by (auto simp: generate_for_def GenerateInstancesForDefinition_def Let_def split: prod.split sum.split)
    (metis snd_conv)+

lemma GetByID_run:
  assumes "db_ok s" "db_faults s = []" "b \<in> set (bt_bill_definitions s)"
  shows "BillDefinitionStore_GetByID (bd_ID b) s = (Inr b, s)"
proof -
  have keys: "keys_ok bd_ID (bt_bill_definitions s) (seq_definitions s)"
    using assms(1) by (simp add: db_ok_def definitions_ok_def)
  from keys_ok_single [OF keys] obtain c
    where c: "filter (\<lambda>d. bd_ID d = bd_ID b) (bt_bill_definitions s) = [c]" using assms(3) by blast
  have "b \<in> set (filter (\<lambda>d. bd_ID d = bd_ID b) (bt_bill_definitions s))" using assms(3) by simp
  then have "c = b" unfolding c by simp
  then show ?thesis
    using c keys_ok_int4 [OF keys assms(3)] assms(2)
    by (simp add: BillDefinitionStore_GetByID_def sql_up scanBillDefinition_def)
qed

lemma Update_submitted:
  assumes "db_ok s" "db_faults s = []" "b \<in> set (bt_bill_definitions s)" "editable tz b"
  shows "BillDefinitionStore_Update tz (bd_ID b) (submitted b) s = (Inr (), s\<lparr>bt_bill_definitions :=
    update_where (\<lambda>d. bd_ID d = bd_ID b) (\<lambda>d. d\<lparr>bd_AmountCents := resaved (bd_AmountCents d), bd_VendorURL := resaved_url (bd_VendorURL d)\<rparr>)
      (bt_bill_definitions s)\<rparr>)"
proof -
  have ok: "keys_ok bd_ID (bt_bill_definitions s) (seq_definitions s)" "definition_check b" "int4 (bd_AmountCents b)"
      "text_ok (bd_Name b)" "pred_option text_ok (bd_VendorURL b)"
    using assms(1,3) by (simp_all add: db_ok_def definitions_ok_def)
  have texts: "list_all text_ok (bd_Name b # url_texts (submitted b))"
    using ok(4,5) by (auto simp: url_texts_ok submitted_def resaved_url_def)
  let ?upd = "\<lambda>r. r\<lparr>bd_Name := bd_Name b, bd_AmountCents := resaved (bd_AmountCents b),
    bd_ScheduleType := bd_ScheduleType b, bd_DayOfMonth := bd_DayOfMonth b,
    bd_QuarterStartMonth := bd_QuarterStartMonth b, bd_OneOffDate := map_option (db_date tz) (bd_OneOffDate b),
    bd_VendorURL := resaved_url (bd_VendorURL b)\<rparr>"
  have "map_option (db_date tz) (bd_OneOffDate b) = bd_OneOffDate b"
    using assms(4) by (auto simp: editable_def db_date_def split: option.splits)
  then have upd: "?upd b = b\<lparr>bd_AmountCents := resaved (bd_AmountCents b), bd_VendorURL := resaved_url (bd_VendorURL b)\<rparr>" by simp
  have same: "d = b" if "d \<in> set (bt_bill_definitions s)" "bd_ID d = bd_ID b" for d
    using ok(1) that assms(3) unfolding keys_ok_def by (metis distinct_map inj_onD)
  have rows: "update_where (\<lambda>d. bd_ID d = bd_ID b) ?upd (bt_bill_definitions s) = update_where (\<lambda>d. bd_ID d = bd_ID b)
      (\<lambda>d. d\<lparr>bd_AmountCents := resaved (bd_AmountCents d), bd_VendorURL := resaved_url (bd_VendorURL d)\<rparr>) (bt_bill_definitions s)"
    unfolding update_where_def by (rule map_cong [OF refl]) (metis same upd)
  have "definition_check (?upd d)" if "d \<in> set (bt_bill_definitions s)" "bd_ID d = bd_ID b" for d
    using ok(2) unfolding same [OF that] upd by (simp add: definition_check_def schedule_shape_check_def)
  moreover have "int4 (resaved (bd_AmountCents b))" using ok(3) by (auto simp: int4_def resaved_def)
  ultimately show ?thesis
    using keys_ok_int4 [OF ok(1) assms(3)] assms(2) rows texts
    by (simp add: BillDefinitionStore_Update_def submitted_def sql_up storing_up update_definition_def)
qed

text \<open>
  C23. Saving a bill from its edit form without touching a field changes nothing of it, nor
  of any other bill, as long as its amount is not negative and its URL is not the empty text. A negative
  amount comes back one cent higher each time, because the conversion to cents adds a half and then
  truncates towards zero; an empty URL, which the program stores when a blank one is typed,
  becomes none. The bill is one the form can carry (\<open>editable\<close>): name and URL without blank space around
  them, not of the vendor schedule.
\<close>

theorem updateBill_resubmitted:
  assumes "db_ok s" "db_faults s = []" "b \<in> set (bt_bill_definitions s)"
    and "\<not> bd_BootstrapManaged b" "editable (env_tz E) b" "edit_form (bill_row (env_tz E) b) r"
  shows "let (out, s') = updateBill E r s in out_Err out = '''' \<and>
    bt_bill_definitions s' = update_where (\<lambda>d. bd_ID d = bd_ID b)
      (\<lambda>d. d\<lparr>bd_AmountCents := (if 0 \<le> bd_AmountCents d then bd_AmountCents d else bd_AmountCents d + 1),
        bd_VendorURL := (if bd_VendorURL d = Some '''' then None else bd_VendorURL d)\<rparr>)
      (bt_bill_definitions s) \<and>
    (0 \<le> bd_AmountCents b \<and> bd_VendorURL b \<noteq> Some '''' \<longrightarrow> bt_bill_definitions s' = bt_bill_definitions s)"
proof -
  have ok: "keys_ok bd_ID (bt_bill_definitions s) (seq_definitions s)" "definition_check b" "int4 (bd_AmountCents b)"
    using assms(1,3) by (simp_all add: db_ok_def definitions_ok_def)
  have "int64_range (bd_ID b)" using keys_ok_int4 [OF ok(1) assms(3)] by (auto simp: int4_def int64_range_def)
  then have rid: "Atoi (req_FormValue r ''id'') = Some (bd_ID b)"
    using assms(6) by (simp add: edit_form_def bill_row_def ParseInt_Itoa)
  let ?rows = "update_where (\<lambda>d. bd_ID d = bd_ID b) (\<lambda>d. d\<lparr>bd_AmountCents := resaved (bd_AmountCents d), bd_VendorURL := resaved_url (bd_VendorURL d)\<rparr>)
      (bt_bill_definitions s)"
  have run: "updateBill E r s = generate_for E ((submitted b)\<lparr>bd_ID := bd_ID b\<rparr>) ''Updated'' ''updated''
      (s\<lparr>bt_bill_definitions := ?rows\<rparr>)"
    by (simp add: updateBill_def rid GetByID_run [OF assms(1-3)] assms(4)
        parseBillForm_row [OF ok(2) assms(5) ok(3) assms(6)] Update_submitted [OF assms(1-3,5)])
  have "d = b" if "d \<in> set (bt_bill_definitions s)" "bd_ID d = bd_ID b" for d
    using ok(1) that assms(3) unfolding keys_ok_def by (metis distinct_map inj_onD)
  then have "0 \<le> bd_AmountCents d \<and> bd_VendorURL d \<noteq> Some ''''"
    if "0 \<le> bd_AmountCents b \<and> bd_VendorURL b \<noteq> Some ''''" "d \<in> set (bt_bill_definitions s)" "bd_ID d = bd_ID b"
    for d using that by metis
  then have "?rows = bt_bill_definitions s" if "0 \<le> bd_AmountCents b \<and> bd_VendorURL b \<noteq> Some ''''"
    unfolding update_where_def by (intro map_idI) (simp add: resaved_def resaved_url_def that)
  then show ?thesis unfolding run by (simp add: case_prod_beta resaved_def resaved_url_def)
qed

definition filled :: "settingsBillDefRow \<Rightarrow> request" where
  "filled row = (sample_request ''Authorization'' ''Bearer x'')\<lparr>req_Method := ''POST'',
     req_FormValue := (\<lambda>k. if k = ''action'' then ''update_bill'' else if k = ''id'' then Itoa (sd_ID row)
       else if k = ''name'' then sd_Name row else if k = ''amount'' then sd_AmountDollars row
       else if k = ''schedule'' then sd_ScheduleType row else if k = ''day_of_month'' then sd_DayOfMonth row
       else if k = ''quarter_start_month'' then sd_QuarterStartMonth row
       else if k = ''one_off_date'' then sd_OneOffDate row else if k = ''vendor_url'' then sd_VendorURL row else '''')\<rparr>"

definition refund_db :: db where
  "refund_db = sample_db\<lparr>bt_bill_definitions :=
     [day31_bill\<lparr>bd_ID := 1, bd_AmountCents := - 500, bd_VendorURL := Some ''''\<rparr>, day31_bill\<lparr>bd_ID := 2, bd_Name := ''Water''\<rparr>]\<rparr>"

theorem updateBill_resubmitted_witness:
  "map (\<lambda>b. (bd_AmountCents b, bd_VendorURL b)) (bt_bill_definitions refund_db) = [(- 500, Some ''''), (12843, None)] \<and>
   map (\<lambda>b. (bd_AmountCents b, bd_VendorURL b)) (bt_bill_definitions (snd (updateBill sample_env
     (filled (bill_row (fixed_tz 0) (day31_bill\<lparr>bd_ID := 1, bd_AmountCents := - 500, bd_VendorURL := Some ''''\<rparr>))) refund_db))) = [(- 499, None), (12843, None)] \<and>
   bt_bill_definitions (snd (updateBill sample_env
     (filled (bill_row (fixed_tz 0) (day31_bill\<lparr>bd_ID := 2, bd_Name := ''Water''\<rparr>))) refund_db)) = bt_bill_definitions refund_db"
proof -
  let ?b = "day31_bill\<lparr>bd_ID := 1, bd_AmountCents := - 500, bd_VendorURL := Some ''''\<rparr>" and ?c = "day31_bill\<lparr>bd_ID := 2, bd_Name := ''Water''\<rparr>"
  have tz: "env_tz sample_env = fixed_tz 0" by (simp add: sample_env_def)
  have ok: "db_ok refund_db"
    using sample_db_ok
    by (simp add: refund_db_def sample_db_def db_ok_def table_ok_defs definition_check_def schedule_shape_check_def
        int4_def day31_bill_def keys_ok_def)
  have up: "db_faults refund_db = []" by (simp add: refund_db_def sample_db_def empty_db_def)
  have rows: "?b \<in> set (bt_bill_definitions refund_db)" "?c \<in> set (bt_bill_definitions refund_db)"
    by (simp_all add: refund_db_def)
  have form: "edit_form row (filled row)" for row by (simp add: edit_form_def filled_def)
  have edit: "editable (fixed_tz 0) ?b" "editable (fixed_tz 0) ?c" by code_simp+
  have un: "\<not> bd_BootstrapManaged ?b" "\<not> bd_BootstrapManaged ?c" by (simp_all add: day31_bill_def)
  note one = updateBill_resubmitted [of _ _ sample_env, unfolded tz, OF ok up]
  show ?thesis
    using one [OF rows(1) un(1) edit(1) form] one [OF rows(2) un(2) edit(2) form]
    by (simp add: case_prod_beta) (simp add: refund_db_def update_where_def day31_bill_def)
qed

text \<open>
  C22. Whatever is posted to the settings page, and whichever statements fail, the bills
  managed by \<^verbatim>\<open>bills.json\<close> stay exactly as they are (but for a reference to an
  account that was removed), none of their recorded occurrences disappears, and the
  schema's invariant holds.
\<close>

theorem SettingsPage_managed:
  assumes "db_ok s"
  shows "let s' = snd (SettingsPage E rand tmpl r s) in
    db_ok s' \<and> managed s' = managed s \<and> managed_history s \<subseteq> managed_history s'"
  using settings_managed.SettingsPage_keeps [of s "managed s" "managed_history s"] assms by (simp add: Let_def)

definition managed_db :: db where
  "managed_db = sample_db\<lparr>bt_bill_definitions :=
     [day31_bill\<lparr>bd_ID := 1, bd_BootstrapManaged := True\<rparr>, day31_bill\<lparr>bd_ID := 2, bd_Name := ''Water''\<rparr>]\<rparr>"

definition delete_request :: "string \<Rightarrow> request" where
  "delete_request rid = (sample_request ''Authorization'' ''Bearer x'')\<lparr>req_Method := ''POST'',
     req_FormValue := (\<lambda>k. if k = ''action'' then ''delete_bill'' else rid)\<rparr>"

lemma managed_db_ok: "db_ok managed_db"
  using sample_db_ok
  by (simp add: managed_db_def sample_db_def db_ok_def table_ok_defs definition_check_def schedule_shape_check_def
      int4_def day31_bill_def keys_ok_def)

theorem SettingsPage_managed_witness:
  "db_ok managed_db \<and> map bd_ID (managed managed_db) = [1] \<and>
   managed (snd (SettingsPage sample_env sample_rand (\<lambda>_. ('''', None)) (delete_request ''1'') managed_db)) =
     managed managed_db"
  using SettingsPage_managed [OF managed_db_ok, of sample_env sample_rand "\<lambda>_. ('''', None)" "delete_request ''1''"]
    managed_db_ok
  by (simp add: Let_def) (simp add: managed_def managed_db_def day31_bill_def)

lemma parsed_day: "ParseInLocation tz layout x UTC = Inr t \<Longrightarrow> db_date tz t = t"
  by (auto simp: ParseInLocation_def db_date_def time_Date_midnight local_midnight_civil utc_days.day_start_date
      split: option.splits if_splits)

lemma parseBillForm_shape:
  assumes "parseBillForm tz r = Inr b"
  shows "definition_check b \<and> bd_SimpleFinAccountID b = None \<and> \<not> bd_BootstrapManaged b \<and>
    map_option (db_date tz) (bd_OneOffDate b) = bd_OneOffDate b"
  using assms parsed_day
  by (auto simp: parseBillForm_def Let_def blank_definition_def definition_check_def schedule_shape_check_def
      int_between_def split: if_splits option.splits sum.splits)

lemma Create_run:
  assumes "db_faults s = []" "int4 (seq_definitions s)" "int4 (bd_AmountCents b)" "definition_check b"
    and "bd_SimpleFinAccountID b = None" "map_option (db_date tz) (bd_OneOffDate b) = bd_OneOffDate b"
    and "list_all text_ok (bd_Name b # url_texts b)"
  shows "BillDefinitionStore_Create tz b s = (Inr (seq_definitions s), s\<lparr>
    seq_definitions := seq_definitions s + 1, bt_bill_definitions := bt_bill_definitions s @
      [b\<lparr>bd_ID := seq_definitions s, bd_CreatedAt := db_now s\<rparr>]\<rparr>)"
proof -
  have row: "b\<lparr>bd_ID := seq_definitions s, bd_OneOffDate := map_option (db_date tz) (bd_OneOffDate b),
      bd_SimpleFinAccountID := None, bd_CreatedAt := db_now s\<rparr> = b\<lparr>bd_ID := seq_definitions s, bd_CreatedAt := db_now s\<rparr>"
    unfolding assms(6) using assms(5) by (cases b) simp
  have "definition_check (b\<lparr>bd_ID := n, bd_CreatedAt := t\<rparr>)" for n t
    using assms(4) by (simp add: definition_check_def schedule_shape_check_def)
  then show ?thesis
    using assms(1-3) by (simp add: BillDefinitionStore_Create_def sql_up storing_up [OF assms(7)] row Let_def)
qed

text \<open>
  C24. Adding a bill stores exactly what the form says, under a new id and not managed by
  \<^verbatim>\<open>bills.json\<close>, and at once creates its occurrences: those of the look-ahead window from
  today on, and nothing else. No other bill and no existing occurrence changes. (No statement fails,
  the amount fits its column, the zone is regular and there is room for the new ids.) A name or URL that
  is not a text Postgres stores is refused with the error, and nothing changes.
\<close>

theorem addBill_effect:
  assumes "regular_location (env_tz E) (time_loc (env_now E))" "db_ok s" "db_faults s = []"
    and "parseBillForm (env_tz E) r = Inr b" "int4 (bd_AmountCents b)" "int4 (seq_definitions s)"
    and "seq_instances s + int (nat (env_BillInstanceLookaheadDays E + 1)) \<le> 2 ^ 31"
  shows "let (out, s') = addBill E r s; rid = seq_definitions s in
    if text_ok (bd_Name b) \<and> pred_option text_ok (bd_VendorURL b)
    then out_Err out = '''' \<and> db_ok s' \<and>
      bt_bill_definitions s' = bt_bill_definitions s @ [b\<lparr>bd_ID := rid, bd_CreatedAt := db_now s\<rparr>] \<and>
      \<not> bd_BootstrapManaged b \<and>
      occurrences s' = occurrences s \<union> {rid} \<times> {d \<in> set (date_range (time_date (env_tz E) (env_now E))
        (window_end (env_tz E) (env_now E) (env_BillInstanceLookaheadDays E))). due_on (env_tz E) b d}
    else out_Err out = ''creating bill: '' @ pg_message s ''text'' \<and> s' = s"
proof (cases "text_ok (bd_Name b) \<and> pred_option text_ok (bd_VendorURL b)")
  case False
  then have "BillDefinitionStore_Create (env_tz E) b s = (Inl (Error (pg_message s ''text'')), s)"
    using assms(3) by (auto simp: BillDefinitionStore_Create_def sql_up storing_def url_texts_ok fail_def)
  then show ?thesis using False by (simp add: addBill_def assms(4) failed_def)
next
  case texts: True
  let ?rid = "seq_definitions s" and ?tz = "env_tz E"
  have b: "definition_check b" "bd_SimpleFinAccountID b = None" "\<not> bd_BootstrapManaged b"
      "map_option (db_date ?tz) (bd_OneOffDate b) = bd_OneOffDate b"
    using parseBillForm_shape [OF assms(4)] by simp_all
  define s1 where "s1 = s\<lparr>seq_definitions := ?rid + 1, bt_bill_definitions := bt_bill_definitions s @
      [b\<lparr>bd_ID := ?rid, bd_CreatedAt := db_now s\<rparr>]\<rparr>"
  have run: "BillDefinitionStore_Create ?tz b s = (Inr ?rid, s1)"
    unfolding s1_def by (rule Create_run [OF assms(3,6,5) b(1,2,4)]) (simp add: url_texts_ok texts)
  have s1: "db_ok s1" "db_faults s1 = []" "occurrences s1 = occurrences s"
    using preserves_result [OF Create_ok assms(2) run] assms(3) by (simp_all add: s1_def occurrences_def)
  have new: "bd_ID (b\<lparr>bd_ID := ?rid\<rparr>) \<in> bd_ID ` set (bt_bill_definitions s1)" by (simp add: s1_def)
  have check: "definition_check (b\<lparr>bd_ID := ?rid\<rparr>)"
    using b(1) by (simp add: definition_check_def schedule_shape_check_def)
  have room: "seq_instances s1 + int (nat (env_BillInstanceLookaheadDays E + 1)) \<le> 2 ^ 31"
    using assms(7) by (simp add: s1_def)
  obtain s' where s': "GenerateInstancesForDefinition ?tz (env_now E) (b\<lparr>bd_ID := ?rid\<rparr>)
        (env_BillInstanceLookaheadDays E) s1 = (Inr (), s')" "db_ok s'"
      "bt_bill_definitions s' = bt_bill_definitions s1"
      "occurrences s' = occurrences s \<union> {?rid} \<times> {d \<in> set (date_range (time_date ?tz (env_now E))
        (window_end ?tz (env_now E) (env_BillInstanceLookaheadDays E))). due_on ?tz (b\<lparr>bd_ID := ?rid\<rparr>) d}"
    using GenerateInstancesForDefinition_run [OF assms(1) s1(1,2) check new room] by (auto simp: s1(3))
  have "due_on ?tz (b\<lparr>bd_ID := ?rid\<rparr>) d = due_on ?tz b d" for d
    by (cases "bd_ScheduleType b") (simp_all add: due_on_def)
  with s' b(3) texts show ?thesis
    by (simp add: addBill_def assms(4) run generate_for_def succeeded_def s1_def)
qed

definition add_request :: request where
  "add_request = (sample_request ''Authorization'' ''Bearer x'')\<lparr>req_Method := ''POST'',
     req_FormValue := (\<lambda>k. if k = ''action'' then ''add_bill'' else if k = ''name'' then '' Rent ''
       else if k = ''amount'' then ''950.10'' else if k = ''schedule'' then ''monthly''
       else if k = ''day_of_month'' then ''31'' else '''')\<rparr>"

definition rent_bill :: BillDefinition where
  "rent_bill = blank_definition\<lparr>bd_Name := ''Rent'', bd_AmountCents := 95010, bd_DayOfMonth := Some 31\<rparr>"

theorem addBill_effect_witness:
  "let (out, s') = addBill sample_env add_request sample_db in
   out_Err out = '''' \<and> length (bt_bill_definitions s') = 3 \<and> (3, Date 2026 2 28) \<in> occurrences s'"
proof -
  have pre: "regular_location (env_tz sample_env) (time_loc (env_now sample_env))"
    "db_faults sample_db = []" "int4 (seq_definitions sample_db)" "int4 (bd_AmountCents rent_bill)"
    "seq_instances sample_db + int (nat (env_BillInstanceLookaheadDays sample_env + 1)) \<le> 2 ^ 31"
    by (simp_all add: sample_env_def sample_db_def empty_db_def regular_fixed_tz int4_def rent_bill_def)
  have "int4 95010" by (simp add: int4_def)
  from form_amount [OF this] obtain x where "ParseFloat ''950.10'' = Some x" "dollars_to_cents x = 95010"
    by (auto simp: formatCentsPlain_def fixed2_cents render_cents_def show_nat.simps two_digits_def resaved_def)
  moreover have "TrimSpace '' Rent '' = ''Rent''" "int_between 1 31 ''31'' = Some 31" by code_simp+
  ultimately have "parseBillForm (env_tz sample_env) add_request = Inr rent_bill"
    by (simp add: parseBillForm_def add_request_def rent_bill_def blank_definition_def Let_def)
  note eff = addBill_effect [OF pre(1) sample_db_ok pre(2) this pre(4,3,5)]
  have texts: "text_ok (bd_Name rent_bill)" "pred_option text_ok (bd_VendorURL rent_bill)"
    by (simp_all add: rent_bill_def blank_definition_def)
  have "Date 2026 2 28 \<in> set (date_range (time_date (env_tz sample_env) (env_now sample_env))
      (window_end (env_tz sample_env) (env_now sample_env) (env_BillInstanceLookaheadDays sample_env)))"
    "due_on (env_tz sample_env) rent_bill (Date 2026 2 28)"
    by code_simp+
  with eff texts show ?thesis by (auto simp: sample_db_def)
qed

end
