(* ===== verification/Config.thy ===== *)
theory Config
  imports Go_Dates Go_Float Json
begin

text \<open>
  The configuration of \<^verbatim>\<open>internal/config\<close>: environment variables with their
  \<^verbatim>\<open>_FILE\<close> variants (\<^verbatim>\<open>config.go\<close>) and the two bootstrap files
  (\<^verbatim>\<open>bills_bootstrap.go\<close>, \<^verbatim>\<open>vendor_connections_bootstrap.go\<close>). The process
  environment and the file system are arguments, and so is the JSON syntax: a file's
  text becomes a JSON value, which the decoders here turn into entries.
\<close>

section \<open>The process environment\<close>

record os =
  os_Getenv :: "string \<Rightarrow> string"
  os_ReadFile :: "string \<Rightarrow> (string, string) result"

definition Getenv :: "os \<Rightarrow> string \<Rightarrow> string" where
  "Getenv os key =
     (let path = os_Getenv os (key @ ''_FILE'') in
      if path \<noteq> '''' then (case os_ReadFile os path of Inr data \<Rightarrow> data | Inl e \<Rightarrow> os_Getenv os key)
      else os_Getenv os key)"

definition getEnvDefault :: "os \<Rightarrow> string \<Rightarrow> string \<Rightarrow> string" where
  "getEnvDefault os key def = (let v = Getenv os key in if v \<noteq> '''' then v else def)"

record Config =
  cfg_ListenAddr :: string
  cfg_DBHost :: string
  cfg_DBPort :: string
  cfg_DBName :: string
  cfg_DBUser :: string
  cfg_DBPassword :: string
  cfg_DBSSLMode :: string
  cfg_ConfigDir :: string
  cfg_EncryptionKey :: string
  cfg_BillInstanceLookaheadDays :: int
  cfg_SimpleFinRefreshIntervalMinutes :: int
  cfg_VendorRefreshIntervalMinutes :: int
  cfg_PluginConnectionSecret :: string
  cfg_VersionCheckInterval :: int

definition env_int :: "os \<Rightarrow> string \<Rightarrow> string \<Rightarrow> (string, int) result" where
  "env_int os key def =
     (let v = getEnvDefault os key def in
      case Atoi v of None \<Rightarrow> Inl (''invalid '' @ key @ '': '' @ num_error ''Atoi'' v) | Some n \<Rightarrow> Inr n)"

definition Load :: "os \<Rightarrow> (string, Config) result" where
  "Load os =
     (case env_int os ''BILL_INSTANCE_LOOKAHEAD_DAYS'' ''60'' of Inl e \<Rightarrow> Inl e | Inr lookahead \<Rightarrow>
      (case env_int os ''SIMPLEFIN_REFRESH_INTERVAL_MINUTES'' ''60'' of Inl e \<Rightarrow> Inl e | Inr simplefin \<Rightarrow>
      (case env_int os ''VENDOR_REFRESH_INTERVAL_MINUTES'' ''360'' of Inl e \<Rightarrow> Inl e | Inr vendor \<Rightarrow>
      (case env_int os ''VERSION_CHECK_INTERVAL_MINUTES'' ''1440'' of Inl e \<Rightarrow> Inl e | Inr version \<Rightarrow>
        let cfg = \<lparr>cfg_ListenAddr = getEnvDefault os ''LISTEN_ADDR'' '':8090'',
              cfg_DBHost = Getenv os ''DB_HOST'',
              cfg_DBPort = getEnvDefault os ''DB_PORT'' ''5432'',
              cfg_DBName = Getenv os ''DB_NAME'',
              cfg_DBUser = Getenv os ''DB_USER'',
              cfg_DBPassword = Getenv os ''DB_PASSWORD'',
              cfg_DBSSLMode = getEnvDefault os ''DB_SSLMODE'' ''disable'',
              cfg_ConfigDir = getEnvDefault os ''CONFIG_DIR'' ''./.config'',
              cfg_EncryptionKey = Getenv os ''ENCRYPTION_KEY'',
              cfg_BillInstanceLookaheadDays = lookahead,
              cfg_SimpleFinRefreshIntervalMinutes = simplefin,
              cfg_VendorRefreshIntervalMinutes = vendor,
              cfg_PluginConnectionSecret =
                getEnvDefault os ''PLUGIN_CONNECTION_SECRET'' ''hhq-plugin-connection'',
              cfg_VersionCheckInterval = minutes version\<rparr>
        in if cfg_DBHost cfg = '''' \<or> cfg_DBName cfg = '''' \<or> cfg_DBUser cfg = ''''
           then Inl ''DB_HOST, DB_NAME, and DB_USER must be set''
           else if cfg_EncryptionKey cfg = ''''
           then Inl (''ENCRYPTION_KEY must be set - it protects the shared token issued to hhq on '' @
             ''self-registration (and SimpleFIN access URLs, if used), see README.md'')
           else Inr cfg))))"

definition DSN :: "Config \<Rightarrow> string" where
  "DSN c = ''host='' @ cfg_DBHost c @ '' port='' @ cfg_DBPort c @ '' dbname='' @ cfg_DBName c @
     '' user='' @ cfg_DBUser c @ '' password='' @ cfg_DBPassword c @ '' sslmode='' @ cfg_DBSSLMode c"

section \<open>Bootstrap files\<close>

definition resolvePassword :: "os \<Rightarrow> string \<Rightarrow> string \<Rightarrow> (string, string) result" where
  "resolvePassword os password passwordFile =
     (if password \<noteq> '''' \<and> passwordFile \<noteq> ''''
      then Inl ''password and password_file are mutually exclusive''
      else if passwordFile = '''' then Inr password
      else (case os_ReadFile os passwordFile of
         Inl e \<Rightarrow> Inl (''reading password_file '' @ Quote passwordFile @ '': '' @ e)
       | Inr data \<Rightarrow> Inr (TrimSpace data)))"

record BillBootstrap =
  bb_Name :: string
  bb_Amount :: float64
  bb_Schedule :: string
  bb_DayOfMonth :: "int option"
  bb_QuarterStartMonth :: "int option"
  bb_OneOffDate :: string
  bb_VendorURL :: string
  bb_Connector :: string
  bb_Tenant :: string
  bb_Username :: string
  bb_Password :: string
  bb_PasswordFile :: string

record VendorConnectionBootstrap =
  vb_BillName :: string
  vb_Connector :: string
  vb_Tenant :: string
  vb_Username :: string
  vb_Password :: string
  vb_PasswordFile :: string

definition BillBootstrap_ResolvePassword :: "os \<Rightarrow> BillBootstrap \<Rightarrow> (string, string) result" where
  [simp]: "BillBootstrap_ResolvePassword os e = resolvePassword os (bb_Password e) (bb_PasswordFile e)"

definition VendorConnectionBootstrap_ResolvePassword ::
    "os \<Rightarrow> VendorConnectionBootstrap \<Rightarrow> (string, string) result" where
  [simp]: "VendorConnectionBootstrap_ResolvePassword os e = resolvePassword os (vb_Password e) (vb_PasswordFile e)"

text \<open>A \<^verbatim>\<open>float64\<close> field and a \<^verbatim>\<open>*int\<close> field, which \<^verbatim>\<open>null\<close> resets.\<close>

definition decode_float :: "(float64 \<Rightarrow> 'a \<Rightarrow> 'a) \<Rightarrow> json \<Rightarrow> 'a \<Rightarrow> (string, 'a) result" where
  "decode_float upd v x =
     (case v of
        JNull \<Rightarrow> Inr x
      | JNum s \<Rightarrow> (case ParseFloat s of None \<Rightarrow> Inl json_mismatch | Some f \<Rightarrow> Inr (upd f x))
      | _ \<Rightarrow> Inl json_mismatch)"

definition decode_int_ptr :: "(int option \<Rightarrow> 'a \<Rightarrow> 'a) \<Rightarrow> json \<Rightarrow> 'a \<Rightarrow> (string, 'a) result" where
  "decode_int_ptr upd v x =
     (case v of
        JNull \<Rightarrow> Inr (upd None x)
      | JNum s \<Rightarrow> (case ParseInt s of None \<Rightarrow> Inl json_mismatch | Some n \<Rightarrow> Inr (upd (Some n) x))
      | _ \<Rightarrow> Inl json_mismatch)"

definition no_bill :: BillBootstrap where
  "no_bill = \<lparr>bb_Name = '''', bb_Amount = Finite 0, bb_Schedule = '''', bb_DayOfMonth = None,
     bb_QuarterStartMonth = None, bb_OneOffDate = '''', bb_VendorURL = '''', bb_Connector = '''',
     bb_Tenant = '''', bb_Username = '''', bb_Password = '''', bb_PasswordFile = ''''\<rparr>"

definition decode_bill :: "json \<Rightarrow> (string, BillBootstrap) result" where
  "decode_bill v = decode_struct
     [(''name'', decode_string (\<lambda>s x. x\<lparr>bb_Name := s\<rparr>)),
      (''amount'', decode_float (\<lambda>s x. x\<lparr>bb_Amount := s\<rparr>)),
      (''schedule'', decode_string (\<lambda>s x. x\<lparr>bb_Schedule := s\<rparr>)),
      (''day_of_month'', decode_int_ptr (\<lambda>s x. x\<lparr>bb_DayOfMonth := s\<rparr>)),
      (''quarter_start_month'', decode_int_ptr (\<lambda>s x. x\<lparr>bb_QuarterStartMonth := s\<rparr>)),
      (''one_off_date'', decode_string (\<lambda>s x. x\<lparr>bb_OneOffDate := s\<rparr>)),
      (''vendor_url'', decode_string (\<lambda>s x. x\<lparr>bb_VendorURL := s\<rparr>)),
      (''connector'', decode_string (\<lambda>s x. x\<lparr>bb_Connector := s\<rparr>)),
      (''tenant'', decode_string (\<lambda>s x. x\<lparr>bb_Tenant := s\<rparr>)),
      (''username'', decode_string (\<lambda>s x. x\<lparr>bb_Username := s\<rparr>)),
      (''password'', decode_string (\<lambda>s x. x\<lparr>bb_Password := s\<rparr>)),
      (''password_file'', decode_string (\<lambda>s x. x\<lparr>bb_PasswordFile := s\<rparr>))]
     v no_bill"

definition decode_vendor :: "json \<Rightarrow> (string, VendorConnectionBootstrap) result" where
  "decode_vendor v = decode_struct
     [(''bill_name'', decode_string (\<lambda>s x. x\<lparr>vb_BillName := s\<rparr>)),
      (''connector'', decode_string (\<lambda>s x. x\<lparr>vb_Connector := s\<rparr>)),
      (''tenant'', decode_string (\<lambda>s x. x\<lparr>vb_Tenant := s\<rparr>)),
      (''username'', decode_string (\<lambda>s x. x\<lparr>vb_Username := s\<rparr>)),
      (''password'', decode_string (\<lambda>s x. x\<lparr>vb_Password := s\<rparr>)),
      (''password_file'', decode_string (\<lambda>s x. x\<lparr>vb_PasswordFile := s\<rparr>))]
     v \<lparr>vb_BillName = '''', vb_Connector = '''', vb_Tenant = '''', vb_Username = '''',
       vb_Password = '''', vb_PasswordFile = ''''\<rparr>"

text \<open>\<open>syntax\<close> is the JSON parser: the value of a text, or why it is not JSON.\<close>

definition ParseBillsBootstrap :: "(string \<Rightarrow> (string, json) result) \<Rightarrow> string \<Rightarrow>
    (string, BillBootstrap list) result" where
  "ParseBillsBootstrap syntax raw =
     (if raw = '''' then Inr []
      else case syntax raw of
        Inl e \<Rightarrow> Inl (''parsing bills.json: '' @ e)
      | Inr v \<Rightarrow> (case decode_slice decode_bill v of
          Inl e \<Rightarrow> Inl (''parsing bills.json: '' @ e) | Inr entries \<Rightarrow> Inr entries))"

definition ParseVendorConnectionsBootstrap :: "(string \<Rightarrow> (string, json) result) \<Rightarrow> string \<Rightarrow>
    (string, VendorConnectionBootstrap list) result" where
  "ParseVendorConnectionsBootstrap syntax raw =
     (if raw = '''' then Inr []
      else case syntax raw of
        Inl e \<Rightarrow> Inl (''parsing VENDOR_CONNECTIONS: '' @ e)
      | Inr v \<Rightarrow> (case decode_slice decode_vendor v of
          Inl e \<Rightarrow> Inl (''parsing VENDOR_CONNECTIONS: '' @ e) | Inr entries \<Rightarrow> Inr entries))"

section \<open>Loading what was written\<close>

text \<open>
  How an operator hands over a value: in the variable itself, or in a file whose path
  the variable with the suffix \<^verbatim>\<open>_FILE\<close> names. \<open>written\<close> is the value of each
  variable that describes a configuration.
\<close>

definition provides :: "os \<Rightarrow> string \<Rightarrow> string \<Rightarrow> bool" where
  "provides os key v \<longleftrightarrow>
     (if os_Getenv os (key @ ''_FILE'') = '''' then os_Getenv os key = v
      else os_ReadFile os (os_Getenv os (key @ ''_FILE'')) = Inr v)"

definition written :: "Config \<Rightarrow> int \<Rightarrow> (string \<times> string) list" where
  "written cfg version =
     [(''LISTEN_ADDR'', cfg_ListenAddr cfg), (''DB_HOST'', cfg_DBHost cfg), (''DB_PORT'', cfg_DBPort cfg),
      (''DB_NAME'', cfg_DBName cfg), (''DB_USER'', cfg_DBUser cfg), (''DB_PASSWORD'', cfg_DBPassword cfg),
      (''DB_SSLMODE'', cfg_DBSSLMode cfg), (''CONFIG_DIR'', cfg_ConfigDir cfg),
      (''ENCRYPTION_KEY'', cfg_EncryptionKey cfg),
      (''PLUGIN_CONNECTION_SECRET'', cfg_PluginConnectionSecret cfg),
      (''BILL_INSTANCE_LOOKAHEAD_DAYS'', Itoa (cfg_BillInstanceLookaheadDays cfg)),
      (''SIMPLEFIN_REFRESH_INTERVAL_MINUTES'', Itoa (cfg_SimpleFinRefreshIntervalMinutes cfg)),
      (''VENDOR_REFRESH_INTERVAL_MINUTES'', Itoa (cfg_VendorRefreshIntervalMinutes cfg)),
      (''VERSION_CHECK_INTERVAL_MINUTES'', Itoa version)]"

definition config_ok :: "Config \<Rightarrow> int \<Rightarrow> bool" where
  "config_ok cfg version \<longleftrightarrow>
     list_all (\<lambda>v. v \<noteq> '''') [cfg_ListenAddr cfg, cfg_DBHost cfg, cfg_DBPort cfg, cfg_DBName cfg,
       cfg_DBUser cfg, cfg_DBSSLMode cfg, cfg_ConfigDir cfg, cfg_EncryptionKey cfg,
       cfg_PluginConnectionSecret cfg] \<and>
     int64_range (cfg_BillInstanceLookaheadDays cfg) \<and>
     int64_range (cfg_SimpleFinRefreshIntervalMinutes cfg) \<and>
     int64_range (cfg_VendorRefreshIntervalMinutes cfg) \<and> int64_range version \<and>
     cfg_VersionCheckInterval cfg = minutes version"

lemma provides_Getenv: "provides os key v \<Longrightarrow> Getenv os key = v"
  by (simp add: provides_def Getenv_def Let_def split: if_splits)

lemma Itoa_nonempty: "Itoa n \<noteq> ''''"
  by (simp add: Itoa_def show_nat_nonempty)



text \<open>
  C40. A configuration handed over variable by variable, each in the environment or
  in a file named by the \<^verbatim>\<open>_FILE\<close> variant, loads as exactly that configuration; and
  no configuration ever loads without a database host, name and user and an
  encryption key.
\<close>

theorem Load_written:
  "(config_ok cfg version \<and> (\<forall>(k, v) \<in> set (written cfg version). provides os k v) \<longrightarrow>
      Load os = Inr cfg) \<and>
   (Load os' = Inr cfg' \<longrightarrow>
      '''' \<notin> {cfg_DBHost cfg', cfg_DBName cfg', cfg_DBUser cfg', cfg_EncryptionKey cfg'})"
proof (intro conjI impI)
  assume "Load os' = Inr cfg'"
  then show "'''' \<notin> {cfg_DBHost cfg', cfg_DBName cfg', cfg_DBUser cfg', cfg_EncryptionKey cfg'}"
    by (auto simp: Load_def Let_def split: sum.splits if_splits)
next
  assume ok: "config_ok cfg version \<and> (\<forall>(k, v) \<in> set (written cfg version). provides os k v)"
  then have "\<forall>(k, v) \<in> set (written cfg version). Getenv os k = v"
    using provides_Getenv by fast
  with ok show "Load os = Inr cfg"
    by (simp add: Load_def written_def config_ok_def env_int_def getEnvDefault_def Let_def
        Itoa_nonempty ParseInt_Itoa)
qed

definition sample_os :: os where
  "sample_os = \<lparr>os_Getenv = (\<lambda>k. case map_of [(''DB_HOST'', ''db''), (''DB_NAME'', ''hhq''), (''DB_USER'', ''bt''),
       (''LISTEN_ADDR'', '':8090''), (''DB_PORT'', ''5432''), (''DB_SSLMODE'', ''disable''),
       (''CONFIG_DIR'', ''/cfg''), (''ENCRYPTION_KEY_FILE'', ''/run/key''), (''PLUGIN_CONNECTION_SECRET'', ''s''),
       (''BILL_INSTANCE_LOOKAHEAD_DAYS'', ''90''), (''SIMPLEFIN_REFRESH_INTERVAL_MINUTES'', ''60''),
       (''VENDOR_REFRESH_INTERVAL_MINUTES'', ''360''), (''VERSION_CHECK_INTERVAL_MINUTES'', ''1440'')] k of
       None \<Rightarrow> '''' | Some v \<Rightarrow> v),
     os_ReadFile = (\<lambda>p. if p = ''/run/key'' then Inr ''00ff'' else Inl ''no such file'')\<rparr>"

definition sample_config :: Config where
  "sample_config = \<lparr>cfg_ListenAddr = '':8090'', cfg_DBHost = ''db'', cfg_DBPort = ''5432'', cfg_DBName = ''hhq'',
     cfg_DBUser = ''bt'', cfg_DBPassword = '''', cfg_DBSSLMode = ''disable'', cfg_ConfigDir = ''/cfg'',
     cfg_EncryptionKey = ''00ff'', cfg_BillInstanceLookaheadDays = 90,
     cfg_SimpleFinRefreshIntervalMinutes = 60, cfg_VendorRefreshIntervalMinutes = 360,
     cfg_PluginConnectionSecret = ''s'', cfg_VersionCheckInterval = minutes 1440\<rparr>"

theorem Load_written_witness: "Load sample_os = Inr sample_config"
proof -
  have n: "Itoa 90 = ''90''" "Itoa 60 = ''60''" "Itoa 360 = ''360''" "Itoa 1440 = ''1440''"
    by code_simp+
  have "config_ok sample_config 1440"
    by (simp add: config_ok_def sample_config_def int64_range_def)
  moreover have "\<forall>(k, v) \<in> set (written sample_config 1440). provides sample_os k v"
    by (simp add: written_def sample_config_def n provides_def sample_os_def)
  ultimately show ?thesis using Load_written [of sample_config 1440 sample_os] by blast
qed


end
