(* ===== verification/Bootstrap.thy ===== *)
theory Bootstrap
  imports Settings Config
begin

text \<open>
  Reconciling the tables with \<^verbatim>\<open>bills.json\<close> at start-up
  (\<^verbatim>\<open>internal/handlers/bootstrap.go\<close>, \<^verbatim>\<open>bootstrapBills\<close> of \<^verbatim>\<open>cmd/server/main.go\<close>), and
  with a list of vendor connections (\<^verbatim>\<open>vendor_bootstrap.go\<close>). \<open>rands\<close> supplies the
  randomness of the encryption of each entry's password.
\<close>

section \<open>Entries of bills.json\<close>

definition billBootstrapToDefinition :: "tz \<Rightarrow> BillBootstrap \<Rightarrow> (string, BillDefinition) result" where
  "billBootstrapToDefinition tz entry =
     (if bb_Name entry = '''' then Inl ''name is required''
      else let def = blank_definition\<lparr>bd_Name := bb_Name entry, bd_AmountCents := dollars_to_cents (bb_Amount entry),
             bd_VendorURL := nullableString (bb_VendorURL entry)\<rparr>;
           in_range = (\<lambda>lo hi n. case n of None \<Rightarrow> False | Some k \<Rightarrow> \<not> (k < lo \<or> k > hi))
      in if bb_Connector entry \<noteq> '''' then Inr (def\<lparr>bd_ScheduleType := ScheduleVendor\<rparr>)
         else if bb_Schedule entry = ''monthly'' then
           (if \<not> in_range 1 31 (bb_DayOfMonth entry)
            then Inl ''day_of_month must be between 1 and 31 for a monthly bill''
            else Inr (def\<lparr>bd_ScheduleType := ScheduleMonthly, bd_DayOfMonth := bb_DayOfMonth entry\<rparr>))
         else if bb_Schedule entry = ''quarterly'' then
           (if \<not> in_range 1 31 (bb_DayOfMonth entry)
            then Inl ''day_of_month must be between 1 and 31 for a quarterly bill''
            else if \<not> in_range 1 3 (bb_QuarterStartMonth entry)
            then Inl ''quarter_start_month must be 1, 2, or 3 for a quarterly bill''
            else Inr (def\<lparr>bd_ScheduleType := ScheduleQuarterly, bd_DayOfMonth := bb_DayOfMonth entry,
              bd_QuarterStartMonth := bb_QuarterStartMonth entry\<rparr>))
         else if bb_Schedule entry = ''one_off'' then
           (case ParseInLocation tz layout_iso (bb_OneOffDate entry) UTC of
              Inl e \<Rightarrow> Inl (''one_off_date must be YYYY-MM-DD: '' @ e)
            | Inr due \<Rightarrow> Inr (def\<lparr>bd_ScheduleType := ScheduleOneOff, bd_OneOffDate := Some due\<rparr>))
         else Inl (''schedule must be '' @ single_quoted ''monthly'' @ '', '' @ single_quoted ''quarterly'' @
           '', or '' @ single_quoted ''one_off'' @ '', got '' @ Quote (bb_Schedule entry)))"

definition vendor_row :: "int \<Rightarrow> string \<Rightarrow> string \<Rightarrow> string \<Rightarrow> string \<Rightarrow> VendorConnection" where
  "vendor_row billDefID connector tenant username encryptedPassword =
     \<lparr>vc_ID = 0, vc_BillDefinitionID = billDefID, vc_Connector = connector, vc_Tenant = tenant,
      vc_Username = username, vc_EncryptedPassword = encryptedPassword, vc_LastAccountNumber = None,
      vc_LastSyncedAt = None, vc_LastSyncError = None, vc_BootstrapManaged = True, vc_CreatedAt = zero_time\<rparr>"

definition attachVendorConnection :: "env \<Rightarrow> os \<Rightarrow> randomness \<Rightarrow> int \<Rightarrow> BillBootstrap \<Rightarrow> db \<Rightarrow> db" where
  "attachVendorConnection E os rand billDefID entry s =
     (case BillBootstrap_ResolvePassword os entry of
        Inl e \<Rightarrow> s
      | Inr password \<Rightarrow>
          if bb_Username entry = '''' \<or> password = '''' then s
          else case Encrypt (env_Encryptor E) rand password of
            Inl e \<Rightarrow> s
          | Inr encryptedPassword \<Rightarrow>
              (case VendorConnectionStore_Upsert (vendor_row billDefID (bb_Connector entry) (bb_Tenant entry)
                  (bb_Username entry) encryptedPassword) s of
                 (Inl e, s1) \<Rightarrow> s1
               | (Inr _, s1) \<Rightarrow>
                   (case VendorConnectionStore_GetByBillDefinitionID billDefID s1 of
                      (Inl e, s2) \<Rightarrow> s2
                    | (Inr conn, s2) \<Rightarrow> RefreshVendorConnectionIfStale E conn s2)))"

text \<open>After the definition is in place: its connection, or its instances.\<close>

definition bootstrap_followup :: "env \<Rightarrow> os \<Rightarrow> randomness \<Rightarrow> BillBootstrap \<Rightarrow> BillDefinition \<Rightarrow> db \<Rightarrow> db" where
  "bootstrap_followup E os rand entry def s =
     (if bb_Connector entry \<noteq> '''' then attachVendorConnection E os rand (bd_ID def) entry s
      else snd (GenerateInstancesForDefinition (env_tz E) (env_now E) def (env_BillInstanceLookaheadDays E) s))"

definition bootstrap_entry :: "env \<Rightarrow> os \<Rightarrow> randomness \<Rightarrow> BillBootstrap \<Rightarrow> BillDefinition \<Rightarrow> db \<Rightarrow> db" where
  "bootstrap_entry E os rand entry def s =
     (case BillDefinitionStore_GetByName (bd_Name def) s of
        (Inl e, s1) \<Rightarrow>
          if e = ErrBillNotFound then
            (case BillDefinitionStore_Create (env_tz E) (def\<lparr>bd_BootstrapManaged := True\<rparr>) s1 of
               (Inl e, s2) \<Rightarrow> s2
             | (Inr rid, s2) \<Rightarrow>
                 bootstrap_followup E os rand entry (def\<lparr>bd_BootstrapManaged := True, bd_ID := rid\<rparr>) s2)
          else s1
      | (Inr existing, s1) \<Rightarrow>
          if \<not> bd_BootstrapManaged existing then s1
          else let def = def\<lparr>bd_ID := bd_ID existing, bd_AmountCents :=
                 (if bb_Connector entry \<noteq> '''' then bd_AmountCents existing else bd_AmountCents def)\<rparr>
            in case BillDefinitionStore_UpdateBootstrap (env_tz E) (bd_ID existing) def s1 of
                 (Inl e, s2) \<Rightarrow> s2
               | (Inr _, s2) \<Rightarrow> bootstrap_followup E os rand entry def s2)"

text \<open>The loop; \<open>seen\<close> collects the names of the entries that could be read.\<close>

fun bootstrap_entries :: "env \<Rightarrow> os \<Rightarrow> (nat \<Rightarrow> randomness) \<Rightarrow> BillBootstrap list \<Rightarrow> string list \<Rightarrow> db \<Rightarrow>
    string list \<times> db" where
  "bootstrap_entries E os rands [] seen s = (seen, s)"
| "bootstrap_entries E os rands (entry # entries) seen s =
     (case billBootstrapToDefinition (env_tz E) entry of
        Inl e \<Rightarrow> bootstrap_entries E os rands entries seen s
      | Inr def \<Rightarrow> bootstrap_entries E os rands entries (bd_Name def # seen)
          (bootstrap_entry E os (rands (length entries)) entry def s))"

fun remove_unlisted :: "string list \<Rightarrow> BillDefinition list \<Rightarrow> db \<Rightarrow> db" where
  "remove_unlisted seen [] s = s"
| "remove_unlisted seen (d # defs) s = remove_unlisted seen defs
     (if bd_BootstrapManaged d \<and> bd_Name d \<notin> set seen then snd (BillDefinitionStore_Delete (bd_ID d) s) else s)"

definition BootstrapBills :: "env \<Rightarrow> os \<Rightarrow> (nat \<Rightarrow> randomness) \<Rightarrow> BillBootstrap list \<Rightarrow> db \<Rightarrow> db" where
  "BootstrapBills E os rands entries s =
     (case bootstrap_entries E os rands entries [] s of
        (seen, s1) \<Rightarrow>
          (case BillDefinitionStore_ListAll s1 of
             (Inl e, s2) \<Rightarrow> s2
           | (Inr defs, s2) \<Rightarrow> remove_unlisted seen defs s2))"

text \<open>\<open>file\<close> is the outcome of reading \<^verbatim>\<open>bills.json\<close> in the configured directory.\<close>

definition bootstrapBills :: "env \<Rightarrow> os \<Rightarrow> (nat \<Rightarrow> randomness) \<Rightarrow> (string \<Rightarrow> (string, json) result) \<Rightarrow>
    (string, string) result \<Rightarrow> db \<Rightarrow> db" where
  "bootstrapBills E os rands syntax file s =
     (case file of
        Inl e \<Rightarrow> s
      | Inr raw \<Rightarrow>
          (case ParseBillsBootstrap syntax raw of
             Inl e \<Rightarrow> s
           | Inr entries \<Rightarrow> BootstrapBills E os rands entries s))"

section \<open>Vendor connections\<close>

definition bootstrapVendorConnection :: "env \<Rightarrow> os \<Rightarrow> randomness \<Rightarrow> VendorConnectionBootstrap \<Rightarrow> unit dbm" where
  "bootstrapVendorConnection E os rand entry s =
     (case VendorConnectionBootstrap_ResolvePassword os entry of
        Inl e \<Rightarrow> (Inl (Error (''invalid password/password_file: '' @ e)), s)
      | Inr password \<Rightarrow>
          if vb_BillName entry = '''' \<or> vb_Connector entry = '''' \<or> vb_Username entry = '''' \<or> password = ''''
          then (Inl (Error ''bill_name, connector, username, and password (or password_file) are all required''), s)
          else case BillDefinitionStore_GetByName (vb_BillName entry) s of
            (Inl e, s1) \<Rightarrow>
              (Inl (Error (if e = ErrBillNotFound
                 then ''no bill named '' @ Quote (vb_BillName entry) @
                   '' exists (vendor connections attach to an existing bill, they don'' @ [CHR 0x27] @ ''t create one)''
                 else ''looking up bill '' @ Quote (vb_BillName entry) @ '': '' @ error_text e)), s1)
          | (Inr def, s1) \<Rightarrow>
              (case Encrypt (env_Encryptor E) rand password of
                 Inl e \<Rightarrow> (Inl (Error (''encrypting password: '' @ e)), s1)
               | Inr encryptedPassword \<Rightarrow>
                   (case VendorConnectionStore_Upsert (vendor_row (bd_ID def) (vb_Connector entry)
                       (vb_Tenant entry) (vb_Username entry) encryptedPassword) s1 of
                      (Inl e, s2) \<Rightarrow> (Inl (Error (''upserting: '' @ error_text e)), s2)
                    | (Inr _, s2) \<Rightarrow> (Inr (), s2))))"

fun BootstrapVendorConnections :: "env \<Rightarrow> os \<Rightarrow> (nat \<Rightarrow> randomness) \<Rightarrow> VendorConnectionBootstrap list \<Rightarrow> db \<Rightarrow> db" where
  "BootstrapVendorConnections E os rands [] s = s"
| "BootstrapVendorConnections E os rands (entry # entries) s = BootstrapVendorConnections E os rands entries
     (snd (bootstrapVendorConnection E os (rands (length entries)) entry s))"

section \<open>What the bootstrap keeps\<close>

text \<open>
  Every row that carries the id is managed by the file. The bootstrap changes existing
  rows only for such ids: the bill it found, or the one it has just created.
\<close>

definition managed_only :: "int \<Rightarrow> db \<Rightarrow> bool" where
  "managed_only rid s \<longleftrightarrow> (\<forall>b \<in> set (bt_bill_definitions s). bd_ID b = rid \<longrightarrow> bd_BootstrapManaged b)"

definition owners :: "db \<Rightarrow> (int \<times> string \<times> bool) list" where
  "owners s = map (\<lambda>b. (bd_ID b, bd_Name b, bd_BootstrapManaged b)) (bt_bill_definitions s)"

lemma managed_only_owners: "managed_only rid s \<longleftrightarrow> (\<forall>(k, n, m) \<in> set (owners s). k = rid \<longrightarrow> m)"
  by (auto simp: managed_only_def owners_def)

lemma managed_only_cong: "owners s' = owners s \<Longrightarrow> managed_only rid s' = managed_only rid s"
  by (simp add: managed_only_owners)

lemma owners_update:
  "(\<And>b. (bd_ID (f b), bd_Name (f b), bd_BootstrapManaged (f b)) = (bd_ID b, bd_Name b, bd_BootstrapManaged b)) \<Longrightarrow>
   map (\<lambda>b. (bd_ID b, bd_Name b, bd_BootstrapManaged b)) (update_where p f rows) =
   map (\<lambda>b. (bd_ID b, bd_Name b, bd_BootstrapManaged b)) rows"
  by (rule map_update_where) simp

lemma owners_kept:
  "owners (snd (BillDefinitionStore_GetByName n s)) = owners s"
  "owners (snd (BillDefinitionStore_ListAll s)) = owners s"
  "owners (snd (VendorConnectionStore_GetByBillDefinitionID rid s)) = owners s"
  "owners (snd (BillDefinitionStore_UpdateBootstrap tz rid b s)) = owners s"
  "owners (snd (BillDefinitionStore_UpdateAmount rid cents s)) = owners s"
  "owners (snd (BillInstanceStore_EnsureInstance tz rid t s)) = owners s"
  "owners (snd (VendorConnectionStore_Upsert v s)) = owners s"
  "owners (snd (VendorConnectionStore_MarkSynced rid acct e s)) = owners s"
  unfolding BillDefinitionStore_GetByName_def BillDefinitionStore_ListAll_def
    VendorConnectionStore_GetByBillDefinitionID_def BillDefinitionStore_UpdateBootstrap_def
    BillDefinitionStore_UpdateAmount_def BillInstanceStore_EnsureInstance_def
    VendorConnectionStore_Upsert_def VendorConnectionStore_MarkSynced_def
  by (rule sql_keeps; simp add: statement_defs owners_def owners_update split: list.split)+

lemmas managed_only_kept = owners_kept [THEN managed_only_cong]

lemma GetByBillDefinitionID_owner:
  "VendorConnectionStore_GetByBillDefinitionID rid s = (Inr conn, s') \<Longrightarrow> vc_BillDefinitionID conn = rid"
  by (auto simp: VendorConnectionStore_GetByBillDefinitionID_def sql_def fail_def storing_def scanVendorConnection_def
      filter_eq_Cons_iff split: list.splits option.splits if_splits)

lemma GetByName_found:
  "BillDefinitionStore_GetByName n s = (Inr b, s') \<Longrightarrow> b \<in> set (bt_bill_definitions s') \<and> bd_Name b = n"
  by (auto simp: BillDefinitionStore_GetByName_def sql_def storing_def fail_def scanBillDefinition_def
      filter_eq_Cons_iff split: list.splits option.splits if_splits)

lemma managed_onlyI:
  assumes "db_ok s" "b \<in> set (bt_bill_definitions s)" "bd_BootstrapManaged b"
  shows "managed_only (bd_ID b) s"
proof -
  have "distinct (map bd_ID (bt_bill_definitions s))"
    using assms(1) by (simp add: db_ok_def definitions_ok_def keys_ok_def)
  then show ?thesis using assms(2,3) unfolding managed_only_def by (metis distinct_map inj_onD)
qed

lemma Create_managed_only:
  assumes "db_ok s" "BillDefinitionStore_Create tz b s = (Inr rid, s')" "bd_BootstrapManaged b"
  shows "managed_only rid s'"
proof -
  have "bd_ID r \<noteq> seq_definitions s" if "r \<in> set (bt_bill_definitions s)" for r
    using assms(1) that by (auto simp: db_ok_def definitions_ok_def keys_ok_def)
  then show ?thesis
    using assms(2,3)
    by (auto simp: BillDefinitionStore_Create_def sql_def statement_defs managed_only_def
        split: list.splits option.splits if_splits)
qed

lemma Delete_managed_only: "managed_only rid s \<Longrightarrow> managed_only rid (snd (BillDefinitionStore_Delete k s))"
  unfolding BillDefinitionStore_Delete_def
  by (rule sql_cases [of "\<lambda>s. if \<not> int4 k then fail ''id'' s else (Inr (), s\<lparr>
         bt_bill_definitions := delete_where (\<lambda>b. bd_ID b = k) (bt_bill_definitions s),
         bt_bill_instances := delete_where (\<lambda>i. bi_BillDefinitionID i = k) (bt_bill_instances s),
         bt_vendor_connections := delete_where (\<lambda>v. vc_BillDefinitionID v = k) (bt_vendor_connections s)\<rparr>)" s])
    (simp_all add: statement_defs managed_only_def)

text \<open>The last step for an entry, and the whole of it: two contracts, the second extends the first.\<close>

locale followup_invariant =
  fixes I :: "db \<Rightarrow> bool"
  assumes get_vendor: "preserves I (VendorConnectionStore_GetByBillDefinitionID rid)"
    and ensure: "I s \<Longrightarrow> managed_only rid s \<Longrightarrow> I (snd (BillInstanceStore_EnsureInstance tz rid t s))"
    and amount: "I s \<Longrightarrow> managed_only rid s \<Longrightarrow> I (snd (BillDefinitionStore_UpdateAmount rid cents s))"
    and upsert: "preserves I (VendorConnectionStore_Upsert v)"
    and synced: "preserves I (VendorConnectionStore_MarkSynced rid acct e)"
begin

lemma ensure_all_keeps: "I s \<Longrightarrow> managed_only rid s \<Longrightarrow> I (snd (ensure_all tz rid ts s))"
proof (induction ts arbitrary: s)
  case (Cons t ts)
  obtain x s1 where e: "BillInstanceStore_EnsureInstance tz rid t s = (x, s1)" by force
  have "I s1" "managed_only rid s1"
    using ensure [OF Cons.prems, of tz t] Cons.prems(2) managed_only_kept(6) [of rid tz rid t s] e by simp_all
  then show ?case using Cons.IH by (simp add: e split: sum.split)
qed simp

lemma RefreshVendorConnectionNow_keeps:
  "I s \<Longrightarrow> managed_only (vc_BillDefinitionID conn) s \<Longrightarrow> I (RefreshVendorConnectionNow E conn s)"
  by (simp add: RefreshVendorConnectionNow_cases preservesD [OF synced] ensure amount managed_only_kept
      split: sum.split)

lemma attachVendorConnection_keeps:
  assumes "I s" "managed_only rid s"
  shows "I (attachVendorConnection E os rand rid entry s)"
proof -
  have "I (case VendorConnectionStore_Upsert v s of (Inl e, s1) \<Rightarrow> s1 | (Inr _, s1) \<Rightarrow>
      (case VendorConnectionStore_GetByBillDefinitionID rid s1 of (Inl e, s2) \<Rightarrow> s2
       | (Inr conn, s2) \<Rightarrow> RefreshVendorConnectionIfStale E conn s2))" for v
  proof -
    obtain x s1 y s2 where u: "VendorConnectionStore_Upsert v s = (x, s1)"
      and g: "VendorConnectionStore_GetByBillDefinitionID rid s1 = (y, s2)" by force
    have s1: "I s1" "managed_only rid s1"
      using preserves_result [OF upsert assms(1) u] managed_only_kept(7) [of rid v s] assms(2) u by simp_all
    have s2: "I s2" "managed_only rid s2"
      using preserves_result [OF get_vendor s1(1) g] managed_only_kept(3) [of rid rid s1] s1(2) g by simp_all
    have "vc_BillDefinitionID conn = rid" if "y = Inr conn" for conn
      using GetByBillDefinitionID_owner g that by blast
    then show ?thesis
      using s1 s2 by (auto simp: u g RefreshVendorConnectionIfStale_def RefreshVendorConnectionNow_keeps
          split: sum.split option.split)
  qed
  then show ?thesis
    using assms(1) by (simp add: attachVendorConnection_def split: sum.split)
qed

lemma bootstrap_followup_keeps:
  "I s \<Longrightarrow> managed_only (bd_ID def) s \<Longrightarrow> I (bootstrap_followup E os rand entry def s)"
  by (simp add: bootstrap_followup_def GenerateInstancesForDefinition_def Let_def attachVendorConnection_keeps
      ensure_all_keeps)

end

locale bootstrap_invariant = followup_invariant +
  assumes schema: "I s \<Longrightarrow> db_ok s"
    and by_name: "preserves I (BillDefinitionStore_GetByName n)"
    and list_bills: "preserves I BillDefinitionStore_ListAll"
    and create: "bd_BootstrapManaged b \<Longrightarrow> preserves I (BillDefinitionStore_Create tz b)"
    and update: "I s \<Longrightarrow> managed_only rid s \<Longrightarrow> I (snd (BillDefinitionStore_UpdateBootstrap tz rid b s))"
    and delete: "I s \<Longrightarrow> managed_only rid s \<Longrightarrow> I (snd (BillDefinitionStore_Delete rid s))"
begin

lemma bootstrap_entry_keeps:
  assumes "I s" shows "I (bootstrap_entry E os rand entry def s)"
proof -
  obtain x s1 where g: "BillDefinitionStore_GetByName (bd_Name def) s = (x, s1)" by force
  have s1: "I s1" by (rule preserves_result [OF by_name assms g])
  show ?thesis
  proof (cases x)
    case (Inl e)
    let ?def = "def\<lparr>bd_BootstrapManaged := True\<rparr>"
    obtain y s2 where c: "BillDefinitionStore_Create (env_tz E) ?def s1 = (y, s2)" by force
    have m: "bd_BootstrapManaged ?def" by simp
    have s2: "I s2" by (rule preserves_result [OF create [OF m] s1 c])
    have "managed_only rid s2" if "y = Inr rid" for rid
      using Create_managed_only [OF schema [OF s1] _ m] c that by blast
    with s1 s2 Inl show ?thesis
      by (auto simp: bootstrap_entry_def g c bootstrap_followup_keeps split: sum.split)
  next
    case (Inr existing)
    show ?thesis
    proof (cases "bd_BootstrapManaged existing")
      case True
      have mo: "managed_only (bd_ID existing) s1"
        using managed_onlyI [OF schema [OF s1]] GetByName_found g Inr True by blast
      have upd: "I s2 \<and> managed_only (bd_ID existing) s2"
        if "BillDefinitionStore_UpdateBootstrap (env_tz E) (bd_ID existing) b s1 = (y, s2)" for b y s2
        using update [OF s1 mo, of "env_tz E" b] managed_only_kept(4) [of _ "env_tz E" "bd_ID existing" b s1] mo that
        by simp
      then show ?thesis
        using Inr True by (auto simp: bootstrap_entry_def g Let_def bootstrap_followup_keeps
            split: sum.split prod.split)
    qed (simp add: bootstrap_entry_def g Inr s1)
  qed
qed

lemma bootstrap_entries_keeps: "I s \<Longrightarrow> I (snd (bootstrap_entries E os rands entries seen s))"
  by (induction entries arbitrary: seen s) (simp_all add: bootstrap_entry_keeps split: sum.split)

lemma remove_unlisted_keeps:
  assumes "I s" "\<forall>d \<in> set defs. bd_BootstrapManaged d \<longrightarrow> managed_only (bd_ID d) s"
  shows "I (remove_unlisted seen defs s)"
  using assms
proof (induction defs arbitrary: s)
  case (Cons d defs)
  then show ?case by (simp add: delete Delete_managed_only)
qed simp

lemma BootstrapBills_keeps: "I s \<Longrightarrow> I (BootstrapBills E os rands entries s)"
proof -
  assume s: "I s"
  obtain seen s1 where e: "bootstrap_entries E os rands entries [] s = (seen, s1)" by force
  have s1: "I s1" using bootstrap_entries_keeps [OF s, of E os rands entries "[]"] e by simp
  obtain x s2 where l: "BillDefinitionStore_ListAll s1 = (x, s2)" by force
  have s2: "I s2" by (rule preserves_result [OF list_bills s1 l])
  have "set defs = set (bt_bill_definitions s2)" if "x = Inr defs" for defs
    using l that by (auto simp: BillDefinitionStore_ListAll_def sql_def split: list.splits option.splits)
  then have "\<forall>d \<in> set defs. bd_BootstrapManaged d \<longrightarrow> managed_only (bd_ID d) s2" if "x = Inr defs" for defs
    using managed_onlyI [OF schema [OF s2]] that by simp
  then show ?thesis
    using s2 by (auto simp: BootstrapBills_def e l remove_unlisted_keeps split: sum.split)
qed

lemma bootstrapBills_keeps: "I s \<Longrightarrow> I (bootstrapBills E os rands syntax file s)"
  by (simp add: bootstrapBills_def BootstrapBills_keeps split: sum.split)

lemma BootstrapVendorConnections_keeps: "I s \<Longrightarrow> I (BootstrapVendorConnections E os rands entries s)"
proof (induction entries arbitrary: s)
  case (Cons entry entries)
  have "I (snd (bootstrapVendorConnection E os rand entry s))" for rand
    using Cons.prems
    by (auto simp: bootstrapVendorConnection_def split: sum.split prod.split
        intro: preserves_result [OF by_name] preserves_result [OF upsert])
  then show ?case using Cons.IH by simp
qed simp

end

interpretation bootstrap_schema: bootstrap_invariant db_ok
  by unfold_locales
    (simp_all add: bill_store_ok connection_store_ok preservesD [OF definition_updates_ok(2)]
      preservesD [OF definition_updates_ok(3)] preservesD [OF Delete_ok] preservesD [OF EnsureInstance_ok])

text \<open>The bills created on the settings page, and their instances.\<close>

definition ui_bills :: "db \<Rightarrow> BillDefinition list" where
  "ui_bills s = filter (\<lambda>b. \<not> bd_BootstrapManaged b) (bt_bill_definitions s)"

definition ui_instances :: "db \<Rightarrow> BillInstance list" where
  "ui_instances s = filter (\<lambda>i. bi_BillDefinitionID i \<in> bd_ID ` set (ui_bills s)) (bt_bill_instances s)"

lemma managed_only_ui: "managed_only rid s \<Longrightarrow> rid \<notin> bd_ID ` set (ui_bills s)"
  by (auto simp: managed_only_def ui_bills_def)

lemma ui_bills_kept:
  "ui_bills (snd (BillDefinitionStore_GetByName n s)) = ui_bills s"
  "ui_bills (snd (BillDefinitionStore_ListAll s)) = ui_bills s"
  "ui_bills (snd (VendorConnectionStore_GetByBillDefinitionID rid s)) = ui_bills s"
  "bd_BootstrapManaged b \<Longrightarrow> ui_bills (snd (BillDefinitionStore_Create tz b s)) = ui_bills s"
  "managed_only rid s \<Longrightarrow> ui_bills (snd (BillDefinitionStore_UpdateBootstrap tz rid b s)) = ui_bills s"
  "managed_only rid s \<Longrightarrow> ui_bills (snd (BillDefinitionStore_Delete rid s)) = ui_bills s"
  "ui_bills (snd (BillInstanceStore_EnsureInstance tz rid t s)) = ui_bills s"
  "managed_only rid s \<Longrightarrow> ui_bills (snd (BillDefinitionStore_UpdateAmount rid cents s)) = ui_bills s"
  "ui_bills (snd (VendorConnectionStore_Upsert v s)) = ui_bills s"
  "ui_bills (snd (VendorConnectionStore_MarkSynced rid acct e s)) = ui_bills s"
  unfolding BillDefinitionStore_GetByName_def BillDefinitionStore_ListAll_def
    VendorConnectionStore_GetByBillDefinitionID_def BillDefinitionStore_Create_def
    BillDefinitionStore_UpdateBootstrap_def BillDefinitionStore_Delete_def BillInstanceStore_EnsureInstance_def
    BillDefinitionStore_UpdateAmount_def VendorConnectionStore_Upsert_def VendorConnectionStore_MarkSynced_def
  by (rule sql_keeps; simp add: statement_defs ui_bills_def managed_only_def filter_update_other
      filter_delete_other split: list.split)+

lemma same_instances:
  "bt_bill_instances (snd (BillDefinitionStore_GetByName n s)) = bt_bill_instances s"
  "bt_bill_instances (snd (BillDefinitionStore_ListAll s)) = bt_bill_instances s"
  "bt_bill_instances (snd (VendorConnectionStore_GetByBillDefinitionID rid s)) = bt_bill_instances s"
  "bt_bill_instances (snd (BillDefinitionStore_UpdateBootstrap tz rid b s)) = bt_bill_instances s"
  "bt_bill_instances (snd (VendorConnectionStore_Upsert v s)) = bt_bill_instances s"
  unfolding BillDefinitionStore_GetByName_def BillDefinitionStore_ListAll_def
    VendorConnectionStore_GetByBillDefinitionID_def BillDefinitionStore_UpdateBootstrap_def
    VendorConnectionStore_Upsert_def
  by (rule sql_keeps; simp add: statement_defs split: list.split)+

lemma ui_instances_Delete:
  assumes "managed_only rid s"
  shows "ui_instances (snd (BillDefinitionStore_Delete rid s)) = ui_instances s"
proof -
  have "filter (\<lambda>i. bi_BillDefinitionID i \<in> bd_ID ` set (ui_bills s))
      (bt_bill_instances (snd (BillDefinitionStore_Delete rid s))) = ui_instances s"
    unfolding BillDefinitionStore_Delete_def ui_instances_def
    by (rule sql_keeps [where g = "\<lambda>u. filter (\<lambda>i. bi_BillDefinitionID i \<in> bd_ID ` set (ui_bills s)) (bt_bill_instances u)"])
      (use managed_only_ui [OF assms] in \<open>simp_all add: statement_defs filter_delete_other\<close>)
  then show ?thesis by (simp add: ui_instances_def ui_bills_kept(6) [OF assms])
qed

lemma ui_instances_Ensure:
  assumes "managed_only rid s"
  shows "ui_instances (snd (BillInstanceStore_EnsureInstance tz rid t s)) = ui_instances s"
proof -
  have "filter (\<lambda>i. bi_BillDefinitionID i \<in> bd_ID ` set (ui_bills s))
      (bt_bill_instances (snd (BillInstanceStore_EnsureInstance tz rid t s))) = ui_instances s"
    unfolding BillInstanceStore_EnsureInstance_def ui_instances_def
    by (rule sql_keeps [where g = "\<lambda>u. filter (\<lambda>i. bi_BillDefinitionID i \<in> bd_ID ` set (ui_bills s)) (bt_bill_instances u)"])
      (use managed_only_ui [OF assms] in \<open>simp_all add: statement_defs\<close>)
  then show ?thesis by (simp add: ui_instances_def ui_bills_kept)
qed

lemma ui_invariant:
  assumes "preserves db_ok m" "\<And>s. ui_bills (snd (m s)) = ui_bills s"
    and "\<And>s. bt_bill_instances (snd (m s)) = bt_bill_instances s"
  shows "preserves (\<lambda>s. db_ok s \<and> ui_bills s = U \<and> ui_instances s = V) m"
proof -
  have "ui_instances (snd (m s)) = ui_instances s" for s by (simp add: ui_instances_def assms)
  then show ?thesis using assms(1,2) by (simp add: preserves_def)
qed

interpretation bootstrap_ui:
  bootstrap_invariant "\<lambda>s. db_ok s \<and> ui_bills s = U \<and> ui_instances s = V" for U V
proof (unfold_locales, goal_cases)
  case 1
  show ?case by (intro ui_invariant bill_store_ok connection_store_ok ui_bills_kept same_instances)
next
  case 2
  then show ?case by (simp add: bootstrap_schema.ensure ui_bills_kept ui_instances_Ensure)
next
  case 3
  then show ?case
    by (auto simp: bootstrap_schema.amount ui_bills_kept ui_instances_def bt_bill_instances_kept)
next
  case 4
  show ?case by (intro ui_invariant bill_store_ok connection_store_ok ui_bills_kept same_instances)
next
  case 5
  show ?case by (intro ui_invariant bill_store_ok connection_store_ok ui_bills_kept bt_bill_instances_kept)
next
  case 7
  show ?case by (intro ui_invariant bill_store_ok connection_store_ok ui_bills_kept same_instances)
next
  case 8
  show ?case by (intro ui_invariant bill_store_ok connection_store_ok ui_bills_kept same_instances)
next
  case 9
  then show ?case by (intro ui_invariant bill_store_ok connection_store_ok ui_bills_kept instances_kept)
next
  case 10
  then show ?case
    by (auto simp: bootstrap_schema.update ui_bills_kept ui_instances_def same_instances)
next
  case 11
  then show ?case by (simp add: bootstrap_schema.delete ui_bills_kept ui_instances_Delete)
qed simp

text \<open>
  C21. Reconciling with \<^verbatim>\<open>bills.json\<close> never touches what was created on the settings page:
  whatever the file says, whatever the portals answer and whichever statements fail,
  every bill that is not managed by the file and every instance of such a bill is the
  same afterwards, row by row, and the schema's invariant holds.
\<close>

theorem bootstrapBills_spares_ui:
  assumes "db_ok s"
  shows "let s' = bootstrapBills E os rands syntax file s in
    db_ok s' \<and> ui_bills s' = ui_bills s \<and> ui_instances s' = ui_instances s"
  using bootstrap_ui.bootstrapBills_keeps [of s "ui_bills s" "ui_instances s"] assms by (simp add: Let_def)

theorem bootstrapBills_spares_ui_witness:
  "db_ok managed_db \<and> map bd_ID (ui_bills managed_db) = [2] \<and>
   ui_bills (bootstrapBills sample_env sample_os (\<lambda>_. sample_rand) (\<lambda>_. Inr (JArr [])) (Inr ''[]'') managed_db)
     = ui_bills managed_db"
  using bootstrapBills_spares_ui [OF managed_db_ok, of sample_env sample_os "\<lambda>_. sample_rand"
      "\<lambda>_. Inr (JArr [])" "Inr ''[]''"] managed_db_ok
  by (simp add: Let_def) (simp add: ui_bills_def managed_db_def day31_bill_def)

section \<open>Which bills the file leads to\<close>

lemma no_faults_bootstrap:
  "preserves (\<lambda>s. db_faults s = []) (VendorConnectionStore_GetByBillDefinitionID rid)"
  "preserves (\<lambda>s. db_faults s = []) (VendorConnectionStore_Upsert v)"
  "preserves (\<lambda>s. db_faults s = []) (BillDefinitionStore_GetByName n)"
  "preserves (\<lambda>s. db_faults s = []) (BillDefinitionStore_Create tz b)"
  "preserves (\<lambda>s. db_faults s = []) (BillDefinitionStore_UpdateBootstrap tz k b)"
  "preserves (\<lambda>s. db_faults s = []) (BillDefinitionStore_Delete k)"
  unfolding VendorConnectionStore_GetByBillDefinitionID_def VendorConnectionStore_Upsert_def
    BillDefinitionStore_GetByName_def BillDefinitionStore_Create_def BillDefinitionStore_UpdateBootstrap_def
    BillDefinitionStore_Delete_def
  by (rule sql_no_faults, simp add: statement_defs split: list.split)+

lemmas no_faults_store = no_faults_reads no_faults_updates no_faults_bootstrap

lemma preserves_conj: "preserves P m \<Longrightarrow> preserves Q m \<Longrightarrow> preserves (\<lambda>s. P s \<and> Q s) m"
  by (simp add: preserves_def)

interpretation bootstrap_calm: bootstrap_invariant "\<lambda>s. db_ok s \<and> db_faults s = []"
  by unfold_locales
    (simp_all add: preserves_conj bill_store_ok connection_store_ok no_faults_store
      bill_store_ok [THEN preservesD] no_faults_store [THEN preservesD])

lemma followup_tables:
  "seq_definitions (snd (VendorConnectionStore_GetByBillDefinitionID rid s)) = seq_definitions s"
  "seq_definitions (snd (BillInstanceStore_EnsureInstance tz rid t s)) = seq_definitions s"
  "seq_definitions (snd (BillDefinitionStore_UpdateAmount rid cents s)) = seq_definitions s"
  "seq_definitions (snd (VendorConnectionStore_Upsert v s)) = seq_definitions s"
  "seq_definitions (snd (VendorConnectionStore_MarkSynced rid acct e s)) = seq_definitions s"
  "seq_definitions (snd (BillDefinitionStore_UpdateBootstrap tz rid b s)) = seq_definitions s"
  unfolding VendorConnectionStore_GetByBillDefinitionID_def BillInstanceStore_EnsureInstance_def
    BillDefinitionStore_UpdateAmount_def VendorConnectionStore_Upsert_def VendorConnectionStore_MarkSynced_def
    BillDefinitionStore_UpdateBootstrap_def
  by (rule sql_keeps; simp add: statement_defs split: list.split)+

interpretation followup_owners: followup_invariant "\<lambda>s. owners s = T \<and> seq_definitions s = n" for T n
  by unfold_locales (simp_all add: preserves_def owners_kept followup_tables)

definition managed_names :: "db \<Rightarrow> string set" where
  "managed_names s = bd_Name ` {b \<in> set (bt_bill_definitions s). bd_BootstrapManaged b}"

definition ui_names :: "db \<Rightarrow> string set" where
  "ui_names s = bd_Name ` {b \<in> set (bt_bill_definitions s). \<not> bd_BootstrapManaged b}"

lemma names_owners:
  "managed_names s = {n. \<exists>k. (k, n, True) \<in> set (owners s)}"
  "ui_names s = {n. \<exists>k. (k, n, False) \<in> set (owners s)}"
  by (auto simp: managed_names_def ui_names_def owners_def)

lemma billBootstrapToDefinition_shape:
  assumes "billBootstrapToDefinition tz entry = Inr b"
  shows "definition_check b \<and> bd_SimpleFinAccountID b = None \<and>
    map_option (db_date tz) (bd_OneOffDate b) = bd_OneOffDate b"
  using assms parsed_day
  by (auto simp: billBootstrapToDefinition_def Let_def blank_definition_def definition_check_def
      schedule_shape_check_def split: if_splits option.splits sum.splits)

text \<open>The effect of one entry on names: a new managed bill, unless some bill has the name.\<close>

text \<open>What the table takes of a definition: the amount in 32 bits, the texts as texts.\<close>

definition storable :: "BillDefinition \<Rightarrow> bool" where
  "storable b \<longleftrightarrow> int4 (bd_AmountCents b) \<and> text_ok (bd_Name b) \<and> pred_option text_ok (bd_VendorURL b)"

lemma bootstrap_entry_owners:
  assumes "db_ok s" "db_faults s = []" "int4 (seq_definitions s)"
    and "billBootstrapToDefinition (env_tz E) entry = Inr def"
  shows "let s' = bootstrap_entry E os rand entry def s in
    if bd_Name def \<in> bd_Name ` set (bt_bill_definitions s)
    then owners s' = owners s \<and> seq_definitions s' = seq_definitions s
    else if storable def
    then owners s' = owners s @ [(seq_definitions s, bd_Name def, True)] \<and>
      seq_definitions s' = seq_definitions s + 1
    else s' = s"
proof (cases "bd_Name def \<in> bd_Name ` set (bt_bill_definitions s)")
  case True
  then obtain b rest where b: "filter (\<lambda>b. bd_Name b = bd_Name def) (bt_bill_definitions s) = b # rest"
    by (cases "filter (\<lambda>b. bd_Name b = bd_Name def) (bt_bill_definitions s)") (auto simp: filter_empty_conv)
  have "text_ok (bd_Name def)" using True assms(1) by (auto simp: db_ok_def definitions_ok_def)
  then have g: "BillDefinitionStore_GetByName (bd_Name def) s = (Inr b, s)"
    using b assms(2) by (simp add: BillDefinitionStore_GetByName_def sql_up storing_up scanBillDefinition_def)
  have "b \<in> set (filter (\<lambda>b. bd_Name b = bd_Name def) (bt_bill_definitions s))" by (simp add: b)
  then have "b \<in> set (bt_bill_definitions s)" by simp
  then have mo: "managed_only (bd_ID b) s" if "bd_BootstrapManaged b"
    using managed_onlyI [OF assms(1)] that by blast
  have upd: "owners s2 = owners s \<and> seq_definitions s2 = seq_definitions s \<and> (bd_BootstrapManaged b \<longrightarrow> managed_only (bd_ID b) s2)"
    if "BillDefinitionStore_UpdateBootstrap (env_tz E) (bd_ID b) d s = (y, s2)" for d y s2
    using that owners_kept(4) [of "env_tz E" "bd_ID b" d s] followup_tables(6) [of "env_tz E" "bd_ID b" d s] mo
      managed_only_cong [of s2 s "bd_ID b"] by simp
  have "owners (bootstrap_followup E os rand entry d s2) = owners s \<and>
      seq_definitions (bootstrap_followup E os rand entry d s2) = seq_definitions s"
    if "bd_ID d = bd_ID b" "managed_only (bd_ID b) s2" "owners s2 = owners s" "seq_definitions s2 = seq_definitions s" for d s2
    by (rule followup_owners.bootstrap_followup_keeps) (simp_all add: that)
  with upd show ?thesis
    using True by (auto simp: bootstrap_entry_def g Let_def split: sum.split prod.split)
next
  case False
  then have "filter (\<lambda>b. bd_Name b = bd_Name def) (bt_bill_definitions s) = []"
    unfolding filter_empty_conv by (metis imageI)
  then have g: "BillDefinitionStore_GetByName (bd_Name def) s =
      (Inl (if text_ok (bd_Name def) then ErrBillNotFound else Error (pg_message s ''text'')), s)"
    using assms(2)
    by (simp add: BillDefinitionStore_GetByName_def sql_up storing_def fail_def scanBillDefinition_def)
  let ?def = "def\<lparr>bd_BootstrapManaged := True\<rparr>"
  show ?thesis
  proof (cases "storable def")
    case bad: False
    have "\<exists>e. BillDefinitionStore_Create (env_tz E) ?def s = (Inl e, s)" if "text_ok (bd_Name def)"
      using bad that assms(2) url_texts_ok [of ?def]
      by (auto simp: BillDefinitionStore_Create_def sql_up storing_def fail_def storable_def)
    with False bad show ?thesis by (auto simp: bootstrap_entry_def g)
  next
  case fits: True
  define s2 where "s2 = s\<lparr>seq_definitions := seq_definitions s + 1, bt_bill_definitions := bt_bill_definitions s @
      [?def\<lparr>bd_ID := seq_definitions s, bd_CreatedAt := db_now s\<rparr>]\<rparr>"
  have c: "BillDefinitionStore_Create (env_tz E) ?def s = (Inr (seq_definitions s), s2)"
    unfolding s2_def
    by (rule Create_run) (use assms(2,3) fits billBootstrapToDefinition_shape [OF assms(4)] url_texts_ok [of ?def] in
      \<open>simp_all add: definition_check_def schedule_shape_check_def storable_def\<close>)
  have mo: "managed_only (seq_definitions s) s2" by (rule Create_managed_only [OF assms(1) c]) simp
  have "owners (bootstrap_followup E os rand entry (?def\<lparr>bd_ID := seq_definitions s\<rparr>) s2) = owners s2 \<and>
      seq_definitions (bootstrap_followup E os rand entry (?def\<lparr>bd_ID := seq_definitions s\<rparr>) s2) = seq_definitions s2"
    by (rule followup_owners.bootstrap_followup_keeps) (simp_all add: mo)
  then show ?thesis
    using False fits by (simp add: bootstrap_entry_def g c storable_def) (simp add: s2_def owners_def)
  qed
qed

text \<open>The names of the entries that can be read.\<close>

definition listed :: "tz \<Rightarrow> BillBootstrap list \<Rightarrow> string set" where
  "listed tz entries = {bd_Name def | entry def. entry \<in> set entries \<and> billBootstrapToDefinition tz entry = Inr def}"

lemma listed_simps [simp]:
  "listed tz [] = {}"
  "listed tz (entry # entries) = (case billBootstrapToDefinition tz entry of Inl _ \<Rightarrow> listed tz entries
     | Inr def \<Rightarrow> insert (bd_Name def) (listed tz entries))"
  by (auto simp: listed_def split: sum.split)

text \<open>Among them those whose bill the table takes.\<close>

definition storable_names :: "tz \<Rightarrow> BillBootstrap list \<Rightarrow> string set" where
  "storable_names tz entries =
     {bd_Name def | entry def. entry \<in> set entries \<and> billBootstrapToDefinition tz entry = Inr def \<and> storable def}"

lemma storable_names_simps [simp]:
  "storable_names tz [] = {}"
  "storable_names tz (entry # entries) = (case billBootstrapToDefinition tz entry of
       Inl _ \<Rightarrow> storable_names tz entries
     | Inr def \<Rightarrow> (if storable def then insert (bd_Name def) (storable_names tz entries) else storable_names tz entries))"
  by (auto simp: storable_names_def split: sum.split)

lemma bootstrap_entries_names:
  assumes "db_ok s" "db_faults s = []" "seq_definitions s + int (length entries) \<le> 2 ^ 31"
  shows "let (seen', s') = bootstrap_entries E os rands entries seen s in
    set seen' = set seen \<union> listed (env_tz E) entries \<and> db_ok s' \<and> db_faults s' = [] \<and> ui_names s' = ui_names s \<and>
    managed_names s' = managed_names s \<union> (storable_names (env_tz E) entries - ui_names s)"
  using assms
proof (induction entries arbitrary: seen s)
  case (Cons entry entries)
  show ?case
  proof (cases "billBootstrapToDefinition (env_tz E) entry")
    case (Inl e)
    then show ?thesis using Cons.IH [of s seen] Cons.prems Inl by simp
  next
    case (Inr def)
    define s1 where "s1 = bootstrap_entry E os (rands (length entries)) entry def s"
    have l: "listed (env_tz E) (entry # entries) = insert (bd_Name def) (listed (env_tz E) entries)"
      "storable_names (env_tz E) (entry # entries) =
        (if storable def then {bd_Name def} else {}) \<union> storable_names (env_tz E) entries"
      using Inr by simp_all
    have "1 \<le> seq_definitions s" using Cons.prems(1) by (simp add: db_ok_def definitions_ok_def keys_ok_def)
    then have room: "int4 (seq_definitions s)" using Cons.prems(3) by (simp add: int4_def)
    note eff = bootstrap_entry_owners [OF Cons.prems(1,2) room Inr, of os "rands (length entries)",
        unfolded Let_def s1_def [symmetric]]
    have calm: "db_ok s1 \<and> db_faults s1 = []"
      unfolding s1_def by (rule bootstrap_calm.bootstrap_entry_keeps) (simp add: Cons.prems)
    have all: "bd_Name ` set (bt_bill_definitions s) = managed_names s \<union> ui_names s"
      by (auto simp: managed_names_def ui_names_def)
    have seq: "seq_definitions s1 + int (length entries) \<le> 2 ^ 31"
      using eff Cons.prems(3) by (auto split: if_splits)
    have names: "ui_names s1 = ui_names s" "managed_names s1 =
        managed_names s \<union> ((if storable def then {bd_Name def} else {}) - ui_names s)"
      using eff unfolding all by (auto simp: names_owners split: if_splits)
    show ?thesis
      using Cons.IH [of s1 "bd_Name def # seen"] calm seq Inr
      by (auto simp: s1_def [symmetric] names l)
  qed
qed simp

lemma remove_unlisted_run:
  assumes "db_faults s = []" "\<forall>d \<in> set defs. int4 (bd_ID d)"
  shows "bt_bill_definitions (remove_unlisted seen defs s) =
    filter (\<lambda>b. \<not> (\<exists>d \<in> set defs. bd_ID d = bd_ID b \<and> bd_BootstrapManaged d \<and> bd_Name d \<notin> set seen))
      (bt_bill_definitions s)"
  using assms
proof (induction defs arbitrary: s)
  case (Cons d defs)
  define s1 where "s1 = (if bd_BootstrapManaged d \<and> bd_Name d \<notin> set seen then snd (BillDefinitionStore_Delete (bd_ID d) s) else s)"
  have s1: "db_faults s1 = []" "bt_bill_definitions s1 = filter (\<lambda>b. \<not> (bd_ID d = bd_ID b \<and> bd_BootstrapManaged d \<and>
      bd_Name d \<notin> set seen)) (bt_bill_definitions s)"
    using Cons.prems by (auto simp: s1_def BillDefinitionStore_Delete_def sql_up delete_where_def intro!: filter_cong)
  show ?case
    using Cons.IH [OF s1(1)] Cons.prems(2)
    by (simp add: s1_def [symmetric] s1(2))
qed simp

text \<open>
  C20. After a start-up whose statements succeed (and with room for the new ids), the names of the
  managed bills are those readable entries of the file name, and no others, where each was a managed
  name already (also when a bill of the settings page shares it) or is held by no bill of the settings
  page and its entry's amount and texts fit the table. Every managed bill whose name no
  readable entry carries is gone. An entry with a mistake counts as absent, so a
  slip in the file removes the bill it was about.
\<close>

theorem BootstrapBills_names:
  assumes "db_ok s" "db_faults s = []" "seq_definitions s + int (length entries) \<le> 2 ^ 31"
  shows "managed_names (BootstrapBills E os rands entries s) =
    {n \<in> listed (env_tz E) entries. n \<in> managed_names s \<or>
       n \<notin> ui_names s \<and> n \<in> storable_names (env_tz E) entries}"
proof -
  obtain seen s1 where e: "bootstrap_entries E os rands entries [] s = (seen, s1)" by force
  have s1: "set seen = listed (env_tz E) entries" "db_ok s1" "db_faults s1 = []"
      "managed_names s1 = managed_names s \<union> (storable_names (env_tz E) entries - ui_names s)"
    using bootstrap_entries_names [OF assms, of E os rands "[]"] by (simp_all add: e)
  let ?defs = "sort_by (pg_collate s1) bd_Name (bt_bill_definitions s1)"
  have ids: "keys_ok bd_ID (bt_bill_definitions s1) (seq_definitions s1)"
    using s1(2) by (simp add: db_ok_def definitions_ok_def)
  have run: "BootstrapBills E os rands entries s = remove_unlisted seen ?defs s1"
    using s1(3) by (simp add: BootstrapBills_def e BillDefinitionStore_ListAll_def sql_up)
  have "\<forall>d \<in> set ?defs. int4 (bd_ID d)" using keys_ok_int4 [OF ids] by simp
  note rows = remove_unlisted_run [OF s1(3) this, of seen]
  have "d = b" if "d \<in> set (bt_bill_definitions s1)" "b \<in> set (bt_bill_definitions s1)" "bd_ID d = bd_ID b" for b d
    using ids that unfolding keys_ok_def by (metis distinct_map inj_onD)
  then have "(\<exists>d \<in> set ?defs. bd_ID d = bd_ID b \<and> bd_BootstrapManaged d \<and> bd_Name d \<notin> set seen) \<longleftrightarrow>
      bd_BootstrapManaged b \<and> bd_Name b \<notin> set seen" if "b \<in> set (bt_bill_definitions s1)" for b
    using that by (simp only: set_sort_by) metis
  then have "{b \<in> set (bt_bill_definitions (remove_unlisted seen ?defs s1)). bd_BootstrapManaged b} =
      {b \<in> set (bt_bill_definitions s1). bd_BootstrapManaged b \<and> bd_Name b \<in> set seen}"
    unfolding rows by auto
  then have "managed_names (remove_unlisted seen ?defs s1) = managed_names s1 \<inter> set seen"
    unfolding managed_names_def by auto
  then show ?thesis unfolding run s1(1,4) by auto
qed

definition slip_entry :: BillBootstrap where
  "slip_entry = no_bill\<lparr>bb_Name := ''Electric'', bb_Schedule := ''monthly'', bb_DayOfMonth := Some 32\<rparr>"

definition gas_entry :: BillBootstrap where
  "gas_entry = no_bill\<lparr>bb_Name := ''Gas'', bb_Connector := ''columbiagaspa''\<rparr>"

theorem BootstrapBills_names_witness:
  "managed_names managed_db = {''Electric''} \<and>
   managed_names (BootstrapBills sample_env sample_os (\<lambda>_. sample_rand) [slip_entry, gas_entry] managed_db) = {''Gas''}"
proof -
  have zero: "dollars_to_cents (Finite 0) = 0"
    using dollars_to_cents_dollars [of 0] by (simp add: cents_to_dollars_def int_to_float_def)
  have read: "billBootstrapToDefinition tz slip_entry = Inl ''day_of_month must be between 1 and 31 for a monthly bill''"
    "billBootstrapToDefinition tz gas_entry =
      Inr (blank_definition\<lparr>bd_Name := ''Gas'', bd_ScheduleType := ScheduleVendor\<rparr>)" for tz
    by (simp_all add: billBootstrapToDefinition_def slip_entry_def gas_entry_def no_bill_def Let_def zero
        blank_definition_def nullableString_def)
  then have l: "listed tz [slip_entry, gas_entry] = {''Gas''}" "storable_names tz [slip_entry, gas_entry] = {''Gas''}" for tz
    by (simp_all add: storable_def int4_def blank_definition_def)
  have names: "managed_names managed_db = {''Electric''}" "ui_names managed_db = {''Water''}"
    by (auto simp: names_owners owners_def managed_db_def day31_bill_def)
  have "db_faults managed_db = []" "seq_definitions managed_db + int (length [slip_entry, gas_entry]) \<le> 2 ^ 31"
    by (simp_all add: managed_db_def sample_db_def empty_db_def)
  from BootstrapBills_names [OF managed_db_ok this, of sample_env] show ?thesis
    by (simp add: l names del: listed_simps storable_names_simps) blast
qed

section \<open>A portal that does not answer at start-up\<close>

definition amounts :: "db \<Rightarrow> (int \<times> int) list" where
  "amounts s = map (\<lambda>b. (bd_ID b, bd_AmountCents b)) (bt_bill_definitions s)"

lemma amounts_kept:
  "amounts (snd (BillDefinitionStore_GetByName n s)) = amounts s"
  "amounts (snd (VendorConnectionStore_GetByBillDefinitionID rid s)) = amounts s"
  "amounts (snd (VendorConnectionStore_Upsert v s)) = amounts s"
  "amounts (snd (VendorConnectionStore_MarkSynced rid acct e s)) = amounts s"
  unfolding BillDefinitionStore_GetByName_def VendorConnectionStore_GetByBillDefinitionID_def
    VendorConnectionStore_Upsert_def VendorConnectionStore_MarkSynced_def
  by (rule sql_keeps; simp add: statement_defs amounts_def split: list.split)+

lemma amounts_result:
  "BillDefinitionStore_GetByName n s = (x, s') \<Longrightarrow> amounts s' = amounts s"
  "VendorConnectionStore_GetByBillDefinitionID rid s = (y, s') \<Longrightarrow> amounts s' = amounts s"
  "VendorConnectionStore_Upsert v s = (z, s') \<Longrightarrow> amounts s' = amounts s"
  using amounts_kept(1) [of n s] amounts_kept(2) [of rid s] amounts_kept(3) [of v s] by simp_all

lemma amounts_Create: "set (amounts s) \<subseteq> set (amounts (snd (BillDefinitionStore_Create tz b s)))"
proof -
  have "set (bt_bill_definitions s) \<subseteq> set (bt_bill_definitions (snd (BillDefinitionStore_Create tz b s)))"
    unfolding BillDefinitionStore_Create_def
    by (auto simp: sql_def statement_defs split: list.split option.split)
  then show ?thesis by (auto simp: amounts_def)
qed

lemma amounts_UpdateBootstrap:
  assumes "db_ok s" "b \<in> set (bt_bill_definitions s)" "bd_AmountCents d = bd_AmountCents b"
  shows "amounts (snd (BillDefinitionStore_UpdateBootstrap tz (bd_ID b) d s)) = amounts s"
proof -
  have "distinct (map bd_ID (bt_bill_definitions s))"
    using assms(1) by (simp add: db_ok_def definitions_ok_def keys_ok_def)
  then have "bd_AmountCents c = bd_AmountCents b" if "c \<in> set (bt_bill_definitions s)" "bd_ID c = bd_ID b" for c
    using assms(2) that by (metis distinct_map inj_onD)
  then show ?thesis
    unfolding BillDefinitionStore_UpdateBootstrap_def
    by (intro sql_keeps) (auto simp: statement_defs amounts_def update_where_def assms(3))
qed

lemma Upsert_connector:
  assumes "VendorConnectionStore_Upsert v s = (Inr k, s1)" "VendorConnectionStore_GetByBillDefinitionID (vc_BillDefinitionID v) s1 = (Inr conn, s2)"
  shows "vc_Connector conn = vc_Connector v"
proof -
  have "\<forall>c \<in> set (bt_vendor_connections s1). vc_BillDefinitionID c = vc_BillDefinitionID v \<longrightarrow> vc_Connector c = vc_Connector v"
    using assms(1)
    by (auto simp: VendorConnectionStore_Upsert_def sql_def statement_defs set_update_where filter_empty_conv
        split: list.splits option.splits if_splits)
  moreover have "conn \<in> set (bt_vendor_connections s1)" "vc_BillDefinitionID conn = vc_BillDefinitionID v"
    using assms(2)
    by (auto simp: VendorConnectionStore_GetByBillDefinitionID_def sql_def fail_def storing_def scanVendorConnection_def
        filter_eq_Cons_iff split: list.splits option.splits if_splits)
  ultimately show ?thesis by blast
qed

text \<open>The portal of a connector answers no request.\<close>

definition portal_down :: "env \<Rightarrow> string \<Rightarrow> bool" where
  "portal_down E name \<longleftrightarrow> (\<forall>c cred. env_registry E name = Some c \<longrightarrow> (\<exists>e. c cred = Inl e))"

lemma portal_down_snapshot: "portal_down E (vc_Connector conn) \<Longrightarrow> \<exists>e. vendor_snapshot E conn = Inl e"
  by (auto simp: portal_down_def vendor_snapshot_def bindR_def connectors_Get_def split: sum.split option.split)

lemma RefreshVendorConnectionIfStale_down:
  "portal_down E (vc_Connector conn) \<Longrightarrow> amounts (RefreshVendorConnectionIfStale E conn s) = amounts s"
  using portal_down_snapshot [of E conn]
  by (auto simp: RefreshVendorConnectionIfStale_def RefreshVendorConnectionNow_cases amounts_kept split: option.split)

lemma attachVendorConnection_down:
  assumes "portal_down E (bb_Connector entry)"
  shows "amounts (attachVendorConnection E os rand rid entry s) = amounts s"
proof -
  have "amounts (case VendorConnectionStore_Upsert v s of (Inl e, s1) \<Rightarrow> s1 | (Inr _, s1) \<Rightarrow>
      (case VendorConnectionStore_GetByBillDefinitionID rid s1 of (Inl e, s2) \<Rightarrow> s2
       | (Inr conn, s2) \<Rightarrow> RefreshVendorConnectionIfStale E conn s2)) = amounts s"
    if "vc_Connector v = bb_Connector entry" "vc_BillDefinitionID v = rid" for v
  proof -
    obtain x s1 y s2 where u: "VendorConnectionStore_Upsert v s = (x, s1)"
      and g: "VendorConnectionStore_GetByBillDefinitionID rid s1 = (y, s2)" by force
    have "portal_down E (vc_Connector conn)" if "x = Inr k" "y = Inr conn" for k conn
      using Upsert_connector [of v s k s1 conn s2] u g that \<open>vc_Connector v = _\<close> \<open>vc_BillDefinitionID v = rid\<close> assms
      by simp
    then show ?thesis
      using amounts_result(3) [OF u] amounts_result(2) [OF g]
      by (auto simp: u g RefreshVendorConnectionIfStale_down split: sum.split)
  qed
  then show ?thesis
    by (simp add: attachVendorConnection_def vendor_row_def split: sum.split)
qed

text \<open>
  C38. A portal that is down at start-up costs no amount: handling an entry with a connector
  keeps the last known amount of every bill (the one of the entry included, although the
  entry itself says zero), whichever statements fail.
\<close>

theorem bootstrap_entry_keeps_amounts:
  assumes "db_ok s" "billBootstrapToDefinition (env_tz E) entry = Inr def"
    and "bb_Connector entry \<noteq> ''''" "portal_down E (bb_Connector entry)"
  shows "set (amounts s) \<subseteq> set (amounts (bootstrap_entry E os rand entry def s))"
proof -
  obtain x s1 where g: "BillDefinitionStore_GetByName (bd_Name def) s = (x, s1)" by force
  have s1: "db_ok s1" "amounts s1 = amounts s"
    using preserves_result [OF bootstrap_schema.by_name assms(1) g] amounts_result(1) [OF g] by simp_all
  have follow: "amounts (bootstrap_followup E os rand entry d u) = amounts u" for d u
    using assms(3,4) by (simp add: bootstrap_followup_def attachVendorConnection_down)
  show ?thesis
  proof (cases x)
    case (Inl e)
    obtain y s2 where c: "BillDefinitionStore_Create (env_tz E) (def\<lparr>bd_BootstrapManaged := True\<rparr>) s1 = (y, s2)" by force
    have "set (amounts s) \<subseteq> set (amounts s2)"
      using amounts_Create [of s1 "env_tz E" "def\<lparr>bd_BootstrapManaged := True\<rparr>"] s1(2) by (simp add: c)
    with s1(2) show ?thesis
      by (simp add: bootstrap_entry_def g Inl c follow split: sum.split)
  next
    case (Inr existing)
    then have ex: "existing \<in> set (bt_bill_definitions s1)" using GetByName_found g by blast
    have "amounts s2 = amounts s"
      if "BillDefinitionStore_UpdateBootstrap (env_tz E) (bd_ID existing) d s1 = (y, s2)"
        "bd_AmountCents d = bd_AmountCents existing" for d y s2
      using amounts_UpdateBootstrap [OF s1(1) ex that(2), of "env_tz E"] that(1) s1(2) by simp
    then show ?thesis
      using assms(3) s1(2)
      by (auto simp: bootstrap_entry_def g Inr Let_def follow split: sum.split prod.split)
  qed
qed

definition electric_entry :: BillBootstrap where
  "electric_entry = no_bill\<lparr>bb_Name := ''Electric'', bb_Connector := ''billeriq'', bb_Username := ''me'',
     bb_Password := ''pw''\<rparr>"

definition electric_definition :: BillDefinition where
  "electric_definition = blank_definition\<lparr>bd_Name := ''Electric'', bd_ScheduleType := ScheduleVendor\<rparr>"

lemma electric_reads: "billBootstrapToDefinition tz electric_entry = Inr electric_definition"
proof -
  have "dollars_to_cents (Finite 0) = 0"
    using dollars_to_cents_dollars [of 0] by (simp add: cents_to_dollars_def int_to_float_def)
  then show ?thesis
    by (simp add: billBootstrapToDefinition_def electric_entry_def electric_definition_def no_bill_def Let_def
        blank_definition_def nullableString_def)
qed

definition down_env :: env where
  "down_env = sample_env\<lparr>env_registry := [''billeriq'' \<mapsto> (\<lambda>_. Inl ''timeout'')]\<rparr>"

theorem bootstrap_entry_keeps_amounts_witness:
  "bd_AmountCents electric_definition = 0 \<and>
   {(1, 12843), (2, 12843)} \<subseteq> set (amounts (bootstrap_entry down_env sample_os sample_rand electric_entry
     electric_definition managed_db))"
proof -
  note def = electric_reads [of "env_tz down_env"]
  have down: "bb_Connector electric_entry \<noteq> ''''" "portal_down down_env (bb_Connector electric_entry)"
    by (simp_all add: electric_entry_def portal_down_def down_env_def)
  have "amounts managed_db = [(1, 12843), (2, 12843)]"
    by (simp add: amounts_def managed_db_def day31_bill_def)
  then show ?thesis
    using bootstrap_entry_keeps_amounts [OF managed_db_ok def down, of sample_os sample_rand]
    by (simp add: electric_definition_def blank_definition_def)
qed

section \<open>What a parser accepts fits the table\<close>

text \<open>
  C15. A definition that the bill form or a \<^verbatim>\<open>bills.json\<close> entry yields is well typed for the
  table: its schedule has exactly the fields its kind needs, in range, so the CHECK
  constraints never fire for it; where a statement runs at all, creating it, or changing a bill
  to it, succeeds exactly when its amount fits 32 bits and its name and URL are storable texts (valid
  UTF-8 without the byte 0; the bootstrap's update does not send the name). Such a definition shows as an
  unknown schedule only when it belongs to a vendor connector.
\<close>

theorem accepted_definitions_fit:
  assumes "parseBillForm tz r = Inr b \<or> billBootstrapToDefinition tz entry = Inr b"
    and "db_faults s = []" "int4 (seq_definitions s)" "int4 rid"
  shows "definition_check b \<and>
    (ok (fst (BillDefinitionStore_Create tz b s)) \<longleftrightarrow> storable b) \<and>
    (ok (fst (BillDefinitionStore_Update tz rid b s)) \<longleftrightarrow> storable b) \<and>
    (ok (fst (BillDefinitionStore_UpdateBootstrap tz rid b s)) \<longleftrightarrow>
       int4 (bd_AmountCents b) \<and> pred_option text_ok (bd_VendorURL b)) \<and>
    (scheduleDescription tz b = ''Unknown schedule'' \<longleftrightarrow> bd_ScheduleType b = ScheduleVendor)"
proof -
  have b: "definition_check b" "bd_SimpleFinAccountID b = None" "map_option (db_date tz) (bd_OneOffDate b) = bd_OneOffDate b"
    using assms(1) parseBillForm_shape billBootstrapToDefinition_shape by blast+
  have cong: "definition_check c" if "bd_ScheduleType c = bd_ScheduleType b" "bd_DayOfMonth c = bd_DayOfMonth b"
      "bd_QuarterStartMonth c = bd_QuarterStartMonth b" "bd_OneOffDate c = bd_OneOffDate b" for c
    using b(1) that by (simp add: definition_check_def schedule_shape_check_def)
  have "ok (fst (BillDefinitionStore_Create tz b s)) \<longleftrightarrow> storable b"
    using assms(2,3) cong b(3)
    by (auto simp: BillDefinitionStore_Create_def sql_up Let_def fail_def storing_def ok_def storable_def
        url_texts_ok)
  moreover have "ok (fst (storing ts (update_definition rid (bd_AmountCents b) upd) s)) \<longleftrightarrow>
      list_all text_ok ts \<and> int4 (bd_AmountCents b)"
    if "\<And>c. definition_check (upd c)" for ts upd
    using that assms(4) by (simp add: update_definition_def fail_def storing_def ok_def)
  moreover have "scheduleDescription tz b = ''Unknown schedule'' \<longleftrightarrow> bd_ScheduleType b = ScheduleVendor"
    using b(1) by (auto simp: scheduleDescription_def definition_check_def schedule_shape_check_def)
  ultimately show ?thesis
    using b(1,3) cong assms(2)
    by (auto simp: BillDefinitionStore_Update_def BillDefinitionStore_UpdateBootstrap_def sql_up storable_def
        url_texts_ok)
qed

text \<open>A form can carry the byte 0: the parser takes it, the table does not.\<close>

definition nul_request :: request where
  "nul_request = add_request\<lparr>req_FormValue := (\<lambda>k. if k = ''name'' then [CHR 0x00] else req_FormValue add_request k)\<rparr>"

theorem accepted_definitions_fit_witness:
  "billBootstrapToDefinition (fixed_tz 0) electric_entry = Inr electric_definition \<and>
   definition_check electric_definition \<and>
   ok (fst (BillDefinitionStore_Create (fixed_tz 0) electric_definition sample_db)) \<and>
   scheduleDescription (fixed_tz 0) electric_definition = ''Unknown schedule'' \<and>
   parseBillForm (fixed_tz 0) nul_request = Inr (rent_bill\<lparr>bd_Name := [CHR 0x00]\<rparr>) \<and>
   \<not> ok (fst (BillDefinitionStore_Create (fixed_tz 0) (rent_bill\<lparr>bd_Name := [CHR 0x00]\<rparr>) sample_db))"
proof -
  have calm: "db_faults sample_db = []" "int4 (seq_definitions sample_db)" "int4 1"
    by (simp_all add: sample_db_def empty_db_def int4_def)
  have "int4 95010" by (simp add: int4_def)
  from form_amount [OF this] obtain x where "ParseFloat ''950.10'' = Some x" "dollars_to_cents x = 95010"
    by (auto simp: formatCentsPlain_def fixed2_cents render_cents_def show_nat.simps two_digits_def resaved_def)
  moreover have "TrimSpace [CHR 0x00] = [CHR 0x00]" "int_between 1 31 ''31'' = Some 31" by code_simp+
  ultimately have nul: "parseBillForm (fixed_tz 0) nul_request = Inr (rent_bill\<lparr>bd_Name := [CHR 0x00]\<rparr>)"
    by (simp add: parseBillForm_def nul_request_def add_request_def rent_bill_def blank_definition_def Let_def)
  have "\<not> storable (rent_bill\<lparr>bd_Name := [CHR 0x00]\<rparr>)"
    by (simp add: storable_def text_ok_examples)
  moreover have "storable electric_definition"
    by (simp add: storable_def electric_definition_def blank_definition_def int4_def)
  ultimately show ?thesis
    using accepted_definitions_fit [OF disjI2 [OF electric_reads] calm]
      accepted_definitions_fit [OF disjI1 [OF nul] calm]
    by (simp add: electric_reads nul) (simp add: electric_definition_def blank_definition_def)
qed

end
