(* ===== verification/Release.thy ===== *)
theory Release
  imports Json
begin

text \<open>
  \<^verbatim>\<open>internal/release\<close>: version numbers, their order, and how the newest published
  version is found on GitHub, whose answers are the parameter \<open>get\<close> (a function from
  the requested URL). The cache is a single optional value.
\<close>

section \<open>Version numbers\<close>

datatype semver = semver (major: int) (minor: int) (patch: int) (dev: bool)

definition parseVersion :: "string \<Rightarrow> semver option" where
  "parseVersion v =
     (let d = HasSuffix v ''-dev'';
          v' = (if d then TrimSuffix v ''-dev'' else v)
      in case Split v' (CHR ''.'') of
        [a, b, c] \<Rightarrow>
          (case (Atoi a, Atoi b, Atoi c) of
             (Some ma, Some mi, Some pa) \<Rightarrow> Some (semver ma mi pa d)
           | _ \<Rightarrow> None)
      | _ \<Rightarrow> None)"

definition cmpInt :: "int \<Rightarrow> int \<Rightarrow> int" where
  "cmpInt a b = (if a < b then - 1 else if a > b then 1 else 0)"

definition compareVersions :: "semver \<Rightarrow> semver \<Rightarrow> int" where
  "compareVersions a b =
     (if major a \<noteq> major b then cmpInt (major a) (major b)
      else if minor a \<noteq> minor b then cmpInt (minor a) (minor b)
      else if patch a \<noteq> patch b then cmpInt (patch a) (patch b)
      else if dev a \<noteq> dev b then (if dev a then - 1 else 1)
      else 0)"

definition IsNewer :: "string \<Rightarrow> string \<Rightarrow> bool" where
  "IsNewer current latest =
     (case parseVersion current of
        None \<Rightarrow> False
      | Some c \<Rightarrow>
          (case parseVersion latest of
             None \<Rightarrow> False
           | Some l \<Rightarrow> compareVersions l c > 0))"

section \<open>Asking GitHub\<close>

definition Repo :: string where "Repo = ''mscreations/billtracker-plugin''"
definition GitHubAPIBase :: string where "GitHubAPIBase = ''https://api.github.com''"

record Info =
  info_Version :: string
  info_Changelog :: string

record githubRelease =
  gr_TagName :: string
  gr_Name :: string
  gr_Body :: string

record githubTag =
  gt_Name :: string
  gt_SHA :: string

definition decode_release :: "json \<Rightarrow> (string, githubRelease) result" where
  "decode_release v = decode_struct
     [(''tag_name'', decode_string (\<lambda>s x. x\<lparr>gr_TagName := s\<rparr>)),
      (''name'', decode_string (\<lambda>s x. x\<lparr>gr_Name := s\<rparr>)),
      (''body'', decode_string (\<lambda>s x. x\<lparr>gr_Body := s\<rparr>))]
     v \<lparr>gr_TagName = '''', gr_Name = '''', gr_Body = ''''\<rparr>"

definition decode_tag :: "json \<Rightarrow> (string, githubTag) result" where
  "decode_tag v = decode_struct
     [(''name'', decode_string (\<lambda>s x. x\<lparr>gt_Name := s\<rparr>)),
      (''commit'', decode_struct [(''sha'', decode_string (\<lambda>s x. x\<lparr>gt_SHA := s\<rparr>))])]
     v \<lparr>gt_Name = '''', gt_SHA = ''''\<rparr>"

definition decode_commit_message :: "json \<Rightarrow> (string, string) result" where
  "decode_commit_message v = decode_struct
     [(''commit'', decode_struct [(''message'', decode_string (\<lambda>s x. s))])] v ''''"

definition checkLatestRelease :: "http_get \<Rightarrow> string \<Rightarrow> (string, Info) result" where
  "checkLatestRelease get repo =
     (case get (GitHubAPIBase @ ''/repos/'' @ repo @ ''/releases/latest'') of
        Inl e \<Rightarrow> Inl (''release: requesting latest release: '' @ e)
      | Inr resp \<Rightarrow>
          if rep_StatusCode resp \<noteq> 200
          then Inl (''release: latest release request returned '' @ rep_Status resp)
          else (case rep_decode decode_release resp of
             Inl e \<Rightarrow> Inl (''release: decoding latest release response: '' @ e)
           | Inr parsed \<Rightarrow>
               let changelog = (if gr_Body parsed = '''' then gr_Name parsed else gr_Body parsed)
               in Inr \<lparr>info_Version = TrimPrefix (gr_TagName parsed) ''v'',
                       info_Changelog = changelog\<rparr>))"

definition commitSubject :: "http_get \<Rightarrow> string \<Rightarrow> string \<Rightarrow> string" where
  "commitSubject get repo sha =
     (case get (GitHubAPIBase @ ''/repos/'' @ repo @ ''/commits/'' @ sha) of
        Inl e \<Rightarrow> ''''
      | Inr resp \<Rightarrow>
          if rep_StatusCode resp \<noteq> 200 then ''''
          else (case rep_decode decode_commit_message resp of
             Inl e \<Rightarrow> ''''
           | Inr message \<Rightarrow> fst (Cut message (CHR 0x0A))))"

text \<open>The best dev tag so far: its version and the tag.\<close>

definition better_tag :: "githubTag \<Rightarrow> (semver \<times> githubTag) option \<Rightarrow> (semver \<times> githubTag) option" where
  "better_tag t best =
     (case parseVersion (TrimPrefix (gt_Name t) ''v'') of
        None \<Rightarrow> best
      | Some v \<Rightarrow>
          if \<not> dev v then best
          else (case best of
             None \<Rightarrow> Some (v, t)
           | Some b \<Rightarrow> if compareVersions v (fst b) > 0 then Some (v, t) else best))"

definition tags_url :: "string \<Rightarrow> nat \<Rightarrow> string" where
  "tags_url repo page = GitHubAPIBase @ ''/repos/'' @ repo @ ''/tags?per_page=100&page='' @ show_nat page"

text \<open>The loop over the pages, from \<open>page\<close> on with \<open>left\<close> pages still allowed.\<close>

fun dev_tag_pages :: "http_get \<Rightarrow> string \<Rightarrow> nat \<Rightarrow> nat \<Rightarrow> (semver \<times> githubTag) option \<Rightarrow>
    (string, (semver \<times> githubTag) option) result" where
  "dev_tag_pages get repo page 0 best = Inr best"
| "dev_tag_pages get repo page (Suc left) best =
     (case get (tags_url repo page) of
        Inl e \<Rightarrow> Inl (''release: requesting tags (page '' @ show_nat page @ ''): '' @ e)
      | Inr resp \<Rightarrow>
          if rep_StatusCode resp \<noteq> 200
          then Inl (''release: tags request returned '' @ rep_Status resp)
          else (case rep_decode (decode_slice decode_tag) resp of
             Inl e \<Rightarrow> Inl (''release: decoding tags response: '' @ e)
           | Inr tags \<Rightarrow>
               let best' = fold better_tag tags best
               in if length tags < 100 then Inr best'
                  else dev_tag_pages get repo (page + 1) left best'))"

definition checkDevTags :: "http_get \<Rightarrow> string \<Rightarrow> (string, Info) result" where
  "checkDevTags get repo =
     (case dev_tag_pages get repo 1 10 None of
        Inl e \<Rightarrow> Inl e
      | Inr None \<Rightarrow> Inl ''release: no dev-versioned tags found''
      | Inr (Some (v, bestTag)) \<Rightarrow>
          Inr \<lparr>info_Version = TrimPrefix (gt_Name bestTag) ''v'',
               info_Changelog = (if gt_SHA bestTag \<noteq> '''' then commitSubject get repo (gt_SHA bestTag) else '''')\<rparr>)"

definition CheckForUpdate :: "http_get \<Rightarrow> string \<Rightarrow> string \<Rightarrow> (string, Info) result" where
  "CheckForUpdate get repo currentVersion =
     (if HasSuffix currentVersion ''-dev'' then checkDevTags get repo else checkLatestRelease get repo)"

section \<open>The cache\<close>

type_synonym Cache = "Info option"

definition Cache_Get :: "Cache \<Rightarrow> Info option" where "Cache_Get c = c"
definition Cache_Set :: "Cache \<Rightarrow> Info \<Rightarrow> Cache" where "Cache_Set c i = Some i"

definition checkVersion :: "http_get \<Rightarrow> string \<Rightarrow> Cache \<Rightarrow> Cache" where
  "checkVersion get version c =
     (case CheckForUpdate get Repo version of Inl e \<Rightarrow> c | Inr info \<Rightarrow> Cache_Set c info)"

section \<open>The order of versions\<close>

text \<open>\<open>compareVersions\<close> is the comparison of a linear order, which is declared as such.\<close>

instantiation semver :: linorder
begin

definition less_semver :: "semver \<Rightarrow> semver \<Rightarrow> bool" where
  "a < b \<longleftrightarrow> compareVersions a b < 0"

definition less_eq_semver :: "semver \<Rightarrow> semver \<Rightarrow> bool" where
  "(a :: semver) \<le> b \<longleftrightarrow> compareVersions a b \<le> 0"

instance
proof
  fix a b c :: semver
  show "(a < b) = (a \<le> b \<and> \<not> b \<le> a)"
    by (auto simp: less_semver_def less_eq_semver_def compareVersions_def cmpInt_def)
  show "a \<le> a" by (simp add: less_eq_semver_def compareVersions_def)
  show "a \<le> b \<Longrightarrow> b \<le> c \<Longrightarrow> a \<le> c"
    by (auto simp: less_eq_semver_def compareVersions_def cmpInt_def split: if_splits)
  show "a \<le> b \<Longrightarrow> b \<le> a \<Longrightarrow> a = b"
    by (cases a; cases b)
      (auto simp: less_eq_semver_def compareVersions_def cmpInt_def split: if_splits)
  show "a \<le> b \<or> b \<le> a"
    by (auto simp: less_eq_semver_def compareVersions_def cmpInt_def)
qed

end

lemma compareVersions_pos: "compareVersions a b > 0 \<longleftrightarrow> b < a"
  by (auto simp: less_semver_def compareVersions_def cmpInt_def)

text \<open>How a version is written.\<close>

definition show_version :: "semver \<Rightarrow> string" where
  "show_version v =
     Itoa (major v) @ ''.'' @ Itoa (minor v) @ ''.'' @ Itoa (patch v) @ (if dev v then ''-dev'' else '''')"

lemma Split_append: "c \<notin> set s \<Longrightarrow> Split (s @ c # t) c = s # Split t c"
  by (induction s) auto

lemma Split_single: "c \<notin> set s \<Longrightarrow> Split s c = [s]"
  by (induction s) auto

lemma Itoa_chars: "c \<in> set (Itoa n) \<Longrightarrow> c = CHR ''-'' \<or> (\<exists>d < 10. c = digit_char d)"
  by (auto simp: Itoa_def dest: set_show_nat split: if_splits)

lemma Itoa_no_point: "CHR ''.'' \<notin> set (Itoa n)"
  using Itoa_chars [of "CHR ''.''" n] digit_char_neq(3) by fastforce

lemma HasSuffix_last: "HasSuffix s p \<Longrightarrow> p \<noteq> [] \<Longrightarrow> last s = last p"
  by (metis HasSuffix_def append_take_drop_id last_appendR)

lemma HasSuffix_append [simp]: "HasSuffix (s @ p) p"
  by (simp add: HasSuffix_def)

lemma TrimSuffix_append [simp]: "TrimSuffix (s @ p) p = s"
  by (simp add: TrimSuffix_def)

lemma last_Itoa: "\<exists>d < 10. last (Itoa n) = digit_char d"
proof -
  have "\<exists>d < 10. last (show_nat k) = digit_char d" for k
    by (rule set_show_nat [of _ k]) simp
  then show ?thesis by (auto simp: Itoa_def)
qed

lemma digit_char_neq_v: "d < 10 \<Longrightarrow> digit_char d \<noteq> CHR ''v''"
proof
  assume "d < 10" "digit_char d = CHR ''v''"
  then have "digit_val (CHR ''v'') = Some d" using digit_val_digit_char [of d] by simp
  then show False by (simp add: digit_val_def)
qed

lemma parseVersion_show_version:
  assumes "int64_range (major v)" "int64_range (minor v)" "int64_range (patch v)"
  shows "parseVersion (show_version v) = Some v"
proof -
  let ?num = "Itoa (major v) @ ''.'' @ Itoa (minor v) @ ''.'' @ Itoa (patch v)"
  have split: "Split ?num (CHR ''.'') = [Itoa (major v), Itoa (minor v), Itoa (patch v)]"
    by (simp add: Split_append Split_single Itoa_no_point)
  obtain d where "d < 10" "last (Itoa (patch v)) = digit_char d" using last_Itoa by blast
  moreover have "Itoa (patch v) \<noteq> []" by (simp add: Itoa_def)
  ultimately have "last ?num = digit_char d" by simp
  then have "\<not> HasSuffix ?num ''-dev''"
    using HasSuffix_last [of ?num "''-dev''"] digit_char_neq_v [OF \<open>d < 10\<close>] by force
  moreover have "HasSuffix (?num @ ''-dev'') ''-dev''" "TrimSuffix (?num @ ''-dev'') ''-dev'' = ?num"
    by (rule HasSuffix_append, rule TrimSuffix_append)
  moreover have "show_version v = ?num @ (if dev v then ''-dev'' else '''')"
    by (simp add: show_version_def)
  ultimately show ?thesis
    using assms split
    by (cases "dev v") (simp_all add: parseVersion_def ParseInt_Itoa semver.expand)
qed

definition semver_ok :: "semver \<Rightarrow> bool" where
  "semver_ok v \<longleftrightarrow> int64_range (major v) \<and> int64_range (minor v) \<and> int64_range (patch v)"

lemma IsNewer_shown:
  assumes "semver_ok a"
  shows "IsNewer (show_version a) v \<longleftrightarrow> (\<exists>b. parseVersion v = Some b \<and> a < b)"
  using assms
  by (auto simp: IsNewer_def parseVersion_show_version semver_ok_def compareVersions_pos split: option.split)

text \<open>
  C32. On versions as they are written, being newer is a strict linear order: it
  compares major, minor and patch number in turn, a dev build is older than the
  release of the same numbers, and of two different versions exactly one is newer.
\<close>

theorem IsNewer_order:
  assumes "semver_ok a" "semver_ok b"
  shows "(IsNewer (show_version a) (show_version b) \<longleftrightarrow>
      (major a < major b \<or> major a = major b \<and>
       (minor a < minor b \<or> minor a = minor b \<and>
        (patch a < patch b \<or> patch a = patch b \<and> dev a \<and> \<not> dev b)))) \<and>
    (a \<noteq> b \<longrightarrow> IsNewer (show_version a) (show_version b) = (\<not> IsNewer (show_version b) (show_version a)))"
proof -
  have newer: "IsNewer (show_version x) (show_version y) \<longleftrightarrow> x < y" if "semver_ok x" "semver_ok y" for x y
    using that by (simp add: IsNewer_shown parseVersion_show_version semver_ok_def)
  show ?thesis
    using assms by (auto simp: newer less_semver_def compareVersions_def cmpInt_def intro: semver.expand)
qed

theorem IsNewer_order_witness:
  "IsNewer ''1.9.3-dev'' ''1.10.0'' \<and> \<not> IsNewer ''1.10.0'' ''1.9.3-dev''"
proof -
  have "show_version (semver 1 9 3 True) = ''1.9.3-dev''" "show_version (semver 1 10 0 False) = ''1.10.0''"
    by (simp_all add: show_version_def Itoa_def show_nat.simps)
  then show ?thesis
    using IsNewer_order [of "semver 1 9 3 True" "semver 1 10 0 False"]
    by (simp add: semver_ok_def int64_range_def del: not_not) blast
qed

text \<open>The tags the loop looks at: those of the pages up to the first short one.\<close>

fun tags_seen :: "http_get \<Rightarrow> string \<Rightarrow> nat \<Rightarrow> nat \<Rightarrow> githubTag list" where
  "tags_seen get repo page 0 = []"
| "tags_seen get repo page (Suc left) =
     (case get (tags_url repo page) of
        Inl _ \<Rightarrow> []
      | Inr resp \<Rightarrow>
          (case rep_decode (decode_slice decode_tag) resp of
             Inl _ \<Rightarrow> []
           | Inr tags \<Rightarrow>
               tags @ (if length tags < 100 then [] else tags_seen get repo (page + 1) left)))"

definition dev_tag :: "githubTag \<Rightarrow> semver \<Rightarrow> bool" where
  "dev_tag t v \<longleftrightarrow> parseVersion (TrimPrefix (gt_Name t) ''v'') = Some v \<and> dev v"

lemma dev_tag_pages_fold:
  "dev_tag_pages get repo page left best = Inr r \<Longrightarrow>
     r = fold better_tag (tags_seen get repo page left) best"
  by (induction left arbitrary: page best)
    (auto simp: Let_def split: sum.splits if_splits)

definition best_of :: "(githubTag \<times> semver) set \<Rightarrow> (semver \<times> githubTag) option \<Rightarrow> bool" where
  "best_of T r \<longleftrightarrow>
     (case r of None \<Rightarrow> T = {} | Some (v, t) \<Rightarrow> (t, v) \<in> T \<and> (\<forall>(u, w) \<in> T. w \<le> v))"

lemma best_of_step:
  assumes "best_of T best"
  shows "best_of (T \<union> {(t, v). dev_tag t v \<and> t = u}) (better_tag u best)"
proof (cases "parseVersion (TrimPrefix (gt_Name u) ''v'')")
  case (Some v)
  then have new: "{(t, v). dev_tag t v \<and> t = u} = (if dev v then {(u, v)} else {})"
    by (auto simp: dev_tag_def)
  show ?thesis
    using assms Some unfolding new
    by (auto simp: best_of_def better_tag_def compareVersions_pos split: option.splits)
next
  case None
  then have "{(t, v). dev_tag t v \<and> t = u} = {}" by (auto simp: dev_tag_def)
  with None assms show ?thesis by (simp only: Un_empty_right) (simp add: better_tag_def)
qed

lemma best_of_fold:
  "best_of T best \<Longrightarrow> best_of (T \<union> {(t, v). dev_tag t v \<and> t \<in> set ts}) (fold better_tag ts best)"
proof (induction ts arbitrary: T best)
  case (Cons u ts)
  have "T \<union> {(t, v). dev_tag t v \<and> t \<in> set (u # ts)}
      = (T \<union> {(t, v). dev_tag t v \<and> t = u}) \<union> {(t, v). dev_tag t v \<and> t \<in> set ts}"
    by auto
  with Cons.IH [OF best_of_step [OF Cons.prems]] show ?case by simp
qed simp

text \<open>
  C33. For a dev build the check reports the highest dev version among all tags of
  the pages it reads (ten at most, stopping at the first short page), wherever in the
  list it stands; when the requests succeed and some dev tag was seen, it does report one.
\<close>

theorem checkDevTags_highest:
  assumes "dev_tag_pages get repo 1 10 None = Inr best"
  shows "if \<exists>t \<in> set (tags_seen get repo 1 10). \<exists>v. dev_tag t v
    then \<exists>info t v. checkDevTags get repo = Inr info \<and> t \<in> set (tags_seen get repo 1 10) \<and>
      dev_tag t v \<and> info_Version info = TrimPrefix (gt_Name t) ''v'' \<and>
      (\<forall>u \<in> set (tags_seen get repo 1 10). \<forall>w. dev_tag u w \<longrightarrow> \<not> compareVersions w v > 0)
    else checkDevTags get repo = Inl ''release: no dev-versioned tags found''"
proof -
  let ?T = "{(t, v). dev_tag t v \<and> t \<in> set (tags_seen get repo 1 10)}"
  have best: "best_of ?T best"
    using best_of_fold [of "{}" None "tags_seen get repo 1 10"] dev_tag_pages_fold [OF assms]
    by (simp add: best_of_def)
  show ?thesis
  proof (cases best)
    case None
    with best assms show ?thesis by (auto simp: best_of_def checkDevTags_def)
  next
    case (Some b)
    obtain v t where b: "b = (v, t)" by force
    with Some best have "dev_tag t v" "t \<in> set (tags_seen get repo 1 10)"
      and max: "\<And>u w. dev_tag u w \<Longrightarrow> u \<in> set (tags_seen get repo 1 10) \<Longrightarrow> \<not> v < w"
      by (auto simp: best_of_def not_less)
    with Some b assms show ?thesis
      unfolding compareVersions_pos by (auto simp: checkDevTags_def)
  qed
qed

text \<open>A server with a single page of three tags, the newest in the middle.\<close>

definition sample_github :: http_get where
  "sample_github url = Inr \<lparr>rep_StatusCode = 200, rep_Status = ''200 OK'',
     rep_Json = Inr (JArr (map (\<lambda>n. JObj [(''name'', JStr n), (''commit'', JObj [(''sha'', JStr '''')])])
       [''v1.9.0-dev'', ''v1.10.0-dev'', ''v2.0.0'']))\<rparr>"

theorem checkDevTags_highest_witness:
  "dev_tag_pages sample_github ''r'' 1 10 None \<noteq> Inl '''' \<and>
   (\<exists>info. checkDevTags sample_github ''r'' = Inr info \<and> info_Version info = ''1.10.0-dev'')"
proof -
  let ?tag = "\<lambda>n. \<lparr>gt_Name = n, gt_SHA = ''''\<rparr>"
  have tags: "tags_seen sample_github ''r'' 1 10 = map ?tag [''v1.9.0-dev'', ''v1.10.0-dev'', ''v2.0.0'']"
    by code_simp
  have pages: "dev_tag_pages sample_github ''r'' 1 10 None = Inr (Some (semver 1 10 0 True, ?tag ''v1.10.0-dev''))"
    by code_simp
  have "parseVersion (TrimPrefix ''v1.9.0-dev'' ''v'') = Some (semver 1 9 0 True)"
    by code_simp
  moreover have "parseVersion (TrimPrefix ''v1.10.0-dev'' ''v'') = Some (semver 1 10 0 True)"
    by code_simp
  moreover have "parseVersion (TrimPrefix ''v2.0.0'' ''v'') = Some (semver 2 0 0 False)"
    by code_simp
  moreover have "compareVersions (semver 1 10 0 True) (semver 1 9 0 True) > 0"
    by code_simp
  ultimately show ?thesis
    using checkDevTags_highest [OF pages] pages unfolding tags
    by (auto simp: dev_tag_def TrimPrefix_def HasPrefix_def)
qed

end
