(* ===== verification/Host_Info.thy ===== *)
theory Host_Info
  imports Release Http
begin

text \<open>
  What the plugin tells its host about itself: \<^verbatim>\<open>internal/handlers/manifest.go\<close> and
  \<^verbatim>\<open>version.go\<close>.
\<close>

section \<open>The manifest\<close>

record manifestView =
  mv_ID :: string
  mv_Enabled :: bool
  mv_Label :: string
  mv_Icon :: string

record manifest =
  m_ID :: string
  m_Name :: string
  m_Version :: string
  m_Views :: "manifestView list"
  m_ProvidesEvents :: bool

definition pluginID :: string where "pluginID = ''bill-tracker''"
definition pluginName :: string where "pluginName = ''Bill Tracker''"
definition viewID :: string where "viewID = ''bills''"

definition viewIcon :: string where
  \<open>viewIcon = ''<svg class="nav-icon" viewBox="0 0 24 24" aria-hidden="true"><defs><linearGradient id="bt-receipt" x1="0" y1="0" x2="0" y2="1"><stop offset="0%" stop-color="#f0fdf4"/><stop offset="100%" stop-color="#86efac"/></linearGradient><linearGradient id="bt-dollar" x1="0" y1="0" x2="0" y2="1"><stop offset="0%" stop-color="#fde68a"/><stop offset="100%" stop-color="#d97706"/></linearGradient></defs><path d="M6 2h12a1 1 0 0 1 1 1v18l-2.5-1.5L14 21l-2-1.5L10 21l-2.5-1.5L5 21V3a1 1 0 0 1 1-1z" fill="url(#bt-receipt)"/><g stroke="#16a34a" stroke-width="1.4" stroke-linecap="round"><line x1="8.5" y1="7.5" x2="15.5" y2="7.5"/><line x1="8.5" y1="11" x2="15.5" y2="11"/><line x1="8.5" y1="14.5" x2="13" y2="14.5"/></g><text x="17" y="6.5" text-anchor="middle" font-size="6" font-weight="700" fill="url(#bt-dollar)">$</text></svg>''\<close>

definition the_manifest :: "string \<Rightarrow> manifest" where
  "the_manifest version = \<lparr>m_ID = pluginID, m_Name = pluginName, m_Version = version,
     m_Views = [\<lparr>mv_ID = viewID, mv_Enabled = True, mv_Label = ''Bills'', mv_Icon = viewIcon\<rparr>],
     m_ProvidesEvents = True\<rparr>"

definition manifestView_json :: "manifestView \<Rightarrow> string" where
  "manifestView_json v = json_object [(''id'', json_quote (mv_ID v)), (''enabled'', json_bool (mv_Enabled v)),
     (''label'', json_quote (mv_Label v)), (''icon'', json_quote (mv_Icon v))]"

definition manifest_json :: "manifest \<Rightarrow> string" where
  "manifest_json m = json_object [(''id'', json_quote (m_ID m)), (''name'', json_quote (m_Name m)),
     (''version'', json_quote (m_Version m)), (''views'', json_array (map manifestView_json (m_Views m))),
     (''provides_events'', json_bool (m_ProvidesEvents m))]"

definition Manifest :: "string \<Rightarrow> handler" where
  "Manifest version r s = (json_reply (manifest_json (the_manifest version)), s)"

section \<open>The version\<close>

record versionResponse =
  vr_Version :: string
  vr_UpgradeAvailable :: bool
  vr_UpgradeVersion :: string
  vr_Changelog :: string
  vr_Channel :: string

definition version_response :: "string \<Rightarrow> Cache \<Rightarrow> versionResponse" where
  "version_response version cache =
     (let channel = (if HasSuffix version ''-dev'' then ''dev'' else ''release'');
          resp = \<lparr>vr_Version = version, vr_UpgradeAvailable = False, vr_UpgradeVersion = '''',
            vr_Changelog = '''', vr_Channel = channel\<rparr>
      in case Cache_Get cache of
        None \<Rightarrow> resp
      | Some info \<Rightarrow>
          if IsNewer version (info_Version info)
          then resp\<lparr>vr_UpgradeAvailable := True, vr_UpgradeVersion := info_Version info,
            vr_Changelog := info_Changelog info\<rparr>
          else resp)"

definition versionResponse_json :: "versionResponse \<Rightarrow> string" where
  "versionResponse_json v = json_object [(''version'', json_quote (vr_Version v)),
     (''upgradeAvailable'', json_bool (vr_UpgradeAvailable v)),
     (''upgradeVersion'', json_quote (vr_UpgradeVersion v)), (''changelog'', json_quote (vr_Changelog v)),
     (''channel'', json_quote (vr_Channel v))]"

definition GetVersion :: "string \<Rightarrow> Cache \<Rightarrow> handler" where
  "GetVersion version cache r s = (json_reply (versionResponse_json (version_response version cache)), s)"

section \<open>What the host learns\<close>

text \<open>The outcomes of the checks that succeeded, in order.\<close>

definition found :: "string \<Rightarrow> http_get list \<Rightarrow> Info list" where
  "found version gets =
     concat (map (\<lambda>get. case CheckForUpdate get Repo version of Inl e \<Rightarrow> [] | Inr info \<Rightarrow> [info]) gets)"

lemma cache_after_checks:
  "fold (\<lambda>get. checkVersion get version) gets c =
     (if found version gets = [] then c else Some (last (found version gets)))"
  by (induction gets arbitrary: c)
    (auto simp: found_def checkVersion_def Cache_Set_def split: sum.split)

text \<open>
  After any number of version checks, failed ones among them, the host is told of
  an upgrade exactly when the last check that succeeded found a readable version above
  the running one, and then it is told that version and its changelog; the channel is
  the running version's own.
\<close>

theorem version_response_after_checks:
  assumes "semver_ok a"
  shows "let v = version_response (show_version a) (fold (\<lambda>get. checkVersion get (show_version a)) gets None);
      infos = found (show_version a) gets in
    vr_Version v = show_version a \<and>
    (vr_UpgradeAvailable v \<longleftrightarrow>
      infos \<noteq> [] \<and> (\<exists>b. parseVersion (info_Version (last infos)) = Some b \<and> a < b)) \<and>
    (vr_UpgradeVersion v, vr_Changelog v) = (if vr_UpgradeAvailable v
      then (info_Version (last infos), info_Changelog (last infos)) else ('''', '''')) \<and>
    (vr_Channel v = ''dev'' \<longleftrightarrow> dev a)"
proof -
  have "HasSuffix (show_version a) ''-dev'' \<longleftrightarrow> dev a"
    using parseVersion_show_version [of a] assms
    by (auto simp: semver_ok_def parseVersion_def Let_def split: list.splits option.splits)
      (metis semver.sel(4))
  then show ?thesis
    by (simp add: version_response_def cache_after_checks Cache_Get_def IsNewer_shown [OF assms] Let_def)
qed

theorem version_response_after_checks_witness:
  "let v = version_response ''1.9.0-dev'' (fold (\<lambda>get. checkVersion get ''1.9.0-dev'')
      [sample_github, (\<lambda>_. Inl ''timeout'')] None) in
   vr_UpgradeAvailable v \<and> vr_UpgradeVersion v = ''1.10.0-dev''"
proof -
  have ok: "semver_ok (semver 1 9 0 True)" by (simp add: semver_ok_def int64_range_def)
  have shown: "show_version (semver 1 9 0 True) = ''1.9.0-dev''" by code_simp
  have found: "map info_Version (found ''1.9.0-dev'' [sample_github, (\<lambda>_. Inl ''timeout'')]) = [''1.10.0-dev'']"
    by code_simp
  have newer: "parseVersion ''1.10.0-dev'' = Some (semver 1 10 0 True)" by code_simp
  have less: "semver 1 9 0 True < semver 1 10 0 True" by code_simp
  obtain i where i: "found ''1.9.0-dev'' [sample_github, (\<lambda>_. Inl ''timeout'')] = [i]" "info_Version i = ''1.10.0-dev''"
    using found by auto
  show ?thesis
    using version_response_after_checks [OF ok, of "[sample_github, (\<lambda>_. Inl ''timeout'')]", unfolded shown i]
      i(2) newer less by (auto simp: Let_def)
qed


end
