(* ===== verification/Server.thy ===== *)
theory Server
  imports Bootstrap Host_Info
begin

text \<open>
  The HTTP server of \<^verbatim>\<open>cmd/server/main.go\<close>: its routes, which of them are guarded, and
  what the multiplexer of \<^verbatim>\<open>net/http\<close> does with a request before a handler sees it. The
  server's state is the database, the cache of the release checks and the number of
  background refreshes that settings actions have started and that have not run yet.
\<close>

section \<open>The multiplexer\<close>

text \<open>A path segment with \<^verbatim>\<open>%XX\<close> decoded; one that is malformed stays as it is.\<close>

fun percent_decode :: "string \<Rightarrow> string option" where
  "percent_decode [] = Some []"
| "percent_decode (c # cs) =
     (if c = CHR ''%'' then
        (case cs of
           a # b # rest \<Rightarrow>
             (case (hex_val a, hex_val b) of
                (Some x, Some y) \<Rightarrow> map_option (\<lambda>t. char_of (16 * x + y) # t) (percent_decode rest)
              | _ \<Rightarrow> None)
         | _ \<Rightarrow> None)
      else map_option (\<lambda>t. c # t) (percent_decode cs))"

definition pathUnescape :: "string \<Rightarrow> string" where
  "pathUnescape s = (case percent_decode s of None \<Rightarrow> s | Some t \<Rightarrow> t)"

text \<open>\<^verbatim>\<open>path.Clean\<close> on the segments of a rooted path; the accumulator is reversed.\<close>

fun clean_segments :: "string list \<Rightarrow> string list \<Rightarrow> string list" where
  "clean_segments [] acc = rev acc"
| "clean_segments (x # xs) acc =
     (if x = '''' \<or> x = ''.'' then clean_segments xs acc
      else if x = ''..'' then clean_segments xs (tl acc)
      else clean_segments xs (x # acc))"

definition cleanPath :: "string \<Rightarrow> string" where
  "cleanPath p =
     (let p = (if p = '''' then ''/'' else if hd p \<noteq> CHR ''/'' then CHR ''/'' # p else p);
          np = CHR ''/'' # Join (clean_segments (Split p (CHR ''/'')) []) ''/''
      in if last p = CHR ''/'' \<and> np \<noteq> ''/'' then np @ ''/'' else np)"

datatype segment = Seg string | Any

fun match_segments :: "segment list \<Rightarrow> string list \<Rightarrow> bool" where
  "match_segments [] [] \<longleftrightarrow> True"
| "match_segments (Seg l # ps) (x # xs) \<longleftrightarrow> pathUnescape x = l \<and> match_segments ps xs"
| "match_segments (Any # ps) (x # xs) \<longleftrightarrow> x \<noteq> '''' \<and> match_segments ps xs"
| "match_segments _ _ \<longleftrightarrow> False"

datatype route = Route_Register | Route_Manifest | Route_View | Route_Events | Route_Actions
  | Route_Settings | Route_Healthz | Route_Version

definition mux_table :: "(string \<times> segment list \<times> route) list" where
  "mux_table =
     [(''POST'', [Seg ''register''], Route_Register),
      (''GET'', [Seg ''manifest''], Route_Manifest),
      (''GET'', [Seg ''view'', Any], Route_View),
      (''GET'', [Seg ''events''], Route_Events),
      (''POST'', [Seg ''actions'', Any], Route_Actions),
      (''GET'', [Seg ''settings''], Route_Settings),
      (''POST'', [Seg ''settings''], Route_Settings),
      (''GET'', [Seg ''healthz''], Route_Healthz),
      (''GET'', [Seg ''version''], Route_Version)]"

text \<open>The patterns whose path matches, in the order of registration.\<close>

definition path_matches :: "string \<Rightarrow> (string \<times> segment list \<times> route) list" where
  "path_matches path =
     filter (\<lambda>(m, ps, rt). match_segments ps (Split (drop 1 path) (CHR ''/''))) mux_table"

definition allowed_methods :: "string \<Rightarrow> string list" where
  "allowed_methods path =
     (let ms = map fst (path_matches path) in
      (if ''GET'' \<in> set ms then [''GET'', ''HEAD''] else []) @ (if ''POST'' \<in> set ms then [''POST''] else []))"

definition find_route :: "string \<Rightarrow> string \<Rightarrow> route option" where
  "find_route method path =
     (case filter (\<lambda>(m, ps, rt). m = method \<or> m = ''GET'' \<and> method = ''HEAD'') (path_matches path) of
        [] \<Rightarrow> None
      | (m, ps, rt) # _ \<Rightarrow> Some rt)"

definition method_not_allowed :: "string list \<Rightarrow> response" where
  "method_not_allowed ms = (let e = http_Error ''Method Not Allowed'' 405 in
     e\<lparr>resp_Header := (''Allow'', Join ms '', '') # resp_Header e\<rparr>)"

section \<open>The application\<close>

text \<open>What is fixed while the process runs; \<open>app_redirect\<close> is the answer \<^verbatim>\<open>net/http\<close> gives to a
  request whose path is not in its clean form.\<close>

record app =
  app_Cfg :: Config
  app_tz :: tz
  app_Encryptor :: AEAD
  app_Version :: string
  app_ViewTemplate :: "viewData template"
  app_SettingsTemplate :: "settingsPageData template"
  app_redirect :: "request \<Rightarrow> response"

record server =
  sys_db :: db
  sys_Releases :: Cache
  sys_refreshes :: nat

text \<open>A handler that knows the database only.\<close>

definition on_db :: "handler \<Rightarrow> request \<Rightarrow> server \<Rightarrow> response \<times> server" where
  "on_db h r s = (case h r (sys_db s) of (resp, d) \<Rightarrow> (resp, s\<lparr>sys_db := d\<rparr>))"

text \<open>Whether a settings request that passes the guard starts a background refresh.\<close>

definition starts_refresh :: "app \<Rightarrow> env \<Rightarrow> randomness \<Rightarrow> request \<Rightarrow> db \<Rightarrow> bool" where
  "starts_refresh A E rand r d =
     (case RequireBearerToken (app_Encryptor A) Healthz r d of
        (resp, d') \<Rightarrow> resp = http_OK \<and> snd (fst (settings_page E rand (app_SettingsTemplate A) r d')))"

fun handle :: "app \<Rightarrow> env \<Rightarrow> randomness \<Rightarrow> string \<Rightarrow> route \<Rightarrow> request \<Rightarrow> server \<Rightarrow> response \<times> server" where
  "handle A E rand raw Route_Register r s =
     on_db (Register (app_Encryptor A) (cfg_PluginConnectionSecret (app_Cfg A)) rand raw) r s"
| "handle A E rand raw Route_Manifest r s =
     on_db (RequireBearerToken (app_Encryptor A) (Manifest (app_Version A))) r s"
| "handle A E rand raw Route_View r s =
     on_db (RequireBearerToken (app_Encryptor A) (View E (app_ViewTemplate A))) r s"
| "handle A E rand raw Route_Events r s = on_db (RequireBearerToken (app_Encryptor A) (Events E)) r s"
| "handle A E rand raw Route_Actions r s = on_db (RequireBearerToken (app_Encryptor A) Action) r s"
| "handle A E rand raw Route_Settings r s =
     (case on_db (RequireBearerToken (app_Encryptor A) (SettingsPage E rand (app_SettingsTemplate A))) r s of
        (resp, s') \<Rightarrow> (resp, if starts_refresh A E rand r (sys_db s)
           then s'\<lparr>sys_refreshes := sys_refreshes s' + 1\<rparr> else s'))"
| "handle A E rand raw Route_Healthz r s = on_db Healthz r s"
| "handle A E rand raw Route_Version r s = on_db (GetVersion (app_Version A) (sys_Releases s)) r s"

definition serve :: "app \<Rightarrow> env \<Rightarrow> randomness \<Rightarrow> string \<Rightarrow> request \<Rightarrow> server \<Rightarrow> response \<times> server" where
  "serve A E rand raw r s =
     (if req_Method r \<noteq> ''CONNECT'' \<and> cleanPath (req_Path r) \<noteq> req_Path r then (app_redirect A r, s)
      else case find_route (req_Method r) (req_Path r) of
        None \<Rightarrow> (let ms = allowed_methods (req_Path r) in
            if ms \<noteq> [] then method_not_allowed ms else http_NotFound, s)
      | Some rt \<Rightarrow> handle A E rand raw rt r s)"

section \<open>Who may change anything\<close>

definition authorised :: "app \<Rightarrow> request \<Rightarrow> server \<Rightarrow> bool" where
  "authorised A r s \<longleftrightarrow> (\<exists>t. fst (currentToken (app_Encryptor A) (sys_db s)) = Some t \<and>
     req_Header r ''Authorization'' = ''Bearer '' @ t)"

definition registers :: "app \<Rightarrow> request \<Rightarrow> bool" where
  "registers A r \<longleftrightarrow> find_route (req_Method r) (req_Path r) = Some Route_Register \<and>
     req_Header r connectionSecretHeader = cfg_PluginConnectionSecret (app_Cfg A)"

lemma currentToken_faults: "\<exists>fs. snd (currentToken enc d) = d\<lparr>db_faults := fs\<rparr>"
proof -
  have "\<exists>fs. snd (SettingsStore_Get k v d) = d\<lparr>db_faults := fs\<rparr>" for k v
    unfolding SettingsStore_Get_def
    by (rule sql_cases [of "storing [k] (\<lambda>s. case map_of (bt_settings s) k of None \<Rightarrow> (Inr v, s) | Some v \<Rightarrow> (Inr v, s))" d])
      (auto simp: storing_def split: option.split)
  then show ?thesis by (auto simp: currentToken_def split: prod.splits sum.splits option.splits) (metis snd_conv)+
qed

lemma RequireBearerToken_refused:
  assumes "\<not> (\<exists>t. fst (currentToken enc d) = Some t \<and> req_Header r ''Authorization'' = ''Bearer '' @ t)"
  shows "RequireBearerToken enc h r d = (http_Error ''forbidden'' 403, snd (currentToken enc d))"
proof (cases "currentToken enc d")
  case (Pair x d')
  show ?thesis
  proof (cases x)
    case (Some t)
    obtain got found where c: "CutPrefix (req_Header r ''Authorization'') ''Bearer '' = (got, found)" by force
    have "\<not> (found \<and> got = t)"
      using CutPrefix_True [of "req_Header r ''Authorization''" "''Bearer ''" got] c assms Pair Some by auto
    then show ?thesis
      using Pair Some c by (auto simp: RequireBearerToken_def ConstantTimeCompare_eq)
  qed (simp add: RequireBearerToken_def Pair)
qed

text \<open>
  C10. Nothing happens without a secret. Whatever is sent to whichever path, if the request does
  not carry the current bearer token and does not register with the connection
  secret, no table, no cache and no background job is touched; and every route but
  registration, liveness and version then answers 403 (or the redirect to the clean path).
\<close>

theorem serve_unauthorised:
  assumes "\<not> authorised A r s" "\<not> registers A r"
  shows "let (resp, s') = serve A E rand raw r s in
    (\<exists>fs. s' = s\<lparr>sys_db := (sys_db s)\<lparr>db_faults := fs\<rparr>\<rparr>) \<and>
    (find_route (req_Method r) (req_Path r) \<notin> {None, Some Route_Register, Some Route_Healthz, Some Route_Version} \<longrightarrow>
      resp = http_Error ''forbidden'' 403 \<or> resp = app_redirect A r)"
proof -
  have same: "\<exists>fs. s = s\<lparr>sys_db := (sys_db s)\<lparr>db_faults := fs\<rparr>\<rparr>"
    by (rule exI [of _ "db_faults (sys_db s)"]) simp
  obtain fs where fs: "snd (currentToken (app_Encryptor A) (sys_db s)) = (sys_db s)\<lparr>db_faults := fs\<rparr>"
    using currentToken_faults by blast
  have refused: "RequireBearerToken (app_Encryptor A) h r (sys_db s) =
      (http_Error ''forbidden'' 403, (sys_db s)\<lparr>db_faults := fs\<rparr>)" for h
    using RequireBearerToken_refused assms(1) fs unfolding authorised_def by metis
  have no_refresh: "\<not> starts_refresh A E rand r (sys_db s)"
    by (simp add: starts_refresh_def refused http_Error_def http_OK_def)
  have one: "(\<exists>fs. snd (handle A E rand raw rt r s) = s\<lparr>sys_db := (sys_db s)\<lparr>db_faults := fs\<rparr>\<rparr>) \<and>
      (rt \<notin> {Route_Register, Route_Healthz, Route_Version} \<longrightarrow>
        fst (handle A E rand raw rt r s) = http_Error ''forbidden'' 403)"
    if "find_route (req_Method r) (req_Path r) = Some rt" for rt
  proof (cases rt)
    case Route_Register
    then have "req_Header r connectionSecretHeader \<noteq> cfg_PluginConnectionSecret (app_Cfg A)"
      using assms(2) that by (simp add: registers_def)
    then show ?thesis using Route_Register same by (auto simp: on_db_def Register_def ConstantTimeCompare_eq)
  next
    case Route_Healthz
    then show ?thesis using same by (auto simp: on_db_def Healthz_def)
  next
    case Route_Version
    then show ?thesis using same by (auto simp: on_db_def GetVersion_def)
  qed (auto simp: on_db_def refused no_refresh)
  show ?thesis
  proof (cases "req_Method r \<noteq> ''CONNECT'' \<and> cleanPath (req_Path r) \<noteq> req_Path r")
    case False
    show ?thesis
    proof (cases "find_route (req_Method r) (req_Path r)")
      case None
      then show ?thesis using False same by (auto simp: serve_def Let_def)
    next
      case (Some rt)
      then show ?thesis using one [OF Some] False by (auto simp: serve_def case_prod_beta)
    qed
  qed (use same in \<open>auto simp: serve_def\<close>)
qed

definition sample_app :: app where
  "sample_app = \<lparr>app_Cfg = sample_config, app_tz = fixed_tz 0, app_Encryptor = sample_aead,
     app_Version = ''1.9.0'', app_ViewTemplate = (\<lambda>_. ('''', None)), app_SettingsTemplate = (\<lambda>_. ('''', None)),
     app_redirect = (\<lambda>_. http_Error ''Temporary Redirect'' 307)\<rparr>"

definition sample_server :: server where
  "sample_server = \<lparr>sys_db = sample_db, sys_Releases = None, sys_refreshes = 0\<rparr>"

text \<open>Somebody without a token asks for the deletion of bill 2.\<close>

definition intruder :: request where
  "intruder = (delete_request ''2'')\<lparr>req_Path := ''/settings''\<rparr>"

theorem serve_unauthorised_witness:
  "\<not> authorised sample_app intruder sample_server \<and> \<not> registers sample_app intruder \<and>
   resp_Status (fst (serve sample_app sample_env sample_rand '''' intruder sample_server)) \<in> {403, 307} \<and>
   bt_bill_definitions (sys_db (snd (serve sample_app sample_env sample_rand '''' intruder sample_server))) =
     bt_bill_definitions sample_db"
proof -
  have "fst (currentToken sample_aead sample_db) = None" by code_simp
  then have "\<not> authorised sample_app intruder sample_server"
    by (simp add: authorised_def sample_app_def sample_server_def)
  moreover have rt: "find_route (req_Method intruder) (req_Path intruder) = Some Route_Settings" by code_simp
  moreover from this have "\<not> registers sample_app intruder" by (simp add: registers_def)
  ultimately show ?thesis
    using serve_unauthorised [of sample_app intruder sample_server sample_env sample_rand "''''"]
    by (auto simp: case_prod_beta sample_server_def sample_app_def http_Error_def)
qed

end
