(* ===== verification/System.thy ===== *)
theory System
  imports Server
begin

text \<open>
  The running process as a state machine: requests are served, the loops of the scheduler
  (\<^verbatim>\<open>Run\<close> and the four \<^verbatim>\<open>run...\<close> functions of \<^verbatim>\<open>scheduler.go\<close>) do their work once and
  then at every tick, refreshes started by settings actions run, the clock and the
  fault script of the database change, the process ends by a \<^verbatim>\<open>log.Fatalf\<close> (of the listener, or of a
  start that fails), and it is started again, which
  reconciles the bills with \<^verbatim>\<open>bills.json\<close>. A handler, a job and a bootstrap are one step each.
\<close>

section \<open>The loops of the scheduler\<close>

datatype background = InstanceGeneration | SimpleFinRefresh | VendorRefresh | VersionCheck

text \<open>
  A loop does its work once, then creates a ticker with its interval and works again at
  every tick. \<^verbatim>\<open>time.NewTicker\<close> panics for an interval that is not positive, which ends
  the process.
\<close>

record goroutine =
  gr_work :: "env \<Rightarrow> http_get \<Rightarrow> server \<Rightarrow> server"
  gr_interval :: int

definition instanceGenerationInterval :: int where
  "instanceGenerationInterval = 6 * 3600 * 1000000000"

definition runVersionCheck :: "app \<Rightarrow> goroutine" where
  "runVersionCheck A =
     \<lparr>gr_work = (\<lambda>E get s. s\<lparr>sys_Releases := checkVersion get (app_Version A) (sys_Releases s)\<rparr>),
      gr_interval = cfg_VersionCheckInterval (app_Cfg A)\<rparr>"

definition runInstanceGeneration :: "app \<Rightarrow> goroutine" where
  "runInstanceGeneration A =
     \<lparr>gr_work = (\<lambda>E get s. s\<lparr>sys_db := generateInstances E (sys_db s)\<rparr>),
      gr_interval = instanceGenerationInterval\<rparr>"

definition runSimpleFinRefresh :: "app \<Rightarrow> goroutine" where
  "runSimpleFinRefresh A =
     \<lparr>gr_work = (\<lambda>E get s. s\<lparr>sys_db := RefreshSimpleFinNow E (sys_db s)\<rparr>),
      gr_interval = minutes (cfg_SimpleFinRefreshIntervalMinutes (app_Cfg A))\<rparr>"

definition runVendorRefresh :: "app \<Rightarrow> goroutine" where
  "runVendorRefresh A =
     \<lparr>gr_work = (\<lambda>E get s. s\<lparr>sys_db := refreshVendorConnections E (sys_db s)\<rparr>),
      gr_interval = minutes (cfg_VendorRefreshIntervalMinutes (app_Cfg A))\<rparr>"

fun Run :: "app \<Rightarrow> background \<Rightarrow> goroutine" where
  "Run A InstanceGeneration = runInstanceGeneration A"
| "Run A SimpleFinRefresh = runSimpleFinRefresh A"
| "Run A VendorRefresh = runVendorRefresh A"
| "Run A VersionCheck = runVersionCheck A"

lemmas goroutine_defs = runInstanceGeneration_def runSimpleFinRefresh_def runVendorRefresh_def runVersionCheck_def

datatype loop = Starting | Ticking

record process =
  proc_server :: server
  proc_loops :: "background \<Rightarrow> loop"
  proc_crashed :: bool

definition first_run :: "app \<Rightarrow> env \<Rightarrow> http_get \<Rightarrow> background \<Rightarrow> process \<Rightarrow> process" where
  "first_run A E get b p =
     (let p' = p\<lparr>proc_server := gr_work (Run A b) E get (proc_server p)\<rparr> in
      if gr_interval (Run A b) \<le> 0 then p'\<lparr>proc_crashed := True\<rparr>
      else p'\<lparr>proc_loops := (proc_loops p)(b := Ticking)\<rparr>)"

section \<open>Start-up and steps\<close>

text \<open>
  \<^verbatim>\<open>main\<close> up to the point where the application exists; each failure ends the process with
  the text of \<^verbatim>\<open>log.Fatalf\<close>. Opening the database, migrating it and parsing the templates are
  arguments, as is the local zone.
\<close>

definition db_New :: "(string \<Rightarrow> string option) \<Rightarrow> string option \<Rightarrow> string \<Rightarrow> (string, unit) result" where
  "db_New sql_Open ping dsn =
     (case sql_Open dsn of
        Some e \<Rightarrow> Inl (''opening db: '' @ e)
      | None \<Rightarrow> (case ping of Some e \<Rightarrow> Inl (''pinging db: '' @ e) | None \<Rightarrow> Inr ()))"

definition db_Migrate :: "string option \<Rightarrow> string option \<Rightarrow> (string, unit) result" where
  "db_Migrate set_dialect up =
     (case set_dialect of
        Some e \<Rightarrow> Inl (''setting goose dialect: '' @ e)
      | None \<Rightarrow> (case up of Some e \<Rightarrow> Inl (''running migrations: '' @ e) | None \<Rightarrow> Inr ()))"

definition main_app :: "os \<Rightarrow> tz \<Rightarrow> (string \<Rightarrow> (string, unit) result) \<Rightarrow> (string, unit) result \<Rightarrow>
    (string \<Rightarrow> AEAD) \<Rightarrow> (string, viewData template \<times> settingsPageData template) result \<Rightarrow>
    (request \<Rightarrow> response) \<Rightarrow> string \<Rightarrow> (string, app) result" where
  "main_app os tz open_db migrate new_gcm templates redirect version =
     (case Load os of
        Inl e \<Rightarrow> Inl (''loading config: '' @ e)
      | Inr cfg \<Rightarrow>
     (case open_db (DSN cfg) of
        Inl e \<Rightarrow> Inl (''connecting to db: '' @ e)
      | Inr _ \<Rightarrow>
     (case migrate of
        Inl e \<Rightarrow> Inl (''running migrations: '' @ e)
      | Inr _ \<Rightarrow>
     (case NewEncryptor new_gcm (cfg_EncryptionKey cfg) of
        Inl e \<Rightarrow> Inl (''initializing encryptor: '' @ e)
      | Inr encryptor \<Rightarrow>
     (case templates of
        Inl e \<Rightarrow> Inl (''parsing templates: '' @ e)
      | Inr (view_tmpl, settings_tmpl) \<Rightarrow>
          Inr \<lparr>app_Cfg = cfg, app_tz = tz, app_Encryptor = encryptor, app_Version = version,
            app_ViewTemplate = view_tmpl, app_SettingsTemplate = settings_tmpl, app_redirect = redirect\<rparr>)))))"

text \<open>An application that starts has the configuration the environment describes and a 32-byte key.\<close>

lemma main_app_started:
  assumes "main_app os tz open_db migrate new_gcm templates redirect version = Inr A"
  shows "Load os = Inr (app_Cfg A) \<and> app_Version A = version \<and>
    (\<exists>key. hex_DecodeString (cfg_EncryptionKey (app_Cfg A)) = Some key \<and> length key = 32 \<and>
      app_Encryptor A = new_gcm key)"
  using assms
  by (auto simp: main_app_def NewEncryptor_def split: sum.splits option.splits if_splits)

definition boot :: "env \<Rightarrow> os \<Rightarrow> (nat \<Rightarrow> randomness) \<Rightarrow> (string \<Rightarrow> (string, json) result) \<Rightarrow>
    (string, string) result \<Rightarrow> db \<Rightarrow> process" where
  "boot E os rands syntax file d =
     \<lparr>proc_server = \<lparr>sys_db = bootstrapBills E os rands syntax file d, sys_Releases = None, sys_refreshes = 0\<rparr>,
      proc_loops = (\<lambda>_. Starting), proc_crashed = False\<rparr>"

text \<open>What an environment shares with the process; clock, portals, bridge and URL parser are free.\<close>

definition moment :: "app \<Rightarrow> env \<Rightarrow> bool" where
  "moment A E \<longleftrightarrow> env_tz E = app_tz A \<and> env_Encryptor E = app_Encryptor A \<and>
     env_BillInstanceLookaheadDays E = cfg_BillInstanceLookaheadDays (app_Cfg A) \<and>
     env_VendorRefreshIntervalMinutes E = cfg_VendorRefreshIntervalMinutes (app_Cfg A)"

inductive step :: "app \<Rightarrow> process \<Rightarrow> process \<Rightarrow> bool" for A where
  request: "\<not> proc_crashed p \<Longrightarrow> moment A E \<Longrightarrow>
    step A p (p\<lparr>proc_server := snd (serve A E rand raw r (proc_server p))\<rparr>)"
| first: "\<not> proc_crashed p \<Longrightarrow> moment A E \<Longrightarrow> proc_loops p b = Starting \<Longrightarrow>
    step A p (first_run A E get b p)"
| tick: "\<not> proc_crashed p \<Longrightarrow> moment A E \<Longrightarrow> proc_loops p b = Ticking \<Longrightarrow>
    step A p (p\<lparr>proc_server := gr_work (Run A b) E get (proc_server p)\<rparr>)"
| refresh: "\<not> proc_crashed p \<Longrightarrow> moment A E \<Longrightarrow> sys_refreshes (proc_server p) = Suc n \<Longrightarrow>
    step A p (p\<lparr>proc_server := (proc_server p)\<lparr>sys_refreshes := n,
      sys_db := refreshSimpleFinAsync E (sys_db (proc_server p))\<rparr>\<rparr>)"
| environment: "step A p (p\<lparr>proc_server := (proc_server p)\<lparr>sys_db :=
    (sys_db (proc_server p))\<lparr>db_now := t, db_faults := fs\<rparr>\<rparr>\<rparr>)"
| listener_fails: "\<not> proc_crashed p \<Longrightarrow> step A p (p\<lparr>proc_crashed := True\<rparr>)"
| start_fails: "main_app os tz open_db migrate new_gcm templates redirect version = Inl e \<Longrightarrow>
    step A p (p\<lparr>proc_crashed := True\<rparr>)"
| restart: "moment A E \<Longrightarrow> step A p (boot E os rands syntax file (sys_db (proc_server p)))"

inductive reachable :: "app \<Rightarrow> process \<Rightarrow> bool" for A where
  installed: "moment A E \<Longrightarrow> reachable A (boot E os rands syntax file (empty_db now faults msg collate))"
| stepped: "reachable A p \<Longrightarrow> step A p p' \<Longrightarrow> reachable A p'"

section \<open>What every step keeps\<close>

lemma View_keeps:
  assumes "fault_free P" "P s" shows "P (snd (View E tmpl r s))"
proof -
  note reads = preserves_bill_reads [OF assms(1)] preserves_connection_reads [OF assms(1)]
  have "P (snd (view_data tz now s))" for tz now
  proof -
    define to where "to = AddDate tz (time_Date tz (Year tz now) (Month tz now) (Day tz now) 0 0 0 0 (time_loc now))
      0 0 viewLookaheadDays"
    obtain x s1 y s2 z s3 where l: "BillInstanceStore_ListUpcomingUnpaid tz to s = (x, s1)"
        "SimpleFinConnectionStore_Get s1 = (y, s2)" "AccountStore_ListVisible s2 = (z, s3)" by (metis surj_pair)
    have "P s1" by (rule preserves_result [OF reads(4) assms(2) l(1)])
    moreover from this have "P s2" by (rule preserves_result [OF reads(8) _ l(2)])
    moreover from this have "P s3" by (rule preserves_result [OF reads(6) _ l(3)])
    ultimately show ?thesis
      by (simp add: view_data_def Let_def to_def [symmetric] l split: sum.split)
  qed
  from this [of "env_tz E" "env_now E"] show ?thesis
    by (auto simp: View_def split: prod.split sum.split)
qed

lemma Events_keeps:
  assumes "fault_free P" "P s" shows "P (snd (Events E r s))"
  using assms(2) preserves_result [OF preserves_bill_reads(4) [OF assms(1)] assms(2)]
  by (auto simp: Events_def Let_def split: prod.split sum.split)

lemma Action_keeps:
  assumes "\<And>n. preserves P (BillInstanceStore_MarkPaid n)" "P s" shows "P (snd (Action r s))"
proof (cases rule: Action_cases [of r s])
  case (kept resp)
  then show ?thesis using assms(2) by simp
next
  case (paid n)
  obtain x s1 where m: "BillInstanceStore_MarkPaid n s = (x, s1)" by force
  have "P s1" by (rule preserves_result [OF assms(1,2) m])
  then show ?thesis by (simp add: paid m split: sum.split)
qed

text \<open>
  The contracts of the settings page, the jobs and the bootstrap together: what survives
  all of them, a registration and the passing of time survives every step.
\<close>

locale system_invariant = settings_invariant I + job: job_invariant I + start: bootstrap_invariant I
  for I :: "db \<Rightarrow> bool" +
  assumes set_setting: "preserves I (SettingsStore_Set k v)"
    and clock: "I (s\<lparr>db_now := t\<rparr>) = I s"
begin

lemma handle_keeps: "I (sys_db s) \<Longrightarrow> I (sys_db (snd (handle A E rand raw rt r s)))"
proof -
  assume s: "I (sys_db s)"
  have on: "I (snd (h r (sys_db s))) \<Longrightarrow> I (sys_db (snd (on_db h r s)))" for h
    by (simp add: on_db_def case_prod_beta)
  note guard = preserves_guarded [OF fault_free _ s]
  show ?thesis
  proof (cases rt)
    case Route_Register
    then show ?thesis using on Register_keeps [OF set_setting s] by simp
  next
    case Route_Manifest
    have "I (snd (RequireBearerToken (app_Encryptor A) (Manifest (app_Version A)) r (sys_db s)))"
      by (rule guard) (simp add: Manifest_def)
    then show ?thesis using Route_Manifest on by simp
  next
    case Route_View
    have "I (snd (RequireBearerToken (app_Encryptor A) (View E (app_ViewTemplate A)) r (sys_db s)))"
      by (rule guard) (rule View_keeps [OF fault_free])
    then show ?thesis using Route_View on by simp
  next
    case Route_Events
    have "I (snd (RequireBearerToken (app_Encryptor A) (Events E) r (sys_db s)))"
      by (rule guard) (rule Events_keeps [OF fault_free])
    then show ?thesis using Route_Events on by simp
  next
    case Route_Actions
    have "I (snd (RequireBearerToken (app_Encryptor A) Action r (sys_db s)))"
      by (rule guard) (rule Action_keeps [OF paid])
    then show ?thesis using Route_Actions on by simp
  next
    case Route_Settings
    have "I (snd (RequireBearerToken (app_Encryptor A) (SettingsPage E rand (app_SettingsTemplate A)) r (sys_db s)))"
      by (rule guard) (rule SettingsPage_keeps)
    then show ?thesis using Route_Settings on by (simp add: case_prod_beta)
  next
    case Route_Healthz
    then show ?thesis using on s by (simp add: Healthz_def)
  next
    case Route_Version
    then show ?thesis using on s by (simp add: GetVersion_def)
  qed
qed

lemma serve_keeps: "I (sys_db s) \<Longrightarrow> I (sys_db (snd (serve A E rand raw r s)))"
  by (simp add: serve_def Let_def handle_keeps split: option.split)

lemma work_keeps: "I (sys_db s) \<Longrightarrow> I (sys_db (gr_work (Run A b) E get s))"
  by (cases b) (simp_all add: goroutine_defs job.generateInstances_keeps job.RefreshSimpleFinNow_keeps
      job.refreshVendorConnections_keeps)

lemma step_keeps: "step A p p' \<Longrightarrow> I (sys_db (proc_server p)) \<Longrightarrow> I (sys_db (proc_server p'))"
proof (induction rule: step.induct)
  case (environment p fs t)
  then have "I ((sys_db (proc_server p))\<lparr>db_now := t\<rparr>)" by (simp add: clock)
  then have "I ((sys_db (proc_server p))\<lparr>db_now := t\<rparr>\<lparr>db_faults := fs\<rparr>)"
    using fault_free by (simp add: fault_free_def)
  then show ?case by simp
qed (simp_all add: serve_keeps first_run_def Let_def work_keeps job.RefreshSimpleFinNow_keeps
    boot_def start.bootstrapBills_keeps)

lemma steps_keep: "(step A)\<^sup>*\<^sup>* p p' \<Longrightarrow> I (sys_db (proc_server p)) \<Longrightarrow> I (sys_db (proc_server p'))"
  by (induction rule: rtranclp_induct) (simp_all add: step_keeps)

end

lemma db_ok_clock: "db_ok (s\<lparr>db_now := t\<rparr>) = db_ok s"
  by (simp add: db_ok_def table_ok_defs)

interpretation system_schema: system_invariant db_ok
  by unfold_locales (simp_all add: Settings_Set_ok db_ok_clock)

section \<open>Properties of the process\<close>

lemma first_run_crash: "proc_crashed (first_run A E get b p) \<longleftrightarrow> proc_crashed p \<or> gr_interval (Run A b) \<le> 0"
  by (simp add: first_run_def Let_def)

text \<open>
  However requests, jobs, failures of the database, crashes and restarts interleave, the tables of
  every process that grew out of a fresh installation satisfy the schema's invariant
  (unique keys, intact references, storable texts, at most one bank connection, no half-paid
  instance).
\<close>

lemma reachable_ok:
  assumes "reachable A p"
  shows "db_ok (sys_db (proc_server p))"
  using assms
proof (induction rule: reachable.induct)
  case (installed E os rands js raw now faults msg collate)
  then show ?case
    using bootstrap_schema.bootstrapBills_keeps [OF empty_db_ok] by (simp add: boot_def)
next
  case (stepped p p')
  then show ?case using system_schema.step_keeps by blast
qed

definition fresh :: process where
  "fresh = boot sample_env sample_os (\<lambda>_. sample_rand) (\<lambda>_. Inl ''EOF'') (Inl ''no such file'')
     (empty_db (sample_time 1767225600) [] id (\<lambda>_ _. True))"

text \<open>A configuration that asks for bank balances every 0 minutes ends the process on its first refresh.\<close>

definition hasty_app :: app where
  "hasty_app = sample_app\<lparr>app_Cfg := sample_config\<lparr>cfg_SimpleFinRefreshIntervalMinutes := 0,
     cfg_BillInstanceLookaheadDays := 60, cfg_VendorRefreshIntervalMinutes := 360\<rparr>\<rparr>"

lemma fresh_reachable: "reachable hasty_app fresh" and hasty_moment: "moment hasty_app sample_env"
proof -
  show m: "moment hasty_app sample_env"
    by (simp add: moment_def hasty_app_def sample_app_def sample_env_def)
  show "reachable hasty_app fresh" unfolding fresh_def by (rule installed [OF m])
qed

lemma hasty_crash:
  "\<exists>p. reachable hasty_app p \<and> proc_crashed p \<and> p = first_run hasty_app sample_env (\<lambda>_. Inl ''offline'') SimpleFinRefresh fresh"
proof -
  define p where "p = first_run hasty_app sample_env (\<lambda>_. Inl ''offline'') SimpleFinRefresh fresh"
  have "step hasty_app fresh p"
    unfolding p_def by (rule first [OF _ hasty_moment]) (simp_all add: fresh_def boot_def)
  then have "reachable hasty_app p" by (rule stepped [OF fresh_reachable])
  moreover have "proc_crashed p"
    by (simp add: p_def first_run_crash hasty_app_def goroutine_defs minutes_def wrap64_def)
  ultimately show ?thesis by (auto simp: p_def)
qed

text \<open>A process also ends without any mistake in the configuration, when its listener fails.\<close>

lemma listener_crash: "reachable A p \<Longrightarrow> \<not> proc_crashed p \<Longrightarrow> reachable A (p\<lparr>proc_crashed := True\<rparr>)"
  by (rule stepped [OF _ listener_fails])

section \<open>Payments are not forgotten\<close>

text \<open>
  The occurrence with the given id, bill and due day is recorded (as paid, where the flag
  asks for it), or its bill has been deleted; the id of a deleted bill is never used again.
\<close>

definition settled :: "bool \<Rightarrow> int \<Rightarrow> int \<Rightarrow> date \<Rightarrow> db \<Rightarrow> bool" where
  "settled paid_only k rid d s \<longleftrightarrow>
     (\<exists>i \<in> set (bt_bill_instances s). bi_ID i = k \<and> bi_BillDefinitionID i = rid \<and> bi_DueDate i = d \<and>
       (paid_only \<longrightarrow> bi_Paid i)) \<or>
     (rid \<notin> bd_ID ` set (bt_bill_definitions s) \<and> rid < seq_definitions s)"

definition core :: "db \<Rightarrow> BillInstance list \<times> int list \<times> int" where
  "core s = (bt_bill_instances s, map bd_ID (bt_bill_definitions s), seq_definitions s)"

lemma settled_cong: "core s' = core s \<Longrightarrow> settled paid_only k rid d s' = settled paid_only k rid d s"
proof -
  assume c: "core s' = core s"
  then have "set (map bd_ID (bt_bill_definitions s')) = set (map bd_ID (bt_bill_definitions s))"
    by (simp add: core_def)
  then have "bd_ID ` set (bt_bill_definitions s') = bd_ID ` set (bt_bill_definitions s)" by simp
  with c show ?thesis by (simp add: settled_def core_def)
qed

lemma core_update: "(\<And>b. bd_ID (f b) = bd_ID b) \<Longrightarrow> map bd_ID (update_where p f rows) = map bd_ID rows"
  by (rule map_update_where)

lemma core_kept:
  "core (snd (BillDefinitionStore_GetByName n s)) = core s"
  "core (snd (BillDefinitionStore_ListAll s)) = core s"
  "core (snd (SimpleFinConnectionStore_Get s)) = core s"
  "core (snd (VendorConnectionStore_ListAll s)) = core s"
  "core (snd (VendorConnectionStore_GetByBillDefinitionID j s)) = core s"
  "core (snd (BillDefinitionStore_Update tz j b s)) = core s"
  "core (snd (BillDefinitionStore_UpdateBootstrap tz j b s)) = core s"
  "core (snd (BillDefinitionStore_UpdateAmount j cents s)) = core s"
  "core (snd (AccountStore_Upsert a s)) = core s"
  "core (snd (AccountStore_SetVisible j v s)) = core s"
  "core (snd (AccountStore_SetDisplayName j n s)) = core s"
  "core (snd (AccountStore_DeleteAll s)) = core s"
  "core (snd (SimpleFinConnectionStore_Disconnect s)) = core s"
  "core (snd (SimpleFinConnectionStore_MarkSynced j e s)) = core s"
  "core (snd (SettingsStore_Set key x s)) = core s"
  "core (snd (VendorConnectionStore_Upsert w s)) = core s"
  "core (snd (VendorConnectionStore_MarkSynced j acct e s)) = core s"
  unfolding BillDefinitionStore_GetByName_def BillDefinitionStore_ListAll_def SimpleFinConnectionStore_Get_def
    VendorConnectionStore_ListAll_def VendorConnectionStore_GetByBillDefinitionID_def
    BillDefinitionStore_Update_def BillDefinitionStore_UpdateBootstrap_def BillDefinitionStore_UpdateAmount_def
    AccountStore_Upsert_def AccountStore_SetVisible_def AccountStore_SetDisplayName_def AccountStore_DeleteAll_def
    SimpleFinConnectionStore_Disconnect_def SimpleFinConnectionStore_MarkSynced_def SettingsStore_Set_def
    VendorConnectionStore_Upsert_def VendorConnectionStore_MarkSynced_def
  by (rule sql_keeps; simp add: statement_defs core_def core_update split: list.split)+

lemma core_Connect: "core (snd (SimpleFinConnectionStore_Connect url s)) = core s"
  by (rule Connect_cases [of url s]) (simp_all add: core_def)

lemma fault_free_settled: "fault_free (\<lambda>s. db_ok s \<and> settled paid_only k rid d s)"
  using fault_free_db_ok by (simp add: fault_free_def settled_def)

lemma settled_same:
  assumes "preserves db_ok m" "\<And>s. core (snd (m s)) = core s"
  shows "preserves (\<lambda>s. db_ok s \<and> settled paid_only k rid d s) m"
  using assms(1) settled_cong [OF assms(2)] by (simp add: preserves_def)

lemma settled_Create: "preserves (\<lambda>s. db_ok s \<and> settled paid_only k rid d s) (BillDefinitionStore_Create tz b)"
proof (rule preservesI)
  fix s assume s: "db_ok s \<and> settled paid_only k rid d s"
  have "preserves (settled paid_only k rid d) (BillDefinitionStore_Create tz b)"
    unfolding BillDefinitionStore_Create_def
    by (rule preserves_sql) (auto simp: fault_free_def preserves_def settled_def statement_defs)
  then show "db_ok (snd (BillDefinitionStore_Create tz b s)) \<and> settled paid_only k rid d (snd (BillDefinitionStore_Create tz b s))"
    using s preservesD [OF Create_ok] by (simp add: preserves_def)
qed

lemma settled_Ensure: "preserves (\<lambda>s. db_ok s \<and> settled paid_only k rid d s) (BillInstanceStore_EnsureInstance tz j t)"
proof (rule preservesI)
  fix s assume s: "db_ok s \<and> settled paid_only k rid d s"
  have "preserves (settled paid_only k rid d) (BillInstanceStore_EnsureInstance tz j t)"
    unfolding BillInstanceStore_EnsureInstance_def
    by (rule preserves_sql) (auto simp: fault_free_def preserves_def settled_def statement_defs)
  then show "db_ok (snd (BillInstanceStore_EnsureInstance tz j t s)) \<and>
      settled paid_only k rid d (snd (BillInstanceStore_EnsureInstance tz j t s))"
    using s preservesD [OF EnsureInstance_ok] by (simp add: preserves_def)
qed

lemma settled_update_instances:
  assumes "settled paid_only k rid d s"
    and "\<And>i. bi_ID (f i) = bi_ID i \<and> bi_BillDefinitionID (f i) = bi_BillDefinitionID i \<and>
      bi_DueDate (f i) = bi_DueDate i \<and> bi_Paid (f i)"
  shows "settled paid_only k rid d (s\<lparr>bt_bill_instances := update_where p f (bt_bill_instances s)\<rparr>)"
proof (cases "rid \<notin> bd_ID ` set (bt_bill_definitions s) \<and> rid < seq_definitions s")
  case False
  then obtain i where i: "i \<in> set (bt_bill_instances s)" "bi_ID i = k" "bi_BillDefinitionID i = rid" "bi_DueDate i = d"
      "paid_only \<Longrightarrow> bi_Paid i"
    using assms(1) unfolding settled_def by blast
  define j where "j = (if p i then f i else i)"
  have "j \<in> set (update_where p f (bt_bill_instances s))"
    unfolding set_update_where j_def using i(1) by (rule imageI)
  moreover have "bi_ID j = k" "bi_BillDefinitionID j = rid" "bi_DueDate j = d" "paid_only \<longrightarrow> bi_Paid j"
    using i(2-5) assms(2) by (simp_all add: j_def)
  ultimately show ?thesis unfolding settled_def by auto
qed (simp add: settled_def)

lemma settled_MarkPaid: "preserves (\<lambda>s. db_ok s \<and> settled paid_only k rid d s) (BillInstanceStore_MarkPaid j)"
proof (rule preservesI)
  fix s assume s: "db_ok s \<and> settled paid_only k rid d s"
  have "preserves (settled paid_only k rid d) (BillInstanceStore_MarkPaid j)"
    unfolding BillInstanceStore_MarkPaid_def
    by (rule preserves_sql) (simp add: fault_free_def settled_def, simp add: preserves_def statement_defs settled_update_instances)
  then show "db_ok (snd (BillInstanceStore_MarkPaid j s)) \<and> settled paid_only k rid d (snd (BillInstanceStore_MarkPaid j s))"
    using s preservesD [OF MarkPaid_ok] by (simp add: preserves_def)
qed

lemma settled_Delete: "preserves (\<lambda>s. db_ok s \<and> settled paid_only k rid d s) (BillDefinitionStore_Delete j)"
  unfolding BillDefinitionStore_Delete_def
proof (rule preserves_sql [OF fault_free_settled], rule preservesI)
  fix s :: db
  let ?del = "\<lambda>s. if \<not> int4 j then fail ''id'' s
       else (Inr (), s\<lparr>bt_bill_definitions := delete_where (\<lambda>b. bd_ID b = j) (bt_bill_definitions s),
         bt_bill_instances := delete_where (\<lambda>i. bi_BillDefinitionID i = j) (bt_bill_instances s),
         bt_vendor_connections := delete_where (\<lambda>v. vc_BillDefinitionID v = j) (bt_vendor_connections s)\<rparr>)"
  assume s: "db_ok s \<and> settled paid_only k rid d s"
  have "rid < seq_definitions s"
    using s unfolding settled_def by (auto simp: db_ok_def definitions_ok_def instances_ok_def keys_ok_def)
  then have "settled paid_only k rid d (snd (?del s))"
    using s by (auto simp: settled_def fail_def storing_def)
  moreover have "db_ok (snd (?del s))"
    using s by (simp add: db_ok_def table_ok_defs keys_ok_delete distinct_map_delete) blast
  ultimately show "db_ok (snd (?del s)) \<and> settled paid_only k rid d (snd (?del s))" by blast
qed

lemmas settled_kept = settled_Create settled_Ensure settled_MarkPaid settled_Delete
  core_kept [THEN settled_same [rotated]] core_Connect [THEN settled_same [rotated]]

lemmas settled_updates = settled_Ensure [THEN preservesD] settled_Delete [THEN preservesD]
  settled_same [OF definition_updates_ok(1) core_kept(6), THEN preservesD]
  settled_same [OF definition_updates_ok(2) core_kept(7), THEN preservesD]
  settled_same [OF definition_updates_ok(3) core_kept(8), THEN preservesD]

interpretation system_settled: system_invariant "\<lambda>s. db_ok s \<and> settled paid_only k rid d s" for paid_only k rid d
  by unfold_locales
    (rule fault_free_settled
      | rule settled_updates, assumption
      | rule settled_kept, rule bill_store_ok connection_store_ok
      | rule settled_kept
      | simp add: settings_schema.ids
      | simp add: db_ok_clock settled_def)+

text \<open>
  A payment is never forgotten: once an occurrence of a bill is recorded as paid, it stays
  recorded as paid, for the same bill and the same day, through every later request,
  job, failure and restart, as long as the bill itself is not deleted.
\<close>

theorem paid_stays_paid:
  assumes "db_ok (sys_db (proc_server p))" "(step A)\<^sup>*\<^sup>* p p'"
    and "i \<in> set (bt_bill_instances (sys_db (proc_server p)))" "bi_Paid i"
    and "bi_BillDefinitionID i \<in> bd_ID ` set (bt_bill_definitions (sys_db (proc_server p')))"
  shows "\<exists>j \<in> set (bt_bill_instances (sys_db (proc_server p'))).
    bi_ID j = bi_ID i \<and> bi_BillDefinitionID j = bi_BillDefinitionID i \<and> bi_DueDate j = bi_DueDate i \<and>
    bi_Paid j \<and> bi_PaidAt j \<noteq> None"
proof -
  have "settled True (bi_ID i) (bi_BillDefinitionID i) (bi_DueDate i) (sys_db (proc_server p))"
    using assms(3,4) by (auto simp: settled_def)
  then have "db_ok (sys_db (proc_server p')) \<and>
      settled True (bi_ID i) (bi_BillDefinitionID i) (bi_DueDate i) (sys_db (proc_server p'))"
    using system_settled.steps_keep [OF assms(2)] assms(1) by simp
  with assms(5) obtain j where "j \<in> set (bt_bill_instances (sys_db (proc_server p')))" "bi_ID j = bi_ID i"
      "bi_BillDefinitionID j = bi_BillDefinitionID i" "bi_DueDate j = bi_DueDate i" "bi_Paid j"
      "db_ok (sys_db (proc_server p'))"
    unfolding settled_def by blast
  moreover from this have "bi_PaidAt j \<noteq> None" by (simp add: db_ok_def instances_ok_def)
  ultimately show ?thesis by blast
qed

definition running :: process where
  "running = \<lparr>proc_server = sample_server, proc_loops = (\<lambda>_. Ticking), proc_crashed = False\<rparr>"

text \<open>The generator runs, and the paid occurrence of January is still there.\<close>

theorem paid_stays_paid_witness:
  "\<exists>p'. (step hasty_app)\<^sup>*\<^sup>* running p' \<and> sys_db (proc_server p') = generateInstances sample_env sample_db \<and>
     (\<exists>j \<in> set (bt_bill_instances (sys_db (proc_server p'))). bi_ID j = 3 \<and> bi_DueDate j = Date 2026 1 31 \<and> bi_Paid j)"
proof -
  define p' where "p' = running\<lparr>proc_server :=
    gr_work (Run hasty_app InstanceGeneration) sample_env (\<lambda>_. Inl ''offline'') (proc_server running)\<rparr>"
  have "step hasty_app running p'"
    unfolding p'_def by (rule tick [OF _ hasty_moment]) (simp_all add: running_def)
  then have run: "(step hasty_app)\<^sup>*\<^sup>* running p'" by (rule r_into_rtranclp)
  have db: "sys_db (proc_server running) = sample_db" "sys_db (proc_server p') = generateInstances sample_env sample_db"
    by (simp_all add: running_def sample_server_def p'_def goroutine_defs)
  define i where "i = \<lparr>bi_ID = 3, bi_BillDefinitionID = 1, bi_DueDate = Date 2026 1 31, bi_Paid = True,
     bi_PaidAt = Some (sample_time 1767225600)\<rparr>"
  have "map bd_ID (map (\<lambda>b. b\<lparr>bd_AmountCents := 0\<rparr>) (bt_bill_definitions (generateInstances sample_env sample_db))) =
      map bd_ID (map (\<lambda>b. b\<lparr>bd_AmountCents := 0\<rparr>) (bt_bill_definitions sample_db))"
    using rules.generateInstances_keeps [of sample_db "rules_of sample_db" sample_env] unfolding rules_of_def by metis
  then have "map bd_ID (bt_bill_definitions (generateInstances sample_env sample_db)) = map bd_ID (bt_bill_definitions sample_db)"
    by (simp add: comp_def)
  then have "bd_ID ` set (bt_bill_definitions (generateInstances sample_env sample_db)) = bd_ID ` set (bt_bill_definitions sample_db)"
    by (metis set_map)
  then have pre: "i \<in> set (bt_bill_instances (sys_db (proc_server running)))" "bi_Paid i"
      "bi_BillDefinitionID i \<in> bd_ID ` set (bt_bill_definitions (sys_db (proc_server p')))"
    unfolding db by (simp_all add: i_def) (simp_all add: sample_db_def)
  have "db_ok (sys_db (proc_server running))" unfolding db by (rule sample_db_ok)
  from paid_stays_paid [OF this run pre] show ?thesis
    using run db(2) by (intro exI [of _ p']) (auto simp: i_def)
qed

end
