(* ===== verification/Programs.thy ===== *)
theory Programs
  imports System
begin

text \<open>
  Handlers and jobs statement by statement. In the other theories a handler is one function
  on the tables; here it is a program that stops at every call of a store method and goes
  on with its answer, so that the calls of two handlers can be interleaved. Each program is shown
  to have the effect of the function when nothing runs in between.
\<close>

section \<open>Programs\<close>

text \<open>
  A program has finished with a value, or sends a statement: the tables decide the
  answer, and with it the rest of the program.
\<close>

datatype 'a prog = Return 'a | Stmt "db \<Rightarrow> 'a prog \<times> db"

primrec run :: "'a prog \<Rightarrow> db \<Rightarrow> 'a \<times> db" where
  "run (Return a) = (\<lambda>s. (a, s))"
| "run (Stmt f) = (\<lambda>s. case map_prod run id (f s) of (g, s') \<Rightarrow> g s')"

primrec then_do :: "'a prog \<Rightarrow> ('a \<Rightarrow> 'b prog) \<Rightarrow> 'b prog" where
  "then_do (Return a) = (\<lambda>k. k a)"
| "then_do (Stmt f) = (\<lambda>k. Stmt (\<lambda>s. case map_prod then_do id (f s) of (g, s') \<Rightarrow> (g k, s')))"

definition call :: "'b dbm \<Rightarrow> ((error, 'b) result \<Rightarrow> 'a prog) \<Rightarrow> 'a prog" where
  "call m k = Stmt (\<lambda>s. case m s of (x, s') \<Rightarrow> (k x, s'))"

lemma run_Stmt: "f s = (p, s') \<Longrightarrow> run (Stmt f) s = run p s'"
  by simp

lemma run_call [simp]: "run (call m k) s = (case m s of (x, s') \<Rightarrow> run (k x) s')"
  by (simp add: call_def split: prod.split)

lemma run_then_do [simp]: "run (then_do p k) s = (case run p s of (a, s') \<Rightarrow> run (k a) s')"
proof (induction p arbitrary: s)
  case (Stmt f)
  obtain p s' where f: "f s = (p, s')" by force
  then have "p \<in> Basic_BNFs.fsts (f s)" by (simp add: Basic_BNFs.fsts.simps)
  from Stmt.IH [OF rangeI this, of s'] show ?case by (simp add: f)
qed simp

lemma then_do_call [simp]: "then_do (call m k) h = call m (\<lambda>x. then_do (k x) h)"
  by (simp add: call_def fun_eq_iff split: prod.split)

section \<open>The jobs\<close>

fun ensure_all_prog :: "tz \<Rightarrow> int \<Rightarrow> time list \<Rightarrow> (error, unit) result prog" where
  "ensure_all_prog tz rid [] = Return (Inr ())"
| "ensure_all_prog tz rid (due # rest) = call (BillInstanceStore_EnsureInstance tz rid due)
     (\<lambda>x. case x of Inl e \<Rightarrow> Return (Inl e) | Inr _ \<Rightarrow> ensure_all_prog tz rid rest)"

definition GenerateInstancesForDefinition_prog ::
    "tz \<Rightarrow> time \<Rightarrow> BillDefinition \<Rightarrow> int \<Rightarrow> (error, unit) result prog" where
  "GenerateInstancesForDefinition_prog tz now def lookaheadDays =
     (let today = time_Date tz (Year tz now) (Month tz now) (Day tz now) 0 0 0 0 (time_loc now);
          until = AddDate tz today 0 0 lookaheadDays
      in ensure_all_prog tz (bd_ID def) (NextDueDates tz def today until))"

fun generate_each_prog :: "tz \<Rightarrow> time \<Rightarrow> int \<Rightarrow> BillDefinition list \<Rightarrow> unit prog" where
  "generate_each_prog tz now days [] = Return ()"
| "generate_each_prog tz now days (def # defs) =
     then_do (GenerateInstancesForDefinition_prog tz now def days) (\<lambda>_. generate_each_prog tz now days defs)"

definition generateInstances_prog :: "env \<Rightarrow> unit prog" where
  "generateInstances_prog E = call BillDefinitionStore_ListAll (\<lambda>x. case x of
     Inl e \<Rightarrow> Return ()
   | Inr defs \<Rightarrow> generate_each_prog (env_tz E) (env_now E) (env_BillInstanceLookaheadDays E) defs)"

fun upsert_accounts_prog :: "sf_Account list \<Rightarrow> unit prog \<Rightarrow> unit prog" where
  "upsert_accounts_prog [] k = k"
| "upsert_accounts_prog (a # as) k =
     call (AccountStore_Upsert (account_row zero_time a)) (\<lambda>_. upsert_accounts_prog as k)"

definition RefreshSimpleFinNow_prog :: "env \<Rightarrow> unit prog" where
  "RefreshSimpleFinNow_prog E = call SimpleFinConnectionStore_Get (\<lambda>x. case x of
     Inl e \<Rightarrow> Return ()
   | Inr conn \<Rightarrow>
       (case Decrypt (env_Encryptor E) (sfc_EncryptedAccessURL conn) of
          Inl e \<Rightarrow> call (SimpleFinConnectionStore_MarkSynced (sfc_ID conn) (Some (Error e))) (\<lambda>_. Return ())
        | Inr accessURL \<Rightarrow>
            (case FetchAccounts False (env_parse E) (env_bridge E) accessURL of
               Inl e \<Rightarrow> call (SimpleFinConnectionStore_MarkSynced (sfc_ID conn) (Some (Error e))) (\<lambda>_. Return ())
             | Inr accounts \<Rightarrow> upsert_accounts_prog accounts
                 (call (SimpleFinConnectionStore_MarkSynced (sfc_ID conn) None) (\<lambda>_. Return ())))))"

definition RefreshVendorConnectionNow_prog :: "env \<Rightarrow> VendorConnection \<Rightarrow> unit prog \<Rightarrow> unit prog" where
  "RefreshVendorConnectionNow_prog E conn k =
     (let failed_sync = (\<lambda>e. call (VendorConnectionStore_MarkSynced (vc_ID conn) '''' (Some (Error e))) (\<lambda>_. k)) in
      case connectors_Get (env_registry E) (vc_Connector conn) of
        Inl e \<Rightarrow> failed_sync e
      | Inr connector \<Rightarrow>
          (case Decrypt (env_Encryptor E) (vc_EncryptedPassword conn) of
             Inl e \<Rightarrow> failed_sync e
           | Inr password \<Rightarrow>
               (case connector \<lparr>cred_Tenant = vc_Tenant conn, cred_Username = vc_Username conn,
                                cred_Password = password\<rparr> of
                  Inl e \<Rightarrow> failed_sync e
                | Inr snapshot \<Rightarrow>
                    let mark = call (VendorConnectionStore_MarkSynced (vc_ID conn)
                          (snap_AccountNumber snapshot) None) (\<lambda>_. k) in
                    call (BillDefinitionStore_UpdateAmount (vc_BillDefinitionID conn) (snap_AmountCents snapshot))
                      (\<lambda>_. if snap_AmountCents snapshot \<le> 0 then mark
                         else call (BillInstanceStore_EnsureInstance (env_tz E)
                           (vc_BillDefinitionID conn) (snap_DueDate snapshot)) (\<lambda>_. mark)))))"

definition RefreshVendorConnectionIfStale_prog :: "env \<Rightarrow> VendorConnection \<Rightarrow> unit prog \<Rightarrow> unit prog" where
  "RefreshVendorConnectionIfStale_prog E conn k =
     (case vc_LastSyncedAt conn of
        Some t \<Rightarrow>
          if time_Since (env_now E) t < minutes (env_VendorRefreshIntervalMinutes E) then k
          else RefreshVendorConnectionNow_prog E conn k
      | None \<Rightarrow> RefreshVendorConnectionNow_prog E conn k)"

fun refresh_each_prog :: "env \<Rightarrow> VendorConnection list \<Rightarrow> unit prog" where
  "refresh_each_prog E [] = Return ()"
| "refresh_each_prog E (conn # conns) = RefreshVendorConnectionIfStale_prog E conn (refresh_each_prog E conns)"

definition refreshVendorConnections_prog :: "env \<Rightarrow> unit prog" where
  "refreshVendorConnections_prog E = call VendorConnectionStore_ListAll (\<lambda>x. case x of
     Inl e \<Rightarrow> Return ()
   | Inr conns \<Rightarrow> refresh_each_prog E conns)"

fun job_prog :: "env \<Rightarrow> job \<Rightarrow> unit prog" where
  "job_prog E GenerateInstances = generateInstances_prog E"
| "job_prog E RefreshSimpleFin = RefreshSimpleFinNow_prog E"
| "job_prog E RefreshVendors = refreshVendorConnections_prog E"

lemma run_ensure_all: "run (ensure_all_prog tz rid ts) s = ensure_all tz rid ts s"
  by (induction ts arbitrary: s) (auto split: prod.split sum.split)

lemma run_GenerateInstancesForDefinition:
  "run (GenerateInstancesForDefinition_prog tz now def days) s = GenerateInstancesForDefinition tz now def days s"
  by (simp add: GenerateInstancesForDefinition_prog_def GenerateInstancesForDefinition_def Let_def run_ensure_all)

lemma run_generate_each: "run (generate_each_prog tz now days defs) s = ((), generate_each tz now days defs s)"
  by (induction defs arbitrary: s) (simp_all add: run_GenerateInstancesForDefinition split_beta)

lemma run_upsert_accounts: "run (upsert_accounts_prog as k) s = run k (upsert_accounts as s)"
  by (induction as arbitrary: s) (simp_all add: split_beta)

lemma run_RefreshVendorConnectionNow:
  "run (RefreshVendorConnectionNow_prog E conn k) s = run k (RefreshVendorConnectionNow E conn s)"
  by (simp add: RefreshVendorConnectionNow_prog_def RefreshVendorConnectionNow_def Let_def split_beta split: sum.split)

lemma run_refresh_each: "run (refresh_each_prog E conns) s = ((), refresh_each E conns s)"
  by (induction conns arbitrary: s)
    (simp_all add: RefreshVendorConnectionIfStale_prog_def RefreshVendorConnectionIfStale_def
      run_RefreshVendorConnectionNow split: option.split)

lemma run_job_prog: "run (job_prog E j) s = ((), run_job E j s)"
  by (cases j)
    (auto simp: generateInstances_prog_def generateInstances_def run_generate_each RefreshSimpleFinNow_prog_def
      RefreshSimpleFinNow_def run_upsert_accounts refreshVendorConnections_prog_def refreshVendorConnections_def
      run_refresh_each split: prod.split sum.split)

section \<open>The handlers\<close>

definition Register_prog :: "AEAD \<Rightarrow> string \<Rightarrow> randomness \<Rightarrow> string \<Rightarrow> request \<Rightarrow> response prog" where
  "Register_prog enc secret rand raw r =
     (let got = req_Header r connectionSecretHeader in
      if ConstantTimeCompare got secret \<noteq> 1 then Return (http_Error ''unauthorized'' 401)
      else let token = hex_EncodeToString raw in
        case Encrypt enc rand token of
          Inl e \<Rightarrow> Return (http_Error e 500)
        | Inr ciphertext \<Rightarrow>
            call (SettingsStore_Set pluginTokenSettingsKey (hex_EncodeToString ciphertext)) (\<lambda>x. case x of
               Inl e \<Rightarrow> Return (http_Error (error_text e) 500)
             | Inr _ \<Rightarrow> Return
                 \<lparr>resp_Status = 200, resp_Header = [(''Content-Type'', ''application/json'')],
                   resp_Body = registerResponse_json token @ newline\<rparr>))"

definition currentToken_prog :: "AEAD \<Rightarrow> (string option \<Rightarrow> 'a prog) \<Rightarrow> 'a prog" where
  "currentToken_prog enc k = call (SettingsStore_Get pluginTokenSettingsKey '''') (\<lambda>x. k (case x of
      Inl e \<Rightarrow> None
    | Inr stored \<Rightarrow>
        if stored = '''' then None
        else case hex_DecodeString stored of
          None \<Rightarrow> None
        | Some ciphertext \<Rightarrow>
            (case Decrypt enc ciphertext of Inl e \<Rightarrow> None | Inr plaintext \<Rightarrow> Some plaintext)))"

definition RequireBearerToken_prog :: "AEAD \<Rightarrow> 'a prog \<Rightarrow> (response \<Rightarrow> 'a) \<Rightarrow> request \<Rightarrow> 'a prog" where
  "RequireBearerToken_prog enc p refuse r = currentToken_prog enc (\<lambda>x. case x of
      None \<Rightarrow> Return (refuse (http_Error ''forbidden'' 403))
    | Some token \<Rightarrow>
        let (got, found) = CutPrefix (req_Header r ''Authorization'') ''Bearer ''
        in if \<not> found \<or> ConstantTimeCompare got token \<noteq> 1
           then Return (refuse (http_Error ''forbidden'' 403)) else p)"

definition View_prog :: "env \<Rightarrow> viewData template \<Rightarrow> response prog" where
  "View_prog E tmpl =
     (let tz = env_tz E; now = env_now E;
          today = time_Date tz (Year tz now) (Month tz now) (Day tz now) 0 0 0 0 (time_loc now);
          until = AddDate tz today 0 0 viewLookaheadDays
      in call (BillInstanceStore_ListUpcomingUnpaid tz until) (\<lambda>x. case x of
        Inl e \<Rightarrow> Return (http_Error (error_text e) 500)
      | Inr instances \<Rightarrow>
          let data = \<lparr>vd_Bills = map (view_bill today) instances, vd_Accounts = [],
                vd_SimpleFinConnected = False\<rparr>
          in call SimpleFinConnectionStore_Get (\<lambda>y. case y of
            Inl e \<Rightarrow> Return (execute_template tmpl data)
          | Inr conn \<Rightarrow> call AccountStore_ListVisible (\<lambda>z. case z of
              Inl e \<Rightarrow> Return (execute_template tmpl (data\<lparr>vd_SimpleFinConnected := True\<rparr>))
            | Inr accounts \<Rightarrow> Return (execute_template tmpl
                (data\<lparr>vd_Accounts := banks_first va_IsCredit (map view_account accounts),
                   vd_SimpleFinConnected := True\<rparr>))))))"

definition Events_prog :: "env \<Rightarrow> request \<Rightarrow> response prog" where
  "Events_prog E r =
     (let tz = env_tz E; bad = http_Error ''from/to query params must be YYYY-MM-DD'' 400 in
      case ParseInLocation tz layout_iso (req_Query r ''from'') UTC of
        Inl e \<Rightarrow> Return bad
      | Inr _ \<Rightarrow>
          (case ParseInLocation tz layout_iso (req_Query r ''to'') UTC of
             Inl e \<Rightarrow> Return bad
           | Inr to \<Rightarrow> call (BillInstanceStore_ListUpcomingUnpaid tz to) (\<lambda>x. case x of
               Inl e \<Rightarrow> Return (http_Error (error_text e) 500)
             | Inr instances \<Rightarrow> Return (events_reply tz (map (bill_event tz) instances)))))"

definition Action_prog :: "request \<Rightarrow> response prog" where
  "Action_prog r =
     (if req_PathValue r ''id'' \<noteq> ''mark_paid'' then Return http_NotFound
      else case (case req_Json r of Inl e \<Rightarrow> Inl e
            | Inr v \<Rightarrow> decode_actionIn v) of
        Inl e \<Rightarrow> Return (http_Error ''invalid request body'' 400)
      | Inr uid \<Rightarrow>
          (case scan_uid uid of
             None \<Rightarrow> Return (http_Error ''unrecognized event uid'' 400)
           | Some instanceID \<Rightarrow> call (BillInstanceStore_MarkPaid instanceID) (\<lambda>x. case x of
               Inl e \<Rightarrow> Return (http_Error (''marking paid: '' @ error_text e) 500)
             | Inr _ \<Rightarrow> Return http_OK)))"

lemma run_Register: "run (Register_prog enc secret rand raw r) s = Register enc secret rand raw r s"
  by (simp add: Register_prog_def Register_def Let_def split: sum.split prod.split)

lemma run_currentToken:
  "run (currentToken_prog enc k) s = (case currentToken enc s of (t, s') \<Rightarrow> run (k t) s')"
  by (simp add: currentToken_prog_def currentToken_def split: sum.split prod.split option.split)

lemma run_View: "run (View_prog E tmpl) s = View E tmpl r s"
  by (simp add: View_prog_def View_def view_data_def Let_def split: sum.split prod.split)

lemma run_Events: "run (Events_prog E r) s = Events E r s"
  by (simp add: Events_prog_def Events_def Let_def split: sum.split prod.split)

lemma run_Action: "run (Action_prog r) s = Action r s"
  by (simp add: Action_prog_def Action_def split: sum.split prod.split option.split)

section \<open>The settings page\<close>

type_synonym action_prog = "request \<Rightarrow> outcome prog"

definition generate_for_prog :: "env \<Rightarrow> BillDefinition \<Rightarrow> string \<Rightarrow> string \<Rightarrow> outcome prog" where
  "generate_for_prog E def fine partial =
     then_do (GenerateInstancesForDefinition_prog (env_tz E) (env_now E) def (env_BillInstanceLookaheadDays E))
       (\<lambda>x. case x of
          Inl e \<Rightarrow> Return (succeeded (''bill '' @ Quote (bd_Name def) @ '' '' @ partial @
            '', but generating upcoming due dates failed: '' @ error_text e))
        | Inr _ \<Rightarrow> Return (succeeded (fine @ '' '' @ Quote (bd_Name def) @ ''.'')))"

definition addBill_prog :: "env \<Rightarrow> action_prog" where
  "addBill_prog E r =
     (case parseBillForm (env_tz E) r of
        Inl e \<Rightarrow> Return (failed e)
      | Inr def \<Rightarrow> call (BillDefinitionStore_Create (env_tz E) def) (\<lambda>x. case x of
          Inl e \<Rightarrow> Return (failed (''creating bill: '' @ error_text e))
        | Inr rid \<Rightarrow> generate_for_prog E (def\<lparr>bd_ID := rid\<rparr>) ''Added'' ''added''))"

definition updateBill_prog :: "env \<Rightarrow> action_prog" where
  "updateBill_prog E r =
     (case Atoi (req_FormValue r ''id'') of
        None \<Rightarrow> Return (failed ''invalid bill id'')
      | Some rid \<Rightarrow> call (BillDefinitionStore_GetByID rid) (\<lambda>x. case x of
          Inl e \<Rightarrow> Return (failed (error_text e))
        | Inr existing \<Rightarrow>
            if bd_BootstrapManaged existing
            then Return (failed (''this bill is managed by bills.json and can'' @ [CHR 0x27] @ ''t be edited here''))
            else case parseBillForm (env_tz E) r of
              Inl e \<Rightarrow> Return (failed e)
            | Inr def \<Rightarrow> call (BillDefinitionStore_Update (env_tz E) rid def) (\<lambda>y. case y of
                Inl e \<Rightarrow> Return (failed (''updating bill: '' @ error_text e))
              | Inr _ \<Rightarrow> generate_for_prog E (def\<lparr>bd_ID := rid\<rparr>) ''Updated'' ''updated'')))"

definition deleteBill_prog :: action_prog where
  "deleteBill_prog r =
     (case Atoi (req_FormValue r ''id'') of
        None \<Rightarrow> Return (failed ''invalid bill id'')
      | Some rid \<Rightarrow> call (BillDefinitionStore_GetByID rid) (\<lambda>x. case x of
          Inl e \<Rightarrow> Return (failed (error_text e))
        | Inr existing \<Rightarrow>
            if bd_BootstrapManaged existing
            then Return (failed (''this bill is managed by bills.json and can'' @ [CHR 0x27] @ ''t be deleted here''))
            else call (BillDefinitionStore_Delete rid) (\<lambda>y. case y of
              Inl e \<Rightarrow> Return (failed (''deleting bill: '' @ error_text e))
            | Inr _ \<Rightarrow> Return (succeeded (''Deleted '' @ Quote (bd_Name existing) @ ''.'')))))"

definition markPaid_prog :: action_prog where
  "markPaid_prog r =
     (case Atoi (req_FormValue r ''id'') of
        None \<Rightarrow> Return (failed ''invalid instance id'')
      | Some rid \<Rightarrow> call (BillInstanceStore_MarkPaid rid) (\<lambda>x. case x of
          Inl e \<Rightarrow> Return (failed (''marking paid: '' @ error_text e))
        | Inr _ \<Rightarrow> Return (succeeded ''Marked paid.'')))"

definition connectSimpleFin_prog :: "env \<Rightarrow> randomness \<Rightarrow> action_prog" where
  "connectSimpleFin_prog E rand r =
     (let token = TrimSpace (req_FormValue r ''setup_token'') in
      if token = '''' then Return (failed ''setup token is required'')
      else case ClaimSetupToken False (env_parse E) (env_bridge E) token of
        Inl e \<Rightarrow> Return (failed (''connecting to SimpleFIN: '' @ e))
      | Inr accessURL \<Rightarrow>
          (case Encrypt (env_Encryptor E) rand accessURL of
             Inl e \<Rightarrow> Return (failed (''encrypting access URL: '' @ e))
           | Inr encrypted \<Rightarrow> call (SimpleFinConnectionStore_Connect encrypted) (\<lambda>x. case x of
               Inl e \<Rightarrow> Return (failed (''saving SimpleFIN connection: '' @ error_text e))
             | Inr _ \<Rightarrow> Return
                 ((succeeded ''SimpleFIN connected - refreshing balances now.'')\<lparr>out_Refresh := True\<rparr>))))"

definition disconnectSimpleFin_prog :: action_prog where
  "disconnectSimpleFin_prog r = call SimpleFinConnectionStore_Disconnect (\<lambda>x. case x of
      Inl e \<Rightarrow> Return (failed (''disconnecting: '' @ error_text e))
    | Inr _ \<Rightarrow> call AccountStore_DeleteAll (\<lambda>y. case y of
        Inl e \<Rightarrow> Return (failed (''removing synced accounts: '' @ error_text e))
      | Inr _ \<Rightarrow> Return (succeeded ''SimpleFIN disconnected.'')))"

definition refreshSimpleFinNow_prog :: action_prog where
  "refreshSimpleFinNow_prog r = call SimpleFinConnectionStore_Get (\<lambda>x. case x of
      Inl e \<Rightarrow> Return (failed ''SimpleFIN is not connected'')
    | Inr _ \<Rightarrow> Return ((succeeded ''Refreshing balances now.'')\<lparr>out_Refresh := True\<rparr>))"

definition toggleAccountVisibility_prog :: action_prog where
  "toggleAccountVisibility_prog r =
     (case Atoi (req_FormValue r ''id'') of
        None \<Rightarrow> Return (failed ''invalid account id'')
      | Some rid \<Rightarrow> call (AccountStore_SetVisible rid (req_FormValue r ''visible'' = ''true'')) (\<lambda>x. case x of
          Inl e \<Rightarrow> Return (failed (''toggling account: '' @ error_text e))
        | Inr _ \<Rightarrow> Return (succeeded '''')))"

definition setAccountDisplayName_prog :: action_prog where
  "setAccountDisplayName_prog r =
     (case Atoi (req_FormValue r ''id'') of
        None \<Rightarrow> Return (failed ''invalid account id'')
      | Some rid \<Rightarrow>
          call (AccountStore_SetDisplayName rid (TrimSpace (req_FormValue r ''display_name''))) (\<lambda>x. case x of
            Inl e \<Rightarrow> Return (failed (''setting display name: '' @ error_text e))
          | Inr _ \<Rightarrow> Return (succeeded '''')))"

definition handleSettingsAction_prog :: "env \<Rightarrow> randomness \<Rightarrow> action_prog" where
  "handleSettingsAction_prog E rand r =
     (case req_ParseForm r of
        Some e \<Rightarrow> Return (failed (''bad form: '' @ e))
      | None \<Rightarrow>
          let a = req_FormValue r ''action'' in
          if a = ''add_bill'' then addBill_prog E r
          else if a = ''update_bill'' then updateBill_prog E r
          else if a = ''delete_bill'' then deleteBill_prog r
          else if a = ''mark_paid'' then markPaid_prog r
          else if a = ''connect_simplefin'' then connectSimpleFin_prog E rand r
          else if a = ''disconnect_simplefin'' then disconnectSimpleFin_prog r
          else if a = ''refresh_simplefin'' then refreshSimpleFinNow_prog r
          else if a = ''toggle_account_visibility'' then toggleAccountVisibility_prog r
          else if a = ''set_account_display_name'' then setAccountDisplayName_prog r
          else Return (failed ''unknown action''))"

definition buildSettingsPageData_prog ::
    "tz \<Rightarrow> time \<Rightarrow> ((error, settingsPageData) result \<Rightarrow> 'a prog) \<Rightarrow> 'a prog" where
  "buildSettingsPageData_prog tz now k =
     (let today = truncate_24h now; windowEnd = AddDate tz today 0 0 90 in
      call (BillInstanceStore_ListAllForSettings tz (AddDate tz today 0 0 (- 30)) windowEnd) (\<lambda>x. case x of
        Inl e \<Rightarrow> k (Inl e)
      | Inr instances \<Rightarrow> call BillDefinitionStore_ListAll (\<lambda>y. case y of
          Inl e \<Rightarrow> k (Inl e)
        | Inr defs \<Rightarrow>
            let data = \<lparr>sp_Instances = map (instance_row defs) instances,
                  sp_Definitions = map (bill_row tz) defs, sp_SimpleFinConnected = False,
                  sp_SimpleFinLastSynced = '''', sp_SimpleFinLastError = '''', sp_Accounts = [],
                  sp_Error = '''', sp_Success = '''', sp_SimpleFinRefreshing = False\<rparr> in
            call SimpleFinConnectionStore_Get (\<lambda>z. case z of
              Inl e \<Rightarrow> k (if e = ErrNoSimpleFinConnection then Inr data else Inl e)
            | Inr conn \<Rightarrow> call AccountStore_ListAll (\<lambda>w. case w of
                Inl e \<Rightarrow> k (Inl e)
              | Inr accounts \<Rightarrow> k (Inr (data\<lparr>sp_SimpleFinConnected := True,
                 sp_SimpleFinLastSynced := (case sfc_LastSyncedAt conn of None \<Rightarrow> '''' | Some t \<Rightarrow> format_datetime tz t),
                 sp_SimpleFinLastError := null_string (sfc_LastSyncError conn),
                 sp_Accounts := banks_first sa_IsCredit (map account_row_of accounts)\<rparr>)))))))"

definition settings_page_prog ::
    "env \<Rightarrow> randomness \<Rightarrow> settingsPageData template \<Rightarrow> request \<Rightarrow> (response \<times> bool) prog" where
  "settings_page_prog E rand tmpl r =
     (let post = (req_Method r = ''POST'') in
      then_do (if post then handleSettingsAction_prog E rand r else Return (succeeded '''')) (\<lambda>out.
        let refreshing = (post \<and> out_Err out = '''' \<and>
            (req_FormValue r ''action'' = ''connect_simplefin'' \<or> req_FormValue r ''action'' = ''refresh_simplefin''))
        in buildSettingsPageData_prog (env_tz E) (env_now E) (\<lambda>x. case x of
          Inl e \<Rightarrow> Return (http_Error (error_text e) 500, out_Refresh out)
        | Inr data \<Rightarrow> Return (execute_template tmpl (data\<lparr>sp_Error := out_Err out, sp_Success := out_Success out,
              sp_SimpleFinRefreshing := refreshing\<rparr>), out_Refresh out))))"

lemma run_generate_for: "run (generate_for_prog E def fine partial) s = generate_for E def fine partial s"
  by (simp add: generate_for_prog_def generate_for_def run_GenerateInstancesForDefinition split: sum.split prod.split)

lemma run_bill_actions:
  "run (addBill_prog E r) s = addBill E r s" "run (updateBill_prog E r) s = updateBill E r s"
  "run (deleteBill_prog r) s = deleteBill r s" "run (markPaid_prog r) s = markPaid r s"
  by (simp_all add: addBill_prog_def addBill_def updateBill_prog_def updateBill_def deleteBill_prog_def
      deleteBill_def markPaid_prog_def markPaid_def run_generate_for split: sum.split prod.split option.split)

lemma run_account_actions:
  "run (connectSimpleFin_prog E rand r) s = connectSimpleFin E rand r s"
  "run (disconnectSimpleFin_prog r) s = disconnectSimpleFin r s"
  "run (refreshSimpleFinNow_prog r) s = refreshSimpleFinNow r s"
  "run (toggleAccountVisibility_prog r) s = toggleAccountVisibility r s"
  "run (setAccountDisplayName_prog r) s = setAccountDisplayName r s"
  by (simp_all add: connectSimpleFin_prog_def connectSimpleFin_def disconnectSimpleFin_prog_def
      disconnectSimpleFin_def refreshSimpleFinNow_prog_def refreshSimpleFinNow_def Let_def
      toggleAccountVisibility_prog_def toggleAccountVisibility_def setAccountDisplayName_prog_def
      setAccountDisplayName_def split: sum.split prod.split option.split)

lemma run_handleSettingsAction: "run (handleSettingsAction_prog E rand r) s = handleSettingsAction E rand r s"
  by (simp add: handleSettingsAction_prog_def handleSettingsAction_def Let_def run_bill_actions
      run_account_actions split: option.split)

lemma run_buildSettingsPageData:
  "run (buildSettingsPageData_prog tz now k) s =
    (case buildSettingsPageData tz now s of (x, s') \<Rightarrow> run (k x) s')"
  by (simp add: buildSettingsPageData_prog_def buildSettingsPageData_def andThen_def Let_def
      split: sum.split prod.split)

lemma run_settings_page: "run (settings_page_prog E rand tmpl r) s = settings_page E rand tmpl r s"
  by (simp add: settings_page_prog_def settings_page_def Let_def run_handleSettingsAction
      run_buildSettingsPageData split: sum.split prod.split)

section \<open>The routes\<close>

definition answered :: "response prog \<Rightarrow> (response \<times> bool) prog" where
  "answered p = then_do p (\<lambda>resp. Return (resp, False))"

definition guarded :: "app \<Rightarrow> (response \<times> bool) prog \<Rightarrow> request \<Rightarrow> (response \<times> bool) prog" where
  "guarded A p r = RequireBearerToken_prog (app_Encryptor A) p (\<lambda>resp. (resp, False)) r"

text \<open>
  A request ends in its response and in whether it started a background refresh. The cache
  of the release checks is read under its own lock and is an argument.
\<close>

fun handle_prog :: "app \<Rightarrow> env \<Rightarrow> randomness \<Rightarrow> string \<Rightarrow> Cache \<Rightarrow> route \<Rightarrow> request \<Rightarrow> (response \<times> bool) prog" where
  "handle_prog A E rand raw c Route_Register r =
     answered (Register_prog (app_Encryptor A) (cfg_PluginConnectionSecret (app_Cfg A)) rand raw r)"
| "handle_prog A E rand raw c Route_Manifest r =
     guarded A (answered (Return (json_reply (manifest_json (the_manifest (app_Version A)))))) r"
| "handle_prog A E rand raw c Route_View r = guarded A (answered (View_prog E (app_ViewTemplate A))) r"
| "handle_prog A E rand raw c Route_Events r = guarded A (answered (Events_prog E r)) r"
| "handle_prog A E rand raw c Route_Actions r = guarded A (answered (Action_prog r)) r"
| "handle_prog A E rand raw c Route_Settings r =
     guarded A (settings_page_prog E rand (app_SettingsTemplate A) r) r"
| "handle_prog A E rand raw c Route_Healthz r = Return (http_OK, False)"
| "handle_prog A E rand raw c Route_Version r =
     Return (json_reply (versionResponse_json (version_response (app_Version A) c)), False)"

definition serve_prog :: "app \<Rightarrow> env \<Rightarrow> randomness \<Rightarrow> string \<Rightarrow> Cache \<Rightarrow> request \<Rightarrow> (response \<times> bool) prog" where
  "serve_prog A E rand raw c r =
     (if req_Method r \<noteq> ''CONNECT'' \<and> cleanPath (req_Path r) \<noteq> req_Path r then Return (app_redirect A r, False)
      else case find_route (req_Method r) (req_Path r) of
        None \<Rightarrow> Return (let ms = allowed_methods (req_Path r) in
            if ms \<noteq> [] then method_not_allowed ms else http_NotFound, False)
      | Some rt \<Rightarrow> handle_prog A E rand raw c rt r)"

lemma run_answered [simp]: "run (answered p) s = (case run p s of (resp, s') \<Rightarrow> ((resp, False), s'))"
  by (simp add: answered_def)

lemma RequireBearerToken_cases:
  obtains (refused) s' where "\<And>h. RequireBearerToken enc h r s = (http_Error ''forbidden'' 403, s')"
      "\<And>(p :: (response \<times> bool) prog) ref. run (RequireBearerToken_prog enc p ref r) s = (ref (http_Error ''forbidden'' 403), s')"
  | (passed) s' where "\<And>h. RequireBearerToken enc h r s = h r s'"
      "\<And>(p :: (response \<times> bool) prog) ref. run (RequireBearerToken_prog enc p ref r) s = run p s'"
proof -
  obtain t s' where t: "currentToken enc s = (t, s')" by force
  obtain got found where c: "CutPrefix (req_Header r ''Authorization'') ''Bearer '' = (got, found)" by force
  show thesis
  proof (cases "\<exists>tok. t = Some tok \<and> found \<and> ConstantTimeCompare got tok = 1")
    case True
    then show ?thesis
      by (intro passed [of s']) (auto simp: RequireBearerToken_prog_def RequireBearerToken_def run_currentToken t c)
  next
    case False
    then show ?thesis
      by (intro refused [of s'])
        (auto simp: RequireBearerToken_prog_def RequireBearerToken_def run_currentToken t c split: option.split)
  qed
qed

lemma run_guarded:
  assumes "\<And>s. run p s = h r s"
  shows "run (guarded A (answered p) r) s =
    (case RequireBearerToken (app_Encryptor A) h r s of (resp, s') \<Rightarrow> ((resp, False), s'))"
  by (cases rule: RequireBearerToken_cases [of "app_Encryptor A" r s])
    (simp_all add: guarded_def assms split: prod.split)

lemmas guarded_routes =
  run_guarded [where h = "Manifest v" and p = "Return (json_reply (manifest_json (the_manifest v)))" for v]
  run_guarded [where h = "View E tmpl" and p = "View_prog E tmpl" for E tmpl, OF run_View]
  run_guarded [where h = "Events E" and p = "Events_prog E r" and r = r for E r, OF run_Events]
  run_guarded [where h = Action and p = "Action_prog r" and r = r for r, OF run_Action]

lemma run_handle_prog:
  "handle A E rand raw rt r s = (case run (handle_prog A E rand raw (sys_Releases s) rt r) (sys_db s) of
     ((resp, refresh), d) \<Rightarrow>
       (resp, s\<lparr>sys_db := d, sys_refreshes := sys_refreshes s + (if refresh then 1 else 0)\<rparr>))"
proof (cases rt)
  case Route_Settings
  show ?thesis
    by (cases rule: RequireBearerToken_cases [of "app_Encryptor A" r "sys_db s"])
      (simp_all add: Route_Settings on_db_def guarded_def run_settings_page starts_refresh_def SettingsPage_def
        Healthz_def http_Error_def http_OK_def split_beta)
qed (simp_all add: on_db_def run_Register guarded_routes Manifest_def GetVersion_def Healthz_def split: prod.split)

lemma serve_prog_run:
  "serve A E rand raw r s = (case run (serve_prog A E rand raw (sys_Releases s) r) (sys_db s) of
     ((resp, refresh), d) \<Rightarrow>
       (resp, s\<lparr>sys_db := d, sys_refreshes := sys_refreshes s + (if refresh then 1 else 0)\<rparr>))"
  by (simp add: serve_def serve_prog_def run_handle_prog split: option.split)

text \<open>
  A handler or job taken apart into its single statements is the same handler or job: the
  program of a request, run without interruption, gives the response, the tables and the
  background refresh that the server gives, and the program of a job leaves the tables the job leaves.
\<close>

theorem programs_run_alone:
  "serve A E rand raw r s = (case run (serve_prog A E rand raw (sys_Releases s) r) (sys_db s) of
     ((resp, refresh), d) \<Rightarrow>
       (resp, s\<lparr>sys_db := d, sys_refreshes := sys_refreshes s + (if refresh then 1 else 0)\<rparr>)) \<and>
   run (job_prog E j) d = ((), run_job E j d)"
  by (simp add: serve_prog_run [of A E rand raw r s] run_job_prog)

end
