(* ===== verification/Threads.thy ===== *)
theory Threads
  imports Programs
begin

text \<open>
  Requests and jobs that run at the same moment: a pool of programs whose store calls
  interleave one by one. What a program has read may be out of date when it acts on
  it; the theory shows what holds nevertheless, and one place where it does not.
\<close>

section \<open>What a program may send\<close>

text \<open>
  The changes a call of the running process makes to the tables. Two of them need
  knowledge: only a bill that is not managed by \<^verbatim>\<open>bills.json\<close> is changed or deleted.
\<close>

inductive statement :: "db \<Rightarrow> db \<Rightarrow> bool" where
  read: "statement s (s\<lparr>db_faults := fs\<rparr>)"
| create: "\<not> bd_BootstrapManaged b \<Longrightarrow> statement s (snd (BillDefinitionStore_Create tz b s))"
| update: "unmanaged rid s \<Longrightarrow> statement s (snd (BillDefinitionStore_Update tz rid b s))"
| delete: "unmanaged rid s \<Longrightarrow> statement s (snd (BillDefinitionStore_Delete rid s))"
| amount: "statement s (snd (BillDefinitionStore_UpdateAmount rid cents s))"
| ensure: "statement s (snd (BillInstanceStore_EnsureInstance tz rid t s))"
| paid: "statement s (snd (BillInstanceStore_MarkPaid rid s))"
| upsert: "statement s (snd (AccountStore_Upsert a s))"
| visible: "statement s (snd (AccountStore_SetVisible rid v s))"
| display_name: "statement s (snd (AccountStore_SetDisplayName rid n s))"
| delete_all: "statement s (snd (AccountStore_DeleteAll s))"
| connect: "statement s (snd (SimpleFinConnectionStore_Connect url s))"
| disconnect: "statement s (snd (SimpleFinConnectionStore_Disconnect s))"
| sf_synced: "statement s (snd (SimpleFinConnectionStore_MarkSynced rid e s))"
| vendor_synced: "statement s (snd (VendorConnectionStore_MarkSynced rid acct e s))"
| set_setting: "statement s (snd (SettingsStore_Set k v s))"

lemma read_faults: "(\<And>s. snd (stmt s) = s) \<Longrightarrow> \<exists>fs. snd (sql stmt s) = s\<lparr>db_faults := fs\<rparr>"
  by (rule sql_cases [of stmt s]) auto

lemma statement_reads:
  "statement s (snd (BillDefinitionStore_ListAll s))"
  "statement s (snd (BillDefinitionStore_GetByID rid s))"
  "statement s (snd (BillInstanceStore_ListUpcomingUnpaid tz t s))"
  "statement s (snd (BillInstanceStore_ListAllForSettings tz t u s))"
  "statement s (snd (AccountStore_ListAll s))"
  "statement s (snd (AccountStore_ListVisible s))"
  "statement s (snd (SimpleFinConnectionStore_Get s))"
  "statement s (snd (SettingsStore_Get k d s))"
  "statement s (snd (VendorConnectionStore_ListAll s))"
proof -
  have "statement s (snd (sql stmt s))" if "\<And>s. snd (stmt s) = s" for stmt :: "'a dbm"
    using read_faults [OF that, of s] statement.read by metis
  note step = this
  show "statement s (snd (BillDefinitionStore_ListAll s))"
    unfolding BillDefinitionStore_ListAll_def by (rule step) simp
  show "statement s (snd (BillDefinitionStore_GetByID rid s))"
    unfolding BillDefinitionStore_GetByID_def by (rule step) simp
  show "statement s (snd (BillInstanceStore_ListUpcomingUnpaid tz t s))"
    unfolding BillInstanceStore_ListUpcomingUnpaid_def by (rule step) simp
  show "statement s (snd (BillInstanceStore_ListAllForSettings tz t u s))"
    unfolding BillInstanceStore_ListAllForSettings_def by (rule step) simp
  show "statement s (snd (AccountStore_ListAll s))"
    unfolding AccountStore_ListAll_def by (rule step) simp
  show "statement s (snd (AccountStore_ListVisible s))"
    unfolding AccountStore_ListVisible_def by (rule step) simp
  show "statement s (snd (SimpleFinConnectionStore_Get s))"
    unfolding SimpleFinConnectionStore_Get_def by (rule step) (simp split: list.split)
  show "statement s (snd (SettingsStore_Get k d s))"
    unfolding SettingsStore_Get_def by (rule step) (simp add: storing_def split: option.split)
  show "statement s (snd (VendorConnectionStore_ListAll s))"
    unfolding VendorConnectionStore_ListAll_def by (rule step) simp
qed

text \<open>Knowledge that a bill is not managed stays true whatever the others send: only bills that
  are not managed are created, the flag never changes, and what is gone cannot be managed.\<close>

definition rely :: "db \<Rightarrow> db \<Rightarrow> bool" where
  "rely s s' \<longleftrightarrow> (\<forall>rid. unmanaged rid s \<longrightarrow> unmanaged rid s')"

lemma rely_refl [simp]: "rely s s"
  by (simp add: rely_def)

lemma rely_trans [trans]: "rely s s' \<Longrightarrow> rely s' s'' \<Longrightarrow> rely s s''"
  by (simp add: rely_def)

definition flags :: "db \<Rightarrow> (int \<times> bool) list" where
  "flags s = map (\<lambda>b. (bd_ID b, bd_BootstrapManaged b)) (bt_bill_definitions s)"

lemma rely_flags: "set (flags s') \<subseteq> set (flags s) \<union> UNIV \<times> {False} \<Longrightarrow> rely s s'"
proof -
  assume sub: "set (flags s') \<subseteq> set (flags s) \<union> UNIV \<times> {False}"
  have "unmanaged rid u \<longleftrightarrow> (rid, True) \<notin> set (flags u)" for rid u
    by (auto simp: unmanaged_def flags_def image_iff)
  with sub show ?thesis unfolding rely_def by blast
qed

lemma flags_kept:
  "flags (snd (BillDefinitionStore_Update tz rid b s)) = flags s"
  "flags (snd (BillDefinitionStore_UpdateAmount rid cents s)) = flags s"
  "flags (snd (BillInstanceStore_EnsureInstance tz rid t s)) = flags s"
  "flags (snd (BillInstanceStore_MarkPaid rid s)) = flags s"
  "flags (snd (AccountStore_Upsert a s)) = flags s"
  "flags (snd (AccountStore_SetVisible rid v s)) = flags s"
  "flags (snd (AccountStore_SetDisplayName rid n s)) = flags s"
  "flags (snd (AccountStore_DeleteAll s)) = flags s"
  "flags (snd (SimpleFinConnectionStore_Disconnect s)) = flags s"
  "flags (snd (SimpleFinConnectionStore_MarkSynced rid e s)) = flags s"
  "flags (snd (VendorConnectionStore_MarkSynced rid acct e s)) = flags s"
  "flags (snd (SettingsStore_Set k x s)) = flags s"
  unfolding BillDefinitionStore_Update_def BillDefinitionStore_UpdateAmount_def
    BillInstanceStore_EnsureInstance_def BillInstanceStore_MarkPaid_def AccountStore_Upsert_def
    AccountStore_SetVisible_def AccountStore_SetDisplayName_def AccountStore_DeleteAll_def
    SimpleFinConnectionStore_Disconnect_def SimpleFinConnectionStore_MarkSynced_def
    VendorConnectionStore_MarkSynced_def SettingsStore_Set_def
  by (rule sql_keeps; simp add: statement_defs flags_def map_update_where split: list.split)+

lemma flags_Connect: "flags (snd (SimpleFinConnectionStore_Connect url s)) = flags s"
  by (simp add: flags_def Connect_kept)

lemma flags_Create:
  "\<not> bd_BootstrapManaged b \<Longrightarrow> set (flags (snd (BillDefinitionStore_Create tz b s))) \<subseteq> set (flags s) \<union> UNIV \<times> {False}"
  by (auto simp: BillDefinitionStore_Create_def sql_def statement_defs flags_def split: list.split option.split)

lemma flags_Delete: "set (flags (snd (BillDefinitionStore_Delete rid s))) \<subseteq> set (flags s)"
  by (auto simp: BillDefinitionStore_Delete_def sql_def statement_defs flags_def split: list.split option.split)

lemma statement_rely: "statement s s' \<Longrightarrow> rely s s'"
proof (induction rule: statement.induct)
  case (create b s tz)
  then show ?case by (intro rely_flags flags_Create)
next
  case (delete rid s)
  then show ?case using flags_Delete by (intro rely_flags) blast
qed (rule rely_flags, simp add: flags_kept flags_Connect | simp add: rely_def unmanaged_def)+

section \<open>Programs that behave whatever happens in between\<close>

text \<open>
  Before each of its statements the others may have changed the tables in any way that
  keeps the schema and the knowledge above; the statement is then one of those
  allowed in the tables it meets, and so are all that follow, also when the program was told that the
  statement failed.
\<close>

primrec proper :: "'a prog \<Rightarrow> db \<Rightarrow> bool" where
  "proper (Return a) = (\<lambda>s. True)"
| "proper (Stmt f) = (\<lambda>s. \<forall>s'. db_ok s' \<longrightarrow> rely s s' \<longrightarrow>
     statement s' (snd (f s')) \<and> fst (map_prod proper id (f s')) (snd (f s')) \<and>
     (\<forall>e. fst (map_prod proper id (f (s'\<lparr>db_faults := [Some e]\<rparr>))) s'))"

lemma proper_rely: "proper p s \<Longrightarrow> rely s s' \<Longrightarrow> proper p s'"
  by (cases p) (auto dest: rely_trans)

lemma proper_call:
  assumes "\<And>s'. db_ok s' \<Longrightarrow> rely s s' \<Longrightarrow> statement s' (snd (m s'))"
    and "\<And>s' x t. db_ok s' \<Longrightarrow> rely s s' \<Longrightarrow> m s' = (x, t) \<Longrightarrow> proper (k x) t"
    and "\<And>s' e. db_ok s' \<Longrightarrow> rely s s' \<Longrightarrow> proper (k (fst (m (s'\<lparr>db_faults := [Some e]\<rparr>)))) s'"
  shows "proper (call m k) s"
  using assms(1,3) assms(2) [OF _ _ surjective_pairing] by (simp add: call_def split_beta)

lemma proper_send:
  "(\<And>s. statement s (snd (m s))) \<Longrightarrow> (\<And>x t. proper (k x) t) \<Longrightarrow> proper (call m k) s"
  by (rule proper_call)

lemma proper_then_do: "proper p s \<Longrightarrow> (\<And>a t. proper (k a) t) \<Longrightarrow> proper (then_do p k) s"
proof (induction p arbitrary: s)
  case (Stmt f)
  have on: "proper (then_do (fst (f u)) k) t" if "proper (fst (f u)) t" for u t
    by (rule Stmt.IH [OF rangeI [of f u] _ that Stmt.prems(2)])
      (metis Basic_BNFs.fsts.intros surjective_pairing)
  have "proper (then_do (fst (f s')) k) (snd (f s'))"
    "proper (then_do (fst (f (s'\<lparr>db_faults := [Some e]\<rparr>))) k) s'" if "db_ok s'" "rely s s'" for s' e
    using Stmt.prems(1) that by (auto intro!: on)
  then show ?case using Stmt.prems(1) by (simp add: split_beta)
qed simp

lemmas proper_sends = proper_send [OF amount] proper_send [OF ensure] proper_send [OF paid] proper_send [OF upsert]
  proper_send [OF visible] proper_send [OF display_name] proper_send [OF delete_all] proper_send [OF connect]
  proper_send [OF disconnect] proper_send [OF sf_synced] proper_send [OF vendor_synced] proper_send [OF set_setting]
  statement_reads [THEN proper_send]

lemma proper_ensure_all: "proper (ensure_all_prog tz rid ts) s"
  by (induction ts arbitrary: s) (auto intro!: proper_sends split: sum.split)

lemma proper_GenerateInstancesForDefinition: "proper (GenerateInstancesForDefinition_prog tz now def days) s"
  by (simp add: GenerateInstancesForDefinition_prog_def Let_def proper_ensure_all)

lemma proper_generate_each: "proper (generate_each_prog tz now days defs) s"
  by (induction defs arbitrary: s) (auto intro!: proper_then_do proper_GenerateInstancesForDefinition)

lemma proper_upsert_accounts: "(\<And>s. proper k s) \<Longrightarrow> proper (upsert_accounts_prog as k) s"
  by (induction as arbitrary: s) (auto intro!: proper_sends)

lemma proper_RefreshVendorConnectionNow: "(\<And>s. proper k s) \<Longrightarrow> proper (RefreshVendorConnectionNow_prog E conn k) s"
  by (auto simp: RefreshVendorConnectionNow_prog_def Let_def intro!: proper_sends split: sum.split)

lemma proper_refresh_each: "proper (refresh_each_prog E conns) s"
  by (induction conns arbitrary: s)
    (auto simp: RefreshVendorConnectionIfStale_prog_def intro!: proper_RefreshVendorConnectionNow split: option.split)

lemma proper_job: "proper (job_prog E j) s"
  by (cases j)
    (auto simp: generateInstances_prog_def RefreshSimpleFinNow_prog_def refreshVendorConnections_prog_def
      intro!: proper_sends proper_generate_each proper_upsert_accounts proper_refresh_each split: sum.split)

text \<open>The two actions that check the flag of a bill first.\<close>

lemma read_unmanaged:
  assumes "db_ok s" "BillDefinitionStore_GetByID rid s = (Inr b, t)" "\<not> bd_BootstrapManaged b"
  shows "unmanaged rid t"
  using settings_schema.read_bill(2) [OF assms(1,2) refl assms(3)] .

lemma rely_unmanaged: "rely s s' \<Longrightarrow> unmanaged rid s \<Longrightarrow> unmanaged rid s'"
  by (simp add: rely_def)

lemma proper_generate_for: "proper (generate_for_prog E def fine partial) s"
  by (auto simp: generate_for_prog_def intro!: proper_then_do proper_GenerateInstancesForDefinition split: sum.split)

lemma proper_addBill: "proper (addBill_prog E r) s"
proof (cases "parseBillForm (env_tz E) r")
  case (Inr b)
  have "\<not> bd_BootstrapManaged b" by (rule parseBillForm_unmanaged [OF Inr])
  then show ?thesis
    by (auto simp: addBill_prog_def Inr intro!: proper_call create proper_generate_for split: sum.split)
qed (simp add: addBill_prog_def)

lemma proper_read_bill:
  assumes "\<And>e t. proper (k (Inl e)) t"
    and "\<And>b t. (\<not> bd_BootstrapManaged b \<Longrightarrow> unmanaged rid t) \<Longrightarrow> proper (k (Inr b)) t"
  shows "proper (call (BillDefinitionStore_GetByID rid) k) s"
proof (rule proper_call [OF statement_reads(2)])
  fix s' x t assume s': "db_ok s'" "BillDefinitionStore_GetByID rid s' = (x, t)"
  show "proper (k x) t"
  proof (cases x)
    case (Inr b)
    show ?thesis unfolding Inr by (rule assms(2)) (rule read_unmanaged [OF s' [unfolded Inr]])
  qed (simp add: assms(1))
qed (simp add: BillDefinitionStore_GetByID_def sql_def assms(1))

lemma proper_change:
  assumes "unmanaged rid s"
  shows "(\<And>x t. proper (k x) t) \<Longrightarrow> proper (call (BillDefinitionStore_Update tz rid b) k) s"
    and "(\<And>x t. proper (k x) t) \<Longrightarrow> proper (call (BillDefinitionStore_Delete rid) k) s"
  by (rule proper_call, rule update delete, erule rely_unmanaged, rule assms, blast, blast)+

lemma proper_updateBill: "proper (updateBill_prog E r) s"
  by (auto simp: updateBill_prog_def intro!: proper_read_bill proper_change(1) proper_generate_for
      split: option.split sum.split)

lemma proper_deleteBill: "proper (deleteBill_prog r) s"
  by (auto simp: deleteBill_prog_def intro!: proper_read_bill proper_change(2) split: option.split sum.split)

lemma proper_other_actions:
  "proper (markPaid_prog r) s" "proper (connectSimpleFin_prog E rand r) s" "proper (disconnectSimpleFin_prog r) s"
  "proper (refreshSimpleFinNow_prog r) s" "proper (toggleAccountVisibility_prog r) s"
  "proper (setAccountDisplayName_prog r) s"
  by (auto simp: markPaid_prog_def connectSimpleFin_prog_def disconnectSimpleFin_prog_def
      refreshSimpleFinNow_prog_def toggleAccountVisibility_prog_def setAccountDisplayName_prog_def Let_def
      intro!: proper_sends split: option.split sum.split)

lemma proper_handleSettingsAction: "proper (handleSettingsAction_prog E rand r) s"
  by (simp add: handleSettingsAction_prog_def Let_def proper_addBill proper_updateBill proper_deleteBill
      proper_other_actions split: option.split)

lemma proper_buildSettingsPageData: "(\<And>x t. proper (k x) t) \<Longrightarrow> proper (buildSettingsPageData_prog tz now k) s"
  by (auto simp: buildSettingsPageData_prog_def Let_def intro!: proper_sends split: sum.split)

lemma proper_settings_page: "proper (settings_page_prog E rand tmpl r) s"
  unfolding settings_page_prog_def Let_def
  by (auto intro!: proper_then_do proper_handleSettingsAction proper_buildSettingsPageData split: sum.split)

lemma proper_guarded: "(\<And>s. proper p s) \<Longrightarrow> proper (guarded A p r) s"
  by (auto simp: guarded_def RequireBearerToken_prog_def currentToken_prog_def Let_def
      intro!: proper_sends split: option.split prod.split)

lemma proper_answered: "proper p s \<Longrightarrow> proper (answered p) s"
  by (simp add: answered_def proper_then_do)

lemma proper_pages: "proper (View_prog E tmpl) s" "proper (Events_prog E r) s" "proper (Action_prog r) s"
  "proper (Register_prog enc secret rand raw r) s"
  by (auto simp: View_prog_def Events_prog_def Action_prog_def Register_prog_def Let_def
      intro!: proper_sends split: option.split sum.split)

lemma proper_serve: "proper (serve_prog A E rand raw c r) s"
proof -
  have "proper (handle_prog A E rand raw c rt r) s" for rt
    by (cases rt) (auto intro!: proper_guarded proper_answered proper_pages proper_settings_page)
  then show ?thesis by (simp add: serve_prog_def split: option.split)
qed

section \<open>The pool\<close>

text \<open>
  Any number of requests and jobs are under way; a thread ends in a response, and in whether
  it started a refresh, or in nothing. Jobs may start at any moment, which covers the loops of the
  scheduler and the refreshes that settings actions start. The moment, that is clock
  and answers of the other servers, is fixed when a thread starts. A statement may also run although
  its thread is told that it failed, when the connection to the database breaks (or its context is
  cancelled) before the answer arrives.
\<close>

type_synonym thread = "(response \<times> bool) option prog"

record pool =
  pool_db :: db
  pool_threads :: "thread list"

definition request_thread :: "(response \<times> bool) prog \<Rightarrow> thread" where
  "request_thread p = then_do p (\<lambda>x. Return (Some x))"

definition job_thread :: "unit prog \<Rightarrow> thread" where
  "job_thread p = then_do p (\<lambda>_. Return None)"

inductive act :: "app \<Rightarrow> pool \<Rightarrow> pool \<Rightarrow> bool" for A where
  arrive: "moment A E \<Longrightarrow>
    act A P (P\<lparr>pool_threads := pool_threads P @ [request_thread (serve_prog A E rand raw c r)]\<rparr>)"
| start: "moment A E \<Longrightarrow> act A P (P\<lparr>pool_threads := pool_threads P @ [job_thread (job_prog E j)]\<rparr>)"
| send: "i < length (pool_threads P) \<Longrightarrow> pool_threads P ! i = Stmt f \<Longrightarrow> f (pool_db P) = (p, d) \<Longrightarrow>
    act A P (P\<lparr>pool_db := d, pool_threads := (pool_threads P)[i := p]\<rparr>)"
| lost: "i < length (pool_threads P) \<Longrightarrow> pool_threads P ! i = Stmt f \<Longrightarrow>
    f ((pool_db P)\<lparr>db_faults := [Some e]\<rparr>) = (p, t) \<Longrightarrow> d = snd (f (pool_db P)) \<Longrightarrow>
    act A P (P\<lparr>pool_db := d, pool_threads := (pool_threads P)[i := p]\<rparr>)"
| passing: "act A P (P\<lparr>pool_db := (pool_db P)\<lparr>db_now := t, db_faults := fs\<rparr>\<rparr>)"

text \<open>
  A restart drops what was under way, and the bills are reconciled before the server and the
  scheduler run. A process that dies in the middle of that leaves what it leaves
  when all later statements fail.
\<close>

definition started :: "env \<Rightarrow> os \<Rightarrow> (nat \<Rightarrow> randomness) \<Rightarrow> (string \<Rightarrow> (string, json) result) \<Rightarrow>
    (string, string) result \<Rightarrow> db \<Rightarrow> pool" where
  "started E os rands syntax file d =
     \<lparr>pool_db = bootstrapBills E os rands syntax file d, pool_threads = []\<rparr>"

inductive turn :: "app \<Rightarrow> pool \<Rightarrow> pool \<Rightarrow> bool" for A where
  acts: "act A P P' \<Longrightarrow> turn A P P'"
| restarts: "moment A E \<Longrightarrow> turn A P (started E os rands syntax file (pool_db P))"

definition pool_reachable :: "app \<Rightarrow> pool \<Rightarrow> bool" where
  "pool_reachable A P \<longleftrightarrow> (\<exists>E os rands syntax file now faults msg collate. moment A E \<and>
     (turn A)\<^sup>*\<^sup>* (started E os rands syntax file (empty_db now faults msg collate)) P)"


definition pool_ok :: "pool \<Rightarrow> bool" where
  "pool_ok P \<longleftrightarrow> db_ok (pool_db P) \<and> (\<forall>p \<in> set (pool_threads P). proper p (pool_db P))"

lemma proper_threads: "proper (request_thread (serve_prog A E rand raw c r)) s" "proper (job_thread (job_prog E j)) s"
  by (auto simp: request_thread_def job_thread_def intro!: proper_then_do proper_serve proper_job)

text \<open>A statement that is sent, with what becomes of its thread.\<close>

lemma sent:
  assumes "pool_ok P" "i < length (pool_threads P)" "pool_threads P ! i = Stmt f" "f (pool_db P) = (p, d)"
  shows "statement (pool_db P) d" and "proper p d"
    and "f ((pool_db P)\<lparr>db_faults := [Some e]\<rparr>) = (q, t) \<Longrightarrow> proper q d"
proof -
  have "proper (Stmt f) (pool_db P)" "db_ok (pool_db P)"
    using assms(1-3) nth_mem [OF assms(2)] by (auto simp: pool_ok_def)
  then have all: "statement (pool_db P) (snd (f (pool_db P)))"
      "proper (fst (f (pool_db P))) (snd (f (pool_db P)))"
      "proper (fst (f ((pool_db P)\<lparr>db_faults := [Some e]\<rparr>))) (pool_db P)" by auto
  then show "statement (pool_db P) d" "proper p d" using assms(4) by simp_all
  then show "f ((pool_db P)\<lparr>db_faults := [Some e]\<rparr>) = (q, t) \<Longrightarrow> proper q d"
    using all(3) proper_rely [OF _ statement_rely] by simp
qed

section \<open>What survives any interleaving\<close>

locale threads_invariant = settings_invariant I + job: job_invariant I for I :: "db \<Rightarrow> bool" +
  assumes set_setting: "preserves I (SettingsStore_Set k v)"
    and clock: "I (s\<lparr>db_now := t\<rparr>) = I s"
begin

lemma statement_keeps: "statement s t \<Longrightarrow> I s \<Longrightarrow> I t"
proof (induction rule: statement.induct)
  case (read s fs)
  then show ?case using fault_free by (simp add: fault_free_def)
qed (simp_all add: update delete create [THEN preservesD] ensure [THEN preservesD] paid [THEN preservesD]
    connect [THEN preservesD] disconnect [THEN preservesD] delete_all [THEN preservesD]
    visible [THEN preservesD] display_name [THEN preservesD] job.amount [THEN preservesD]
    job.upsert [THEN preservesD] job.sf_synced [THEN preservesD] job.vendor_synced [THEN preservesD]
    set_setting [THEN preservesD])

lemma passing_keeps: "I s \<Longrightarrow> I (s\<lparr>db_now := t, db_faults := fs\<rparr>)"
proof -
  assume "I s"
  then have "I (s\<lparr>db_now := t\<rparr>)" by (simp add: clock)
  then have "I (s\<lparr>db_now := t\<rparr>\<lparr>db_faults := fs\<rparr>)" using fault_free by (simp add: fault_free_def)
  then show ?thesis by simp
qed

lemma act_keeps:
  assumes "act A P P'" "pool_ok P" "I (pool_db P)" shows "I (pool_db P')"
  using assms(1)
proof (cases rule: act.cases)
  case (send i f p d)
  then have "statement (pool_db P) d" using sent(1) assms(2) by blast
  then show ?thesis using statement_keeps assms(3) send by simp
next
  case (lost i f e p t d)
  then have "statement (pool_db P) d" using sent(1) [OF assms(2) _ _ surjective_pairing] by blast
  then show ?thesis using statement_keeps assms(3) lost(1) by simp
qed (simp_all add: assms(3) passing_keeps)

end

sublocale system_invariant \<subseteq> threads_invariant
  by unfold_locales (rule set_setting clock)+

lemma proper_passing: "proper p s \<Longrightarrow> proper p (s\<lparr>db_now := t, db_faults := fs\<rparr>)"
  by (erule proper_rely) (simp add: rely_def unmanaged_def)

lemma act_ok: assumes "act A P P'" "pool_ok P" shows "pool_ok P'"
proof -
  have ok: "db_ok (pool_db P')"
    using system_schema.act_keeps [OF assms] assms(2) by (simp add: pool_ok_def)
  have old: "proper p (pool_db P)" if "p \<in> set (pool_threads P)" for p
    using assms(2) that by (simp add: pool_ok_def)
  have one: "\<forall>q \<in> set ((pool_threads P)[i := p]). proper q d" if "statement (pool_db P) d" "proper p d" for i p d
    using old proper_rely [OF _ statement_rely [OF that(1)]] that(2) set_update_subset_insert by fast
  show ?thesis
    using assms(1)
  proof (cases rule: act.cases)
    case (send i f p d)
    have "statement (pool_db P) d" "proper p d" using sent(1,2) [OF assms(2) send(2-4)] .
    then show ?thesis using ok send(1) one by (simp add: pool_ok_def)
  next
    case (lost i f e p t d)
    then have "f (pool_db P) = (fst (f (pool_db P)), d)" by simp
    note d = sent [OF assms(2) lost(2,3) this]
    have "proper p d" by (rule d(3) [OF lost(4)])
    then show ?thesis using ok lost(1) one [OF d(1)] by (simp add: pool_ok_def)
  qed (use ok old in \<open>auto simp: pool_ok_def proper_threads proper_passing\<close>)
qed

lemma acts_ok: "(act A)\<^sup>*\<^sup>* P P' \<Longrightarrow> pool_ok P \<Longrightarrow> pool_ok P'"
  by (induction rule: rtranclp_induct) (simp_all add: act_ok)

lemma started_ok: "db_ok d \<Longrightarrow> pool_ok (started E os rands syntax file d)"
  by (simp add: started_def pool_ok_def bootstrap_schema.bootstrapBills_keeps)

lemma turn_ok: "turn A P P' \<Longrightarrow> pool_ok P \<Longrightarrow> pool_ok P'"
  by (cases rule: turn.cases) (auto simp: act_ok intro!: started_ok, simp add: pool_ok_def)

lemma turns_ok: "(turn A)\<^sup>*\<^sup>* P P' \<Longrightarrow> pool_ok P \<Longrightarrow> pool_ok P'"
  by (induction rule: rtranclp_induct) (simp_all add: turn_ok)

context threads_invariant
begin

lemma acts_keep: "(act A)\<^sup>*\<^sup>* P P' \<Longrightarrow> pool_ok P \<Longrightarrow> I (pool_db P) \<Longrightarrow> I (pool_db P')"
  by (induction rule: rtranclp_induct) (simp_all add: acts_ok act_keeps)

end

context system_invariant
begin

lemma turn_keeps: "turn A P P' \<Longrightarrow> pool_ok P \<Longrightarrow> I (pool_db P) \<Longrightarrow> I (pool_db P')"
  by (cases rule: turn.cases) (auto simp: act_keeps started_def start.bootstrapBills_keeps)

lemma turns_keep: "(turn A)\<^sup>*\<^sup>* P P' \<Longrightarrow> pool_ok P \<Longrightarrow> I (pool_db P) \<Longrightarrow> I (pool_db P')"
  by (induction rule: rtranclp_induct) (simp_all add: turns_ok turn_keeps)

end

lemma pool_reachable_ok: "pool_reachable A P \<Longrightarrow> pool_ok P"
  using turns_ok started_ok [OF empty_db_ok] unfolding pool_reachable_def by blast

section \<open>Undisturbed threads\<close>

text \<open>A thread that nobody disturbs sends its statements one after the other.\<close>

lemma thread_runs:
  assumes "i < length ts" "ts ! i = p" "run p d = (a, t)"
  shows "(act A)\<^sup>*\<^sup>* \<lparr>pool_db = d, pool_threads = ts\<rparr> \<lparr>pool_db = t, pool_threads = ts[i := Return a]\<rparr>"
  using assms
proof (induction p arbitrary: d ts)
  case (Return b)
  then have "ts[i := Return a] = ts" "t = d" by (metis list_update_id run.simps(1) prod.inject)+
  then show ?case by simp
next
  case (Stmt f)
  obtain p d' where f: "f d = (p, d')" by force
  then have "p \<in> Basic_BNFs.fsts (f d)" by (simp add: Basic_BNFs.fsts.simps)
  from Stmt.IH [OF rangeI this, of "ts[i := p]" d'] Stmt.prems f
  have "(act A)\<^sup>*\<^sup>* \<lparr>pool_db = d', pool_threads = ts[i := p]\<rparr> \<lparr>pool_db = t, pool_threads = ts[i := Return a]\<rparr>"
    by simp
  moreover have "act A \<lparr>pool_db = d, pool_threads = ts\<rparr> \<lparr>pool_db = d', pool_threads = ts[i := p]\<rparr>"
    using act.send [of i "\<lparr>pool_db = d, pool_threads = ts\<rparr>" f p d' A] Stmt.prems(1,2) f by simp
  ultimately show ?case by (rule converse_rtranclp_into_rtranclp [rotated])
qed

lemma acts_turns: "(act A)\<^sup>*\<^sup>* P P' \<Longrightarrow> (turn A)\<^sup>*\<^sup>* P P'"
  by (rule mono_rtranclp [rule_format]) (rule turn.acts)

lemma new_thread_acts:
  assumes "act A \<lparr>pool_db = d, pool_threads = ts\<rparr> \<lparr>pool_db = d, pool_threads = ts @ [p]\<rparr>" "run p d = (a, t)"
  shows "(act A)\<^sup>*\<^sup>* \<lparr>pool_db = d, pool_threads = ts\<rparr> \<lparr>pool_db = t, pool_threads = ts @ [Return a]\<rparr>"
  using converse_rtranclp_into_rtranclp [OF assms(1) thread_runs [of "length ts" "ts @ [p]" p d a t A]] assms(2)
  by simp

lemmas new_thread_runs = new_thread_acts [THEN acts_turns]

lemma job_thread_runs: "run (job_thread (job_prog E j)) d = (None, run_job E j d)"
  unfolding job_thread_def run_then_do run_job_prog by simp

lemma request_thread_runs: "run p d = (x, t) \<Longrightarrow> run (request_thread p) d = (Some x, t)"
  by (simp add: request_thread_def)

lemma job_turns: "moment A E \<Longrightarrow>
    (turn A)\<^sup>*\<^sup>* \<lparr>pool_db = d, pool_threads = ts\<rparr> \<lparr>pool_db = run_job E j d, pool_threads = ts @ [Return None]\<rparr>"
  using act.start [of A E "\<lparr>pool_db = d, pool_threads = ts\<rparr>" j]
  by (intro new_thread_runs [OF _ job_thread_runs]) simp

lemma work_turns: "moment A E \<Longrightarrow> \<exists>ts'. (turn A)\<^sup>*\<^sup>* \<lparr>pool_db = sys_db s, pool_threads = ts\<rparr>
    \<lparr>pool_db = sys_db (gr_work (Run A b) E get s), pool_threads = ts'\<rparr>"
  using job_turns [of A E "sys_db s" ts GenerateInstances] job_turns [of A E "sys_db s" ts RefreshSimpleFin]
    job_turns [of A E "sys_db s" ts RefreshVendors]
  by (cases b) (auto simp: goroutine_defs)

lemma serve_turns: "moment A E \<Longrightarrow> \<exists>ts'. (turn A)\<^sup>*\<^sup>* \<lparr>pool_db = sys_db s, pool_threads = ts\<rparr>
    \<lparr>pool_db = sys_db (snd (serve A E rand raw r s)), pool_threads = ts'\<rparr>"
proof -
  assume m: "moment A E"
  obtain x d where x: "run (serve_prog A E rand raw (sys_Releases s) r) (sys_db s) = (x, d)" by (metis surj_pair)
  have d: "sys_db (snd (serve A E rand raw r s)) = d"
    by (simp add: serve_prog_run x split: prod.split)
  show ?thesis unfolding d
    using act.arrive [OF m, of "\<lparr>pool_db = sys_db s, pool_threads = ts\<rparr>" rand raw "sys_Releases s" r]
    by - (rule exI, rule new_thread_runs [rotated], rule request_thread_runs, rule x, simp)
qed

lemma step_turns: "step A p p' \<Longrightarrow> \<exists>ts'. (turn A)\<^sup>*\<^sup>* \<lparr>pool_db = sys_db (proc_server p), pool_threads = ts\<rparr>
    \<lparr>pool_db = sys_db (proc_server p'), pool_threads = ts'\<rparr>"
proof (induction rule: step.induct)
  case (environment p fs t)
  show ?case
    using turn.acts [OF act.passing [of A "\<lparr>pool_db = sys_db (proc_server p), pool_threads = ts\<rparr>" fs t]]
    by (intro exI) (auto intro: r_into_rtranclp)
next
  case (restart E p os rands js raw)
  then show ?case
    using turn.restarts [of A E "\<lparr>pool_db = sys_db (proc_server p), pool_threads = ts\<rparr>" os rands js raw]
    by (intro exI) (auto simp: boot_def started_def intro: r_into_rtranclp)
next
  case (refresh p E n)
  then show ?case using job_turns [of A E _ ts RefreshSimpleFin] by auto
qed (use serve_turns work_turns in \<open>auto simp: first_run_def Let_def\<close>)

text \<open>
  The interleaved process can do whatever the process of whole steps does: every
  sequence of requests, jobs, changes of the environment and restarts that run one at a time
  is one of its interleavings, from any threads already under way, with the same tables at its end.
\<close>

theorem interleavings_include_steps:
  assumes "(step A)\<^sup>*\<^sup>* p p'"
  shows "\<exists>ts'. (turn A)\<^sup>*\<^sup>* \<lparr>pool_db = sys_db (proc_server p), pool_threads = ts\<rparr>
    \<lparr>pool_db = sys_db (proc_server p'), pool_threads = ts'\<rparr>"
  using assms
proof (induction rule: rtranclp_induct)
  case (step q p')
  then show ?case using step_turns by (metis (no_types, lifting) rtranclp_trans)
qed blast

text \<open>A generator tick of the process, in one piece, is also made of single statements.\<close>

theorem interleavings_include_steps_witness:
  "\<exists>p' ts'. (step hasty_app)\<^sup>*\<^sup>* running p' \<and> sys_db (proc_server p') = generateInstances sample_env sample_db \<and>
     (turn hasty_app)\<^sup>*\<^sup>* \<lparr>pool_db = sample_db, pool_threads = []\<rparr>
       \<lparr>pool_db = generateInstances sample_env sample_db, pool_threads = ts'\<rparr>"
proof -
  define p' where "p' = running\<lparr>proc_server :=
    gr_work (Run hasty_app InstanceGeneration) sample_env (\<lambda>_. Inl ''offline'') (proc_server running)\<rparr>"
  have "step hasty_app running p'"
    unfolding p'_def by (rule tick [OF _ hasty_moment]) (simp_all add: running_def)
  then have steps: "(step hasty_app)\<^sup>*\<^sup>* running p'" by blast
  have db: "sys_db (proc_server running) = sample_db" by (simp add: running_def sample_server_def)
  have db': "sys_db (proc_server p') = generateInstances sample_env sample_db"
    by (simp add: p'_def goroutine_defs db)
  show ?thesis
    using interleavings_include_steps [OF steps, of "[]", unfolded db db'] steps db' by blast
qed

section \<open>Payments, with everything at once\<close>



section \<open>Managed bills, with everything at once\<close>

text \<open>The bills of \<^verbatim>\<open>bills.json\<close> without their account references and amounts.\<close>

definition managed_rules :: "db \<Rightarrow> BillDefinition list" where
  "managed_rules s = map (\<lambda>b. b\<lparr>bd_AmountCents := 0\<rparr>) (managed s)"

definition managed_kept_since :: "BillDefinition list \<Rightarrow> (int \<times> int \<times> date) set \<Rightarrow> db \<Rightarrow> bool" where
  "managed_kept_since M H s \<longleftrightarrow> db_ok s \<and> managed_rules s = M \<and> H \<subseteq> managed_history s"

lemma managed_kept_since_step:
  assumes "managed_kept_since M H s" "db_ok t" "managed_rules t = managed_rules s"
    and "managed_history s \<subseteq> managed_history t"
  shows "managed_kept_since M H t"
  using assms by (auto simp: managed_kept_since_def)

lemma managed_kept_since_settings:
  "(\<And>M A. preserves (\<lambda>s. db_ok s \<and> managed s = M \<and> A \<subseteq> managed_history s) m) \<Longrightarrow>
    preserves (managed_kept_since M H) m"
proof (rule preservesI)
  fix s assume m: "\<And>M A. preserves (\<lambda>s. db_ok s \<and> managed s = M \<and> A \<subseteq> managed_history s) m"
    and s: "managed_kept_since M H s"
  have "db_ok (snd (m s)) \<and> managed (snd (m s)) = managed s \<and> managed_history s \<subseteq> managed_history (snd (m s))"
    using preservesD [OF m, of s "managed s" "managed_history s"] s by (simp add: managed_kept_since_def)
  then show "managed_kept_since M H (snd (m s))"
    using s by (intro managed_kept_since_step [OF s]) (simp_all add: managed_rules_def)
qed

lemma managed_rules_ids: "bd_ID ` set (managed_rules s) = bd_ID ` set (managed s)"
  by (simp add: managed_rules_def image_image)

lemma managed_kept_since_jobs:
  assumes "preserves db_ok m" "\<And>s. managed_rules (snd (m s)) = managed_rules s"
    and "\<And>s. bt_bill_instances (snd (m s)) = bt_bill_instances s"
  shows "preserves (managed_kept_since M H) m"
proof (rule preservesI)
  fix s assume s: "managed_kept_since M H s"
  have "bd_ID ` set (managed (snd (m s))) = bd_ID ` set (managed s)"
    using assms(2) [of s] managed_rules_ids by metis
  then have "managed_history (snd (m s)) = managed_history s"
    using assms(3) [of s] by (simp add: managed_history_def)
  then show "managed_kept_since M H (snd (m s))"
    using s preservesD [OF assms(1)] assms(2) by (intro managed_kept_since_step [OF s]) (auto simp: managed_kept_since_def)
qed

lemma managed_amount: "map (\<lambda>b. b\<lparr>bd_SimpleFinAccountID := None, bd_AmountCents := 0\<rparr>) (filter bd_BootstrapManaged
    (update_where p (\<lambda>b. b\<lparr>bd_AmountCents := c\<rparr>) rows)) =
  map (\<lambda>b. b\<lparr>bd_SimpleFinAccountID := None, bd_AmountCents := 0\<rparr>) (filter bd_BootstrapManaged rows)"
  by (induction rows) (auto simp: update_where_def)

lemma managed_rules_kept:
  "managed_rules (snd (BillDefinitionStore_UpdateAmount rid cents s)) = managed_rules s"
  "managed_rules (snd (AccountStore_Upsert a s)) = managed_rules s"
  "managed_rules (snd (SimpleFinConnectionStore_MarkSynced rid e s)) = managed_rules s"
  "managed_rules (snd (VendorConnectionStore_MarkSynced rid acct e s)) = managed_rules s"
  "managed_rules (snd (SettingsStore_Set k x s)) = managed_rules s"
  unfolding BillDefinitionStore_UpdateAmount_def AccountStore_Upsert_def SimpleFinConnectionStore_MarkSynced_def
    VendorConnectionStore_MarkSynced_def SettingsStore_Set_def
  by (rule sql_keeps; simp add: statement_defs managed_rules_def managed_def comp_def managed_amount split: list.split)+

lemma set_instances_kept: "bt_bill_instances (snd (SettingsStore_Set k x s)) = bt_bill_instances s"
  by (simp add: SettingsStore_Set_def sql_def storing_def split: list.split option.split)

lemma managed_kept_since_db_ok: "managed_kept_since M H s \<Longrightarrow> db_ok s"
  by (simp add: managed_kept_since_def)

lemma managed_kept_since_faults: "fault_free (managed_kept_since M H)"
  using fault_free_db_ok
  by (simp add: fault_free_def managed_kept_since_def managed_rules_def managed_history_def managed_def)

lemma managed_kept_since_changes:
  assumes "managed_kept_since M H s" "unmanaged rid s"
  shows "managed_kept_since M H (snd (BillDefinitionStore_Update tz rid b s))"
    and "managed_kept_since M H (snd (BillDefinitionStore_Delete rid s))"
proof -
  have s: "db_ok s \<and> managed s = managed s \<and> managed_history s \<subseteq> managed_history s"
    using managed_kept_since_db_ok [OF assms(1)] by simp
  note keep = managed_kept_since_step [OF assms(1)]
  show "managed_kept_since M H (snd (BillDefinitionStore_Update tz rid b s))"
    using settings_managed.update [OF s assms(2), of tz b] by (intro keep) (simp_all add: managed_rules_def)
  show "managed_kept_since M H (snd (BillDefinitionStore_Delete rid s))"
    using settings_managed.delete [OF s assms(2)] by (intro keep) (simp_all add: managed_rules_def)
qed

lemmas managed_reads = preserves_job_reads [OF managed_kept_since_faults]

interpretation managed_threads: threads_invariant "managed_kept_since M H" for M H
proof (unfold_locales, goal_cases)
  case 1
  then show ?case by (rule managed_kept_since_faults)
next
  case 2
  then show ?case by (blast intro: settings_schema.ids managed_kept_since_db_ok)
next
  case 3
  then show ?case by (intro managed_kept_since_settings settings_managed.create)
next
  case 4
  then show ?case by (rule managed_kept_since_changes)
next
  case 5
  then show ?case by (rule managed_kept_since_changes)
next
  case 21
  then show ?case
    by (simp add: managed_kept_since_def db_ok_clock managed_rules_def managed_def managed_history_def)
qed (rule managed_reads managed_kept_since_settings settings_managed.ensure settings_managed.paid settings_managed.connect
    settings_managed.disconnect settings_managed.delete_all settings_managed.visible settings_managed.display_name
    managed_kept_since_jobs definition_updates_ok connection_store_ok Settings_Set_ok managed_rules_kept
    bt_bill_instances_kept set_instances_kept)+

text \<open>
  C5. A bill that comes from \<^verbatim>\<open>bills.json\<close> is safe from the settings page even when everything
  happens at once: the page reads the bill, checks its flag and only then changes it, and
  other requests and jobs may send any statements in between; still, until the next
  restart, name, schedule and link of every managed bill stay as they are and none of
  their recorded occurrences disappears.
\<close>

theorem interleaved_managed:
  assumes "pool_ok P" "(act A)\<^sup>*\<^sup>* P P'"
  shows "managed_rules (pool_db P') = managed_rules (pool_db P) \<and>
    managed_history (pool_db P) \<subseteq> managed_history (pool_db P')"
proof -
  have "managed_kept_since (managed_rules (pool_db P)) (managed_history (pool_db P)) (pool_db P)"
    using assms(1) by (simp add: managed_kept_since_def pool_ok_def)
  from managed_threads.acts_keep [OF assms(2,1) this] show ?thesis by (simp add: managed_kept_since_def)
qed

theorem interleaved_managed_witness:
  "\<exists>P'. (act hasty_app)\<^sup>*\<^sup>* \<lparr>pool_db = managed_db, pool_threads = []\<rparr> P' \<and> length (pool_threads P') = 1 \<and>
     managed_rules (pool_db P') = managed_rules managed_db \<and> map bd_ID (managed_rules managed_db) = [1]"
proof -
  define P :: pool where "P = \<lparr>pool_db = managed_db, pool_threads = []\<rparr>"
  define P' where "P' = \<lparr>pool_db = run_job sample_env GenerateInstances managed_db, pool_threads = [Return None :: thread]\<rparr>"
  have "act hasty_app \<lparr>pool_db = managed_db, pool_threads = []\<rparr>
      \<lparr>pool_db = managed_db, pool_threads = [] @ [job_thread (job_prog sample_env GenerateInstances)]\<rparr>"
    using act.start [OF hasty_moment, of P GenerateInstances] by (simp add: P_def)
  from new_thread_acts [OF this job_thread_runs] have run: "(act hasty_app)\<^sup>*\<^sup>* P P'"
    by (simp add: P_def P'_def)
  have "pool_ok P" by (simp add: P_def pool_ok_def managed_db_ok)
  from interleaved_managed [OF this run] run show ?thesis
    unfolding P_def by (intro exI [of _ P']) (simp add: P'_def managed_rules_def managed_def managed_db_def day31_bill_def)
qed

section \<open>A refresh outlives the connection\<close>

text \<open>The accounts whose texts the table takes; the others are skipped with a message in the log.\<close>

definition storable_account :: "sf_Account \<Rightarrow> bool" where
  "storable_account a \<longleftrightarrow> list_all text_ok (account_texts (account_row zero_time a))"

lemma upsert_accounts_run:
  assumes "db_faults s = []" "1 \<le> seq_accounts s" "seq_accounts s + int (length as) \<le> 2 ^ 31"
    and "\<forall>r \<in> set (bt_accounts s). acc_Visible r"
  shows "\<exists>rows. bt_accounts (upsert_accounts as s) = rows \<and> db_faults (upsert_accounts as s) = [] \<and>
    bt_simplefin_connection (upsert_accounts as s) = bt_simplefin_connection s \<and>
    (\<forall>r \<in> set rows. acc_Visible r) \<and>
    acc_SimpleFinID ` set rows = acc_SimpleFinID ` set (bt_accounts s) \<union> sf_ID ` {a \<in> set as. storable_account a}"
  using assms
proof (induction as arbitrary: s)
  case (Cons a as)
  define s1 where "s1 = snd (AccountStore_Upsert (account_row zero_time a) s)"
  have n: "int4 (seq_accounts s)" using Cons.prems(2,3) by (simp add: int4_def)
  have s1: "db_faults s1 = [] \<and> bt_simplefin_connection s1 = bt_simplefin_connection s \<and>
      (seq_accounts s1 = seq_accounts s \<or> seq_accounts s1 = seq_accounts s + 1) \<and>
      (\<forall>r \<in> set (bt_accounts s1). acc_Visible r) \<and>
      acc_SimpleFinID ` set (bt_accounts s1) =
        (if storable_account a then {sf_ID a} else {}) \<union> acc_SimpleFinID ` set (bt_accounts s)"
  proof (cases "storable_account a")
    case True
    then have up: "storing (account_texts (account_row zero_time a)) stmt = stmt" for stmt :: "unit dbm"
      by (intro storing_up) (simp add: storable_account_def)
    have "acc_SimpleFinID (account_row zero_time a) = sf_ID a" by (simp add: account_row_def)
    with True show ?thesis
      using n Cons.prems(1,4)
      by (auto simp: s1_def AccountStore_Upsert_def sql_up up Let_def image_update_where)
        (auto simp: set_update_where)
  next
    case False
    then have "s1 = s"
      using Cons.prems(1) by (simp add: s1_def AccountStore_Upsert_def sql_up storing_def storable_account_def)
    with False Cons.prems show ?thesis by simp
  qed
  then have "1 \<le> seq_accounts s1" "seq_accounts s1 + int (length as) \<le> 2 ^ 31"
    using Cons.prems(2,3) by auto
  then show ?case using Cons.IH [of s1] s1 by (auto simp: s1_def [symmetric])
qed simp

text \<open>
  C13. Disconnecting SimpleFIN can leave balances behind. Run one after the other, in either
  order, a refresh and a disconnect end without a connection and without a single account;
  but when the connection is removed while the refresh waits for the bridge, the accounts
  the bridge then delivers are stored all the same (those whose texts Postgres stores), visible on the
  kiosk as soon as another connection exists, and nothing but a further disconnect removes them.
\<close>

theorem refresh_outlives_disconnect:
  assumes "db_faults s = []" "bt_simplefin_connection s = [conn]"
    and "Decrypt (env_Encryptor E) (sfc_EncryptedAccessURL conn) = Inr url"
    and "FetchAccounts False (env_parse E) (env_bridge E) url = Inr accounts"
    and "1 \<le> seq_accounts s" "seq_accounts s + int (length accounts) \<le> 2 ^ 31"
  shows "(\<exists>P'. (act A)\<^sup>*\<^sup>* \<lparr>pool_db = s, pool_threads =
        [job_thread (RefreshSimpleFinNow_prog E), then_do (disconnectSimpleFin_prog r) (\<lambda>_. Return None)]\<rparr> P' \<and>
      (\<forall>p \<in> set (pool_threads P'). p = Return None) \<and> bt_simplefin_connection (pool_db P') = [] \<and>
      acc_SimpleFinID ` set (bt_accounts (pool_db P')) = sf_ID ` {a \<in> set accounts. storable_account a} \<and>
      (\<forall>a \<in> set (bt_accounts (pool_db P')). acc_Visible a)) \<and>
    bt_accounts (snd (disconnectSimpleFin r (RefreshSimpleFinNow E s))) = [] \<and>
    bt_accounts (RefreshSimpleFinNow E (snd (disconnectSimpleFin r s))) = []"
proof -
  have disc: "snd (disconnectSimpleFin r u) = u\<lparr>bt_simplefin_connection := [], bt_accounts := [],
      bt_bill_definitions := update_where (\<lambda>b. bd_SimpleFinAccountID b \<noteq> None)
        (\<lambda>b. b\<lparr>bd_SimpleFinAccountID := None\<rparr>) (bt_bill_definitions u)\<rparr>" if "db_faults u = []" for u
    using that by (simp add: disconnectSimpleFin_def SimpleFinConnectionStore_Disconnect_def
        AccountStore_DeleteAll_def sql_up)
  define d where "d = snd (disconnectSimpleFin r s)"
  have d: "db_faults d = []" "bt_simplefin_connection d = []" "bt_accounts d = []" "seq_accounts d = seq_accounts s"
    using assms(1) by (simp_all add: d_def disc)
  let ?mark = "\<lambda>u. snd (SimpleFinConnectionStore_MarkSynced (sfc_ID conn) None u)"
  define rest :: thread where "rest = then_do (upsert_accounts_prog accounts
      (call (SimpleFinConnectionStore_MarkSynced (sfc_ID conn) None) (\<lambda>_. Return ()))) (\<lambda>_. Return None)"
  define off :: thread where "off = then_do (disconnectSimpleFin_prog r) (\<lambda>_. Return None)"
  define e where "e = ?mark (upsert_accounts accounts d)"
  have runs: "run off s = (None, d)" "run rest d = (None, e)"
    by (simp_all add: off_def rest_def d_def e_def run_account_actions run_upsert_accounts split_beta)
  obtain f where f: "job_thread (RefreshSimpleFinNow_prog E) = Stmt f" "f s = (rest, s)"
    using assms(1-4)
    by (simp add: job_thread_def RefreshSimpleFinNow_prog_def call_def SimpleFinConnectionStore_Get_def sql_up rest_def)
  have "act A \<lparr>pool_db = s, pool_threads = [Stmt f, off]\<rparr> \<lparr>pool_db = s, pool_threads = [rest, off]\<rparr>"
    using act.send [of 0 "\<lparr>pool_db = s, pool_threads = [Stmt f, off]\<rparr>" f rest s A] f(2) by simp
  moreover have "(act A)\<^sup>*\<^sup>* \<lparr>pool_db = s, pool_threads = [rest, off]\<rparr> \<lparr>pool_db = d, pool_threads = [rest, Return None]\<rparr>"
    using thread_runs [of 1 "[rest, off]" off s None d A] runs(1) by simp
  moreover have "(act A)\<^sup>*\<^sup>* \<lparr>pool_db = d, pool_threads = [rest, Return None]\<rparr>
      \<lparr>pool_db = e, pool_threads = [Return None, Return None]\<rparr>"
    using thread_runs [of 0 "[rest, Return None]" rest d None e A] runs(2) by simp
  ultimately have path: "(act A)\<^sup>*\<^sup>* \<lparr>pool_db = s, pool_threads = [job_thread (RefreshSimpleFinNow_prog E), off]\<rparr>
      \<lparr>pool_db = e, pool_threads = [Return None, Return None]\<rparr>"
    unfolding f(1) by (meson converse_rtranclp_into_rtranclp rtranclp_trans)
  have mark: "bt_accounts (?mark u) = bt_accounts u" "db_faults u = [] \<Longrightarrow> db_faults (?mark u) = []"
      "bt_simplefin_connection u = [] \<Longrightarrow> bt_simplefin_connection (?mark u) = []" for u
    by (auto simp: SimpleFinConnectionStore_MarkSynced_def sql_def statement_defs update_where_def
        split: list.split option.split)
  have left: "bt_simplefin_connection e = []" "acc_SimpleFinID ` set (bt_accounts e) = sf_ID ` {a \<in> set accounts. storable_account a}"
      "\<forall>a \<in> set (bt_accounts e). acc_Visible a"
    using upsert_accounts_run [of d accounts] d assms(5,6) by (auto simp: e_def mark)
  have "db_faults (RefreshSimpleFinNow E s) = []" using no_faults.RefreshSimpleFinNow_keeps [OF assms(1)] .
  then have "bt_accounts (snd (disconnectSimpleFin r (RefreshSimpleFinNow E s))) = []" by (simp add: disc)
  moreover have "RefreshSimpleFinNow E d = d"
    using d by (simp add: RefreshSimpleFinNow_def SimpleFinConnectionStore_Get_def sql_up)
  ultimately show ?thesis
    using path left d(3) unfolding off_def d_def [symmetric]
    by (intro conjI exI [of _ "\<lparr>pool_db = e, pool_threads = [Return None, Return None :: thread]\<rparr>"]) simp_all
qed

definition bridge_env :: env where
  "bridge_env = sample_env\<lparr>env_parse := (\<lambda>s. Inr \<lparr>url_Scheme = ''https'', url_User = None, url_with_query = (\<lambda>k v. s), url_NewRequest = None\<rparr>),
     env_bridge := (\<lambda>q. Inr \<lparr>bp_StatusCode = 200, bp_Body = Inr '''', bp_Json = Inr (JObj [(''accounts'', JArr
       [JObj [(''id'', JStr ''ACT-1''), (''balance'', JStr ''5'')]])])\<rparr>)\<rparr>"

definition connected_db :: db where
  "connected_db = sample_db\<lparr>bt_simplefin_connection := [\<lparr>sfc_ID = 1,
     sfc_EncryptedAccessURL = replicate 12 (CHR ''k'') @ ''https://b'' @ replicate 12 (CHR ''k''),
     sfc_ConnectedAt = sample_time 0, sfc_LastSyncedAt = None, sfc_LastSyncError = None\<rparr>], seq_simplefin := 2\<rparr>"

theorem refresh_outlives_disconnect_witness:
  "\<exists>P'. (act hasty_app)\<^sup>*\<^sup>* \<lparr>pool_db = connected_db, pool_threads =
       [job_thread (RefreshSimpleFinNow_prog bridge_env),
        then_do (disconnectSimpleFin_prog (delete_request '''')) (\<lambda>_. Return None)]\<rparr> P' \<and>
     bt_simplefin_connection (pool_db P') = [] \<and> acc_SimpleFinID ` set (bt_accounts (pool_db P')) = {''ACT-1''}"
proof -
  let ?texts = "\<lambda>a. (sf_ID a, sf_Name a, sf_Currency a, sf_OrgName a)"
  obtain accounts where f: "FetchAccounts False (env_parse bridge_env) (env_bridge bridge_env) ''https://b'' = Inr accounts"
      "map ?texts accounts = [(''ACT-1'', '''', '''', '''')]"
  proof -
    have "(case FetchAccounts False (env_parse bridge_env) (env_bridge bridge_env) ''https://b'' of
        Inl e \<Rightarrow> False | Inr as \<Rightarrow> map ?texts as = [(''ACT-1'', '''', '''', '''')])"
      by code_simp
    then show thesis using that by (auto split: sum.splits)
  qed
  then obtain a where a: "accounts = [a]" "?texts a = (''ACT-1'', '''', '''', '''')"
    by (cases accounts) auto
  then have "storable_account a"
    by (simp add: storable_account_def account_texts_def account_row_def nullableString_def)
  with a have ids: "sf_ID ` {a \<in> set accounts. storable_account a} = {''ACT-1''}" "length accounts = 1"
    by auto
  have dec: "Decrypt (env_Encryptor bridge_env) (sfc_EncryptedAccessURL (hd (bt_simplefin_connection connected_db))) = Inr ''https://b''"
    by code_simp
  have up: "db_faults connected_db = []" "bt_simplefin_connection connected_db = [hd (bt_simplefin_connection connected_db)]"
      "1 \<le> seq_accounts connected_db" "seq_accounts connected_db + int (length accounts) \<le> 2 ^ 31"
    by (simp_all add: connected_db_def sample_db_def empty_db_def ids)
  show ?thesis
    using refresh_outlives_disconnect [OF up(1,2) dec f(1) up(3,4), of hasty_app "delete_request ''''"] ids(1) by auto
qed

end
