(* ===== verification/Shutdown.thy ===== *)
theory Shutdown
  imports Threads "HOL-Library.Multiset"
begin

text \<open>
  The life of the process around the pool of threads (\<^verbatim>\<open>cmd/server/main.go\<close>, from
  \<^verbatim>\<open>ListenAndServe\<close> to the return of \<^verbatim>\<open>main\<close>): connections are accepted, requests arrive on them,
  and on a signal the context of the scheduler is cancelled, the listener closes and
  \<^verbatim>\<open>Shutdown\<close> waits for the requests under way.
\<close>

section \<open>The phases of the process\<close>

text \<open>
  A thread belongs to a request, to a loop of the scheduler, whose context is the cancelled one,
  or to a refresh a settings action started, whose context is its own.
\<close>

datatype owner = ByRequest | ByScheduler | ByRefresh

datatype phase = Serving | Draining | Exited | Failed string

record lifecycle =
  life_db :: db
  life_threads :: "(owner \<times> thread) list"
  life_conns :: nat
  life_phase :: phase

definition alive :: "lifecycle \<Rightarrow> bool" where
  "alive r \<longleftrightarrow> life_phase r = Serving \<or> life_phase r = Draining"

definition returned :: "'a prog \<Rightarrow> bool" where
  "returned p = (case p of Return _ \<Rightarrow> True | Stmt _ \<Rightarrow> False)"

text \<open>Some request has no answer yet.\<close>

definition waiting :: "lifecycle \<Rightarrow> bool" where
  "waiting r \<longleftrightarrow> (\<exists>(k, p) \<in> set (life_threads r). k = ByRequest \<and> \<not> returned p)"

definition add_thread :: "owner \<Rightarrow> thread \<Rightarrow> lifecycle \<Rightarrow> lifecycle" where
  "add_thread k p r = r\<lparr>life_threads := life_threads r @ [(k, p)]\<rparr>"

definition context_canceled :: string where
  "context_canceled = ''context canceled''"

text \<open>
  A statement that a cancelled context is given fails before it reaches the server: it meets a
  failure, and the script of the others is left as it is. The statement that is in flight when the
  signal comes is another matter: the server may have run it although the job is told that it was
  cancelled. That one is a \<^verbatim>\<open>lost\<close> step below, taken as the last one before the signal.
\<close>

definition send_cancelled :: "(db \<Rightarrow> thread \<times> db) \<Rightarrow> db \<Rightarrow> thread \<times> db" where
  "send_cancelled f s =
     (case f (s\<lparr>db_faults := [Some context_canceled]\<rparr>) of (p, s') \<Rightarrow> (p, s'\<lparr>db_faults := db_faults s\<rparr>))"

text \<open>
  \<^verbatim>\<open>life_conns\<close> counts connections that are open without a request under way. While the server
  drains, no connection is accepted, those without a request may be closed, and a request that still comes in on one
  is served. A job of the scheduler may start even then, because a \<^verbatim>\<open>select\<close> with two ready cases takes
  either. The answer to a statement that has run may be lost. The process fails when the listener does, or when a loop
  of the scheduler makes a ticker of an interval that is not positive.
\<close>

inductive life :: "app \<Rightarrow> lifecycle \<Rightarrow> lifecycle \<Rightarrow> bool" for A where
  connected: "life_phase r = Serving \<Longrightarrow> life A r (r\<lparr>life_conns := Suc (life_conns r)\<rparr>)"
| closed: "alive r \<Longrightarrow> life_conns r = Suc n \<Longrightarrow> life A r (r\<lparr>life_conns := n\<rparr>)"
| arrived: "alive r \<Longrightarrow> life_conns r = Suc n \<Longrightarrow> moment A E \<Longrightarrow>
    life A r (add_thread ByRequest (request_thread (serve_prog A E rand raw c q)) (r\<lparr>life_conns := n\<rparr>))"
| job: "alive r \<Longrightarrow> moment A E \<Longrightarrow> life A r (add_thread ByScheduler (job_thread (job_prog E j)) r)"
| refresh: "alive r \<Longrightarrow> moment A E \<Longrightarrow>
    life A r (add_thread ByRefresh (job_thread (job_prog E RefreshSimpleFin)) r)"
| sent: "alive r \<Longrightarrow> i < length (life_threads r) \<Longrightarrow> life_threads r ! i = (k, Stmt f) \<Longrightarrow>
    k = ByScheduler \<longrightarrow> life_phase r = Serving \<Longrightarrow> f (life_db r) = (p, d) \<Longrightarrow>
    life A r (r\<lparr>life_db := d, life_threads := (life_threads r)[i := (k, p)]\<rparr>)"
| lost: "alive r \<Longrightarrow> i < length (life_threads r) \<Longrightarrow> life_threads r ! i = (k, Stmt f) \<Longrightarrow>
    k = ByScheduler \<longrightarrow> life_phase r = Serving \<Longrightarrow>
    f ((life_db r)\<lparr>db_faults := [Some e]\<rparr>) = (p, t) \<Longrightarrow> d = snd (f (life_db r)) \<Longrightarrow>
    life A r (r\<lparr>life_db := d, life_threads := (life_threads r)[i := (k, p)]\<rparr>)"
| cancelled: "life_phase r = Draining \<Longrightarrow> i < length (life_threads r) \<Longrightarrow>
    life_threads r ! i = (ByScheduler, Stmt f) \<Longrightarrow> send_cancelled f (life_db r) = (p, d) \<Longrightarrow>
    life A r (r\<lparr>life_db := d, life_threads := (life_threads r)[i := (ByScheduler, p)]\<rparr>)"
| passing: "alive r \<Longrightarrow> life A r (r\<lparr>life_db := (life_db r)\<lparr>db_now := t, db_faults := fs\<rparr>\<rparr>)"
| signal: "life_phase r = Serving \<Longrightarrow> life A r (r\<lparr>life_phase := Draining\<rparr>)"
| stopped: "life_phase r = Draining \<Longrightarrow> \<not> waiting r \<Longrightarrow> life A r (r\<lparr>life_phase := Exited\<rparr>)"
| listener: "life_phase r = Serving \<Longrightarrow> life A r (r\<lparr>life_phase := Failed (''server error: '' @ e)\<rparr>)"
| panic: "alive r \<Longrightarrow> gr_interval (Run A b) \<le> 0 \<Longrightarrow>
    life A r (r\<lparr>life_phase := Failed ''non-positive interval for NewTicker''\<rparr>)"

definition launched :: "db \<Rightarrow> lifecycle" where
  "launched d = \<lparr>life_db = d, life_threads = [], life_conns = 0, life_phase = Serving\<rparr>"

section \<open>The pool inside\<close>

definition pool_of :: "lifecycle \<Rightarrow> pool" where
  "pool_of r = \<lparr>pool_db = life_db r, pool_threads = map snd (life_threads r)\<rparr>"

lemma pool_of_sel [simp]: "pool_db (pool_of r) = life_db r" "pool_threads (pool_of r) = map snd (life_threads r)"
  by (simp_all add: pool_of_def)

text \<open>Every step is made of steps of the pool; a cancelled statement is one that meets a failure.\<close>

lemma act_send_pool: "i < length ts \<Longrightarrow> ts ! i = Stmt f \<Longrightarrow> f d = (p, d') \<Longrightarrow>
    act A \<lparr>pool_db = d, pool_threads = ts\<rparr> \<lparr>pool_db = d', pool_threads = ts[i := p]\<rparr>"
  using act.send [of i "\<lparr>pool_db = d, pool_threads = ts\<rparr>" f p d' A] by simp

lemma act_passing_pool: "act A \<lparr>pool_db = d, pool_threads = ts\<rparr> \<lparr>pool_db = d\<lparr>db_now := t, db_faults := fs\<rparr>, pool_threads = ts\<rparr>"
  using act.passing [of A "\<lparr>pool_db = d, pool_threads = ts\<rparr>" fs t] by simp

lemma act_faults_pool: "act A \<lparr>pool_db = d, pool_threads = ts\<rparr> \<lparr>pool_db = d\<lparr>db_faults := fs\<rparr>, pool_threads = ts\<rparr>"
  using act_passing_pool [of A d ts fs "db_now d"] by simp

lemma life_acts: "life A r r' \<Longrightarrow> (act A)\<^sup>*\<^sup>* (pool_of r) (pool_of r')"
proof (induction rule: life.induct)
  case (arrived r n E rand raw c q)
  then show ?case using act.arrive [of A E "pool_of r" rand raw c q] by (simp add: add_thread_def pool_of_def)
next
  case (job r E j)
  then show ?case using act.start [of A E "pool_of r" j] by (simp add: add_thread_def pool_of_def)
next
  case (refresh r E)
  then show ?case using act.start [of A E "pool_of r" RefreshSimpleFin] by (simp add: add_thread_def pool_of_def)
next
  case (sent r i k f p d)
  then show ?case
    using act_send_pool [of i "map snd (life_threads r)" f "life_db r" p d A] by (simp add: pool_of_def map_update)
next
  case (lost r i k f e p t d)
  then show ?case
    using act.lost [of i "pool_of r" f e p t d A] by (simp add: pool_of_def map_update)
next
  case (cancelled r i f p d)
  let ?s = "(life_db r)\<lparr>db_faults := [Some context_canceled]\<rparr>"
  obtain d' where d': "f ?s = (p, d')" "d = d'\<lparr>db_faults := db_faults (life_db r)\<rparr>"
    using cancelled(4) by (auto simp: send_cancelled_def split: prod.splits)
  have "act A (pool_of r) \<lparr>pool_db = ?s, pool_threads = map snd (life_threads r)\<rparr>"
    unfolding pool_of_def by (rule act_faults_pool)
  moreover have "act A \<lparr>pool_db = ?s, pool_threads = map snd (life_threads r)\<rparr>
      \<lparr>pool_db = d', pool_threads = (map snd (life_threads r))[i := p]\<rparr>"
    using cancelled(2,3) act_send_pool [of i "map snd (life_threads r)" f ?s p d' A] d'(1) by simp
  moreover have "act A \<lparr>pool_db = d', pool_threads = (map snd (life_threads r))[i := p]\<rparr>
      \<lparr>pool_db = d, pool_threads = (map snd (life_threads r))[i := p]\<rparr>"
    unfolding d'(2) by (rule act_faults_pool)
  ultimately have "(act A)\<^sup>*\<^sup>* (pool_of r) \<lparr>pool_db = d, pool_threads = (map snd (life_threads r))[i := p]\<rparr>"
    by (meson converse_rtranclp_into_rtranclp rtranclp.rtrancl_refl)
  then show ?case by (simp add: pool_of_def map_update)
next
  case (passing r fs t)
  then show ?case using act.passing [of A "pool_of r" fs t] by (simp add: pool_of_def)
qed (simp_all add: pool_of_def)

lemma lives_acts: "(life A)\<^sup>*\<^sup>* r r' \<Longrightarrow> (act A)\<^sup>*\<^sup>* (pool_of r) (pool_of r')"
  by (induction rule: rtranclp_induct) (blast intro: life_acts rtranclp_trans)+

text \<open>So an invariant of the threads is one of the whole life.\<close>

context threads_invariant
begin

lemma lives_keep: "(life A)\<^sup>*\<^sup>* r r' \<Longrightarrow> pool_ok (pool_of r) \<Longrightarrow> I (life_db r) \<Longrightarrow> I (life_db r')"
  using acts_keep [OF lives_acts] by simp

end

section \<open>What the scheduler does after the signal\<close>

text \<open>A program whose statements, when they fail, have done nothing.\<close>

primrec cancellable :: "'a prog \<Rightarrow> bool" where
  "cancellable (Return a) = True"
| "cancellable (Stmt f) = (\<forall>s. (\<forall>e fs. db_faults s = Some e # fs \<longrightarrow> snd (f s) = s\<lparr>db_faults := fs\<rparr>) \<and>
     fst (map_prod cancellable id (f s)))"

lemma cancellable_sql: "(\<And>x. cancellable (k x)) \<Longrightarrow> cancellable (call (sql stmt) k)"
  by (simp add: call_def sql_def split_beta)

lemma cancellable_then_do: "cancellable p \<Longrightarrow> (\<And>a. cancellable (k a)) \<Longrightarrow> cancellable (then_do p k)"
proof (induction p)
  case (Stmt f)
  have "cancellable (then_do (fst (f s)) k)" for s
  proof (rule Stmt.IH [OF rangeI [of f s] _ _ Stmt.prems(2)])
    show "fst (f s) \<in> Basic_BNFs.fsts (f s)" by (metis Basic_BNFs.fsts.intros surjective_pairing)
    show "cancellable (fst (f s))" using Stmt.prems(1) by simp
  qed
  then show ?case using Stmt.prems(1) by (simp add: split_beta)
qed simp

lemma cancellable_upsert: "cancellable k \<Longrightarrow> cancellable (upsert_accounts_prog as k)"
  by (induction as) (simp_all add: AccountStore_Upsert_def cancellable_sql)

lemma cancellable_refresh_now: "cancellable k \<Longrightarrow> cancellable (RefreshVendorConnectionNow_prog E conn k)"
  by (auto simp: RefreshVendorConnectionNow_prog_def Let_def VendorConnectionStore_MarkSynced_def
      BillDefinitionStore_UpdateAmount_def BillInstanceStore_EnsureInstance_def intro!: cancellable_sql split: sum.split)

lemma cancellable_refresh_each: "cancellable (refresh_each_prog E conns)"
  by (induction conns) (auto simp: RefreshVendorConnectionIfStale_prog_def cancellable_refresh_now split: option.split)

lemma cancellable_generate: "cancellable (generate_each_prog tz now days defs)"
proof -
  have "cancellable (ensure_all_prog tz rid ts)" for rid ts
    by (induction ts) (auto simp: BillInstanceStore_EnsureInstance_def intro!: cancellable_sql split: sum.split)
  then show ?thesis
    by (induction defs) (auto simp: GenerateInstancesForDefinition_prog_def Let_def intro!: cancellable_then_do)
qed

lemma cancellable_job: "cancellable (job_thread (job_prog E j))"
  unfolding job_thread_def
  by (rule cancellable_then_do, cases j)
    (auto simp: generateInstances_prog_def RefreshSimpleFinNow_prog_def refreshVendorConnections_prog_def
      BillDefinitionStore_ListAll_def SimpleFinConnectionStore_Get_def SimpleFinConnectionStore_MarkSynced_def
      VendorConnectionStore_ListAll_def cancellable_generate cancellable_refresh_each
      intro!: cancellable_sql cancellable_upsert split: sum.split)

lemma send_cancelled_keeps: "cancellable (Stmt f) \<Longrightarrow> send_cancelled f s = (p, d) \<Longrightarrow> d = s \<and> cancellable p"
proof -
  assume f: "cancellable (Stmt f)" and c: "send_cancelled f s = (p, d)"
  let ?s = "s\<lparr>db_faults := [Some context_canceled]\<rparr>"
  have "snd (f ?s) = s\<lparr>db_faults := []\<rparr>" "cancellable (fst (f ?s))" using f by simp_all
  then show ?thesis using c by (auto simp: send_cancelled_def split: prod.splits)
qed

section \<open>Answers\<close>

text \<open>A request's thread ends in a response, and a job's in nothing.\<close>

primrec answers :: "thread \<Rightarrow> bool" where
  "answers (Return a) \<longleftrightarrow> a \<noteq> None"
| "answers (Stmt f) \<longleftrightarrow> (\<forall>s. fst (map_prod answers id (f s)))"

lemma answers_request: "answers (request_thread p)"
proof -
  have "answers (then_do p (\<lambda>x. Return (Some x)))" for p :: "(response \<times> bool) prog"
  proof (induction p)
    case (Stmt f)
    have "answers (then_do (fst (f s)) (\<lambda>x. Return (Some x)))" for s
      using Stmt.IH [OF rangeI [of f s]] by (metis Basic_BNFs.fsts.intros surjective_pairing)
    then show ?case by (simp add: split_beta)
  qed simp
  then show ?thesis by (simp add: request_thread_def)
qed

definition threads_fit :: "lifecycle \<Rightarrow> bool" where
  "threads_fit r \<longleftrightarrow> (\<forall>(k, p) \<in> set (life_threads r).
     (k = ByRequest \<longrightarrow> answers p) \<and> (k = ByScheduler \<longrightarrow> cancellable p))"

definition life_ok :: "lifecycle \<Rightarrow> bool" where
  "life_ok r \<longleftrightarrow> pool_ok (pool_of r) \<and> threads_fit r \<and> (life_phase r = Exited \<longrightarrow> \<not> waiting r)"

lemma fit_update: "threads_fit r \<Longrightarrow> (k = ByRequest \<longrightarrow> answers p) \<Longrightarrow> (k = ByScheduler \<longrightarrow> cancellable p) \<Longrightarrow>
    threads_fit (r\<lparr>life_db := d, life_threads := (life_threads r)[i := (k, p)]\<rparr>)"
  by (auto simp: threads_fit_def dest!: set_mp [OF set_update_subset_insert])

lemma fit_add: "threads_fit r \<Longrightarrow> (k = ByRequest \<longrightarrow> answers p) \<Longrightarrow> (k = ByScheduler \<longrightarrow> cancellable p) \<Longrightarrow>
    threads_fit (add_thread k p r)"
  by (auto simp: threads_fit_def add_thread_def)

lemma fit_nth: "threads_fit r \<Longrightarrow> i < length (life_threads r) \<Longrightarrow> life_threads r ! i = (k, p) \<Longrightarrow>
    (k = ByRequest \<longrightarrow> answers p) \<and> (k = ByScheduler \<longrightarrow> cancellable p)"
  using nth_mem [of i "life_threads r"] by (auto simp: threads_fit_def)

lemma fit_frame: "threads_fit (r\<lparr>life_conns := n\<rparr>) = threads_fit r" "threads_fit (r\<lparr>life_db := d\<rparr>) = threads_fit r"
  "threads_fit (r\<lparr>life_phase := ph\<rparr>) = threads_fit r"
  by (simp_all add: threads_fit_def)

lemma life_fits: "life A r r' \<Longrightarrow> threads_fit r \<Longrightarrow> threads_fit r'"
proof (induction rule: life.induct)
  case (sent r i k f p d)
  have p: "p = fst (f (life_db r))" using sent(5) by simp
  show ?case
    using fit_nth [OF sent(6,2,3)] sent(6) unfolding p by (intro fit_update) auto
next
  case (lost r i k f e p t d)
  have p: "p = fst (f ((life_db r)\<lparr>db_faults := [Some e]\<rparr>))" using lost(5) by simp
  show ?case
    using fit_nth [OF lost(7,2,3)] lost(7) unfolding p by (intro fit_update) auto
next
  case (cancelled r i f p d)
  then show ?case
    using fit_nth [OF cancelled(5,2,3)] send_cancelled_keeps [of f "life_db r" p d] by (intro fit_update) auto
qed (simp_all add: fit_frame fit_add answers_request cancellable_job)

lemma exited_answered: "life A r r' \<Longrightarrow> life_phase r' = Exited \<Longrightarrow> \<not> waiting r'"
  by (induction rule: life.induct) (auto simp: alive_def waiting_def add_thread_def)

lemma life_ok_step: "life A r r' \<Longrightarrow> life_ok r \<Longrightarrow> life_ok r'"
  using life_acts acts_ok life_fits exited_answered unfolding life_ok_def by blast

lemma lives_ok: "(life A)\<^sup>*\<^sup>* r r' \<Longrightarrow> life_ok r \<Longrightarrow> life_ok r'"
  by (induction rule: rtranclp_induct) (simp_all add: life_ok_step)

lemma launched_ok: "db_ok d \<Longrightarrow> life_ok (launched d)"
  by (simp add: life_ok_def launched_def threads_fit_def pool_ok_def)

text \<open>Threads stay where they are, and one that has returned stays as it is.\<close>

lemma thread_stays:
  assumes "life A r r'" "i < length (life_threads r)"
  shows "i < length (life_threads r') \<and> fst (life_threads r' ! i) = fst (life_threads r ! i)"
  using assms
  by (induction rule: life.induct) (auto simp: add_thread_def nth_append nth_list_update)

lemma threads_stay: "(life A)\<^sup>*\<^sup>* r r' \<Longrightarrow> i < length (life_threads r) \<Longrightarrow>
    i < length (life_threads r') \<and> fst (life_threads r' ! i) = fst (life_threads r ! i)"
  by (induction rule: rtranclp_induct) (auto dest: thread_stays)

lemma all_answered:
  assumes "threads_fit r" "\<not> waiting r" "i < length (life_threads r)" "fst (life_threads r ! i) = ByRequest"
  shows "\<exists>resp b. life_threads r ! i = (ByRequest, Return (Some (resp, b)))"
proof -
  obtain p where p: "life_threads r ! i = (ByRequest, p)" using assms(4) by (cases "life_threads r ! i") simp
  then have "returned p" "answers p"
    using assms(1-3) nth_mem [OF assms(3)] fit_nth [OF assms(1,3) p] by (auto simp: waiting_def)
  with p show ?thesis by (cases p) (auto simp: returned_def)
qed

definition scheduler_acts :: "lifecycle \<Rightarrow> lifecycle \<Rightarrow> bool" where
  "scheduler_acts r r' \<longleftrightarrow> (\<exists>i < length (life_threads r).
     fst (life_threads r ! i) = ByScheduler \<and> life_threads r' ! i \<noteq> life_threads r ! i)"

lemma draining_scheduler:
  assumes "life A r r'" "life_phase r = Draining" "threads_fit r" "scheduler_acts r r'"
  shows "life_db r' = life_db r"
  using assms
proof (induction rule: life.induct)
  case (sent r i k f p d)
  then show ?case by (auto simp: scheduler_acts_def nth_list_update split: if_splits)
next
  case (lost r i k f e p t d)
  then show ?case by (auto simp: scheduler_acts_def nth_list_update split: if_splits)
next
  case (cancelled r i f p d)
  then show ?case using fit_nth [OF cancelled(6,2,3)] send_cancelled_keeps [of f "life_db r" p d] by simp
qed (auto simp: scheduler_acts_def add_thread_def nth_append)

lemma draining_on: "(life A)\<^sup>*\<^sup>* r r' \<Longrightarrow> life_phase r \<noteq> Serving \<Longrightarrow> life_phase r' \<noteq> Serving"
proof (induction rule: rtranclp_induct)
  case (step r' r'')
  from step(2,3,4) show ?case by (induction rule: life.induct) (auto simp: add_thread_def alive_def)
qed

text \<open>
  C8. A shutdown is graceful. Whatever the process does is something its pool of threads does, so
  all that holds of any interleaving holds through start, work and shutdown; once the signal has
  come the server never serves again, a loop of the scheduler that goes on leaves
  the tables exactly as they are (a statement in flight at the signal counts as sent before it), and when the process exits, every request it had taken, before
  the signal or after, has its response.
\<close>

theorem shutdown_graceful:
  assumes "life_ok r" "(life A)\<^sup>*\<^sup>* r r'"
  shows "(act A)\<^sup>*\<^sup>* (pool_of r) (pool_of r') \<and> db_ok (life_db r') \<and>
    (life_phase r = Draining \<longrightarrow> life_phase r' \<noteq> Serving) \<and>
    (life_phase r' = Draining \<longrightarrow> (\<forall>r''. life A r' r'' \<and> scheduler_acts r' r'' \<longrightarrow> life_db r'' = life_db r')) \<and>
    (life_phase r' = Exited \<longrightarrow> (\<forall>i < length (life_threads r'). fst (life_threads r' ! i) = ByRequest \<longrightarrow>
       (\<exists>resp b. life_threads r' ! i = (ByRequest, Return (Some (resp, b)))))) \<and>
    (\<forall>i < length (life_threads r). i < length (life_threads r') \<and>
       fst (life_threads r' ! i) = fst (life_threads r ! i))"
proof -
  have ok: "life_ok r'" by (rule lives_ok [OF assms(2,1)])
  then have "db_ok (life_db r')" by (simp add: life_ok_def pool_ok_def)
  moreover have "life_db r'' = life_db r'" if "life_phase r' = Draining" "life A r' r''" "scheduler_acts r' r''" for r''
    using draining_scheduler [OF that(2,1) _ that(3)] ok by (simp add: life_ok_def)
  moreover have "\<exists>resp b. life_threads r' ! i = (ByRequest, Return (Some (resp, b)))"
    if "life_phase r' = Exited" "i < length (life_threads r')" "fst (life_threads r' ! i) = ByRequest" for i
    using all_answered [OF _ _ that(2,3)] ok that(1) by (simp add: life_ok_def)
  ultimately show ?thesis
    using lives_acts [OF assms(2)] draining_on [OF assms(2)] threads_stay [OF assms(2)] by simp
qed

section \<open>The wait ends\<close>

text \<open>
  What is left to do while the server drains: connections that may still bring a request, and the
  programs of the requests under way. A program that has sent a statement is a direct part
  of the one it was.
\<close>

definition part :: "('a prog \<times> 'a prog) set" where
  "part = {(p, Stmt f) |p f. \<exists>s. p = fst (f s)}"

lemma wf_part: "wf part"
proof (rule wfUNIVI)
  fix P :: "'a prog \<Rightarrow> bool" and x :: "'a prog"
  assume "\<forall>x. (\<forall>y. (y, x) \<in> part \<longrightarrow> P y) \<longrightarrow> P x"
  then have step: "P x" if "\<forall>y. (y, x) \<in> part \<longrightarrow> P y" for x using that by blast
  show "P x"
  proof (induction x)
    case (Return a)
    show ?case by (rule step) (simp add: part_def)
  next
    case (Stmt f)
    have "P (fst (f s))" for s
    proof (rule Stmt.IH [OF rangeI [of f s]])
      show "fst (f s) \<in> Basic_BNFs.fsts (f s)" by (metis Basic_BNFs.fsts.intros surjective_pairing)
    qed
    then have "\<forall>y. (y, Stmt f) \<in> part \<longrightarrow> P y" by (simp add: part_def) blast
    then show ?case by (rule step)
  qed
qed

definition requests :: "lifecycle \<Rightarrow> thread multiset" where
  "requests r = image_mset snd (filter_mset (\<lambda>(k, p). k = ByRequest) (mset (life_threads r)))"

definition left_to_do :: "lifecycle \<Rightarrow> nat \<times> thread multiset" where
  "left_to_do r = (life_conns r, requests r)"

definition less_to_do :: "((nat \<times> thread multiset) \<times> (nat \<times> thread multiset)) set" where
  "less_to_do = less_than <*lex*> mult part"

lemma wf_less_to_do: "wf less_to_do"
  unfolding less_to_do_def by (intro wf_lex_prod wf_less_than wf_mult wf_part)

lemma requests_add: "requests (add_thread k p r) = (if k = ByRequest then add_mset p (requests r) else requests r)"
  by (simp add: requests_def add_thread_def)

lemma add_thread_conns [simp]: "life_conns (add_thread k p r) = life_conns r"
  by (simp add: add_thread_def)

lemma requests_update:
  assumes "i < length (life_threads r)" "life_threads r ! i = (k, q)"
  shows "requests (r\<lparr>life_db := d, life_threads := (life_threads r)[i := (k, p)]\<rparr>) =
    (if k = ByRequest then add_mset p (requests r - {#q#}) else requests r)"
proof -
  have "(k, q) \<in># mset (life_threads r)" using nth_mem [OF assms(1)] assms(2) by simp
  then obtain M where M: "mset (life_threads r) = add_mset (k, q) M" by (metis mset_add)
  then show ?thesis using assms by (simp add: requests_def mset_update)
qed

lemma requests_sent:
  assumes "i < length (life_threads r)" "life_threads r ! i = (ByRequest, Stmt f)" "p = fst (f s)"
  shows "(add_mset p (requests r - {#Stmt f#}), requests r) \<in> mult part"
proof -
  have "(ByRequest, Stmt f) \<in># mset (life_threads r)" using nth_mem [OF assms(1)] assms(2) by simp
  then have "Stmt f \<in># requests r" unfolding requests_def by (force simp: image_iff)
  then obtain M where M: "requests r = add_mset (Stmt f) M" by (metis mset_add)
  have "(p, Stmt f) \<in> part" using assms(3) by (auto simp: part_def)
  then have "(add_mset p M, add_mset (Stmt f) M) \<in> mult1 part" unfolding mult1_def by fastforce
  then show ?thesis by (simp add: M mult_def r_into_trancl')
qed

text \<open>While the server drains, no step adds to what is left, and serving a request takes from it.\<close>

lemma draining_progress:
  assumes "life A r r'" "life_phase r = Draining"
  shows "left_to_do r' = left_to_do r \<or> (left_to_do r', left_to_do r) \<in> less_to_do"
  using assms
proof (induction rule: life.induct)
  case (sent r i k f p d)
  show ?case
  proof (cases "k = ByRequest")
    case True
    have "p = fst (f (life_db r))" using sent(5) by simp
    then have "(add_mset p (requests r - {#Stmt f#}), requests r) \<in> mult part"
      using sent(2,3) True by (intro requests_sent) simp_all
    then show ?thesis using requests_update [OF sent(2,3)] True by (simp add: left_to_do_def less_to_do_def)
  qed (simp add: left_to_do_def requests_update [OF sent(2,3)])
next
  case (lost r i k f e p t d)
  show ?case
  proof (cases "k = ByRequest")
    case True
    have "p = fst (f ((life_db r)\<lparr>db_faults := [Some e]\<rparr>))" using lost(5) by simp
    then have "(add_mset p (requests r - {#Stmt f#}), requests r) \<in> mult part"
      using lost(2,3) True by (intro requests_sent) simp_all
    then show ?thesis using requests_update [OF lost(2,3)] True by (simp add: left_to_do_def less_to_do_def)
  qed (simp add: left_to_do_def requests_update [OF lost(2,3)])
next
  case (cancelled r i f p d)
  then show ?case by (simp add: left_to_do_def requests_update [OF cancelled(2,3)])
qed (simp_all add: left_to_do_def less_to_do_def requests_add, simp_all add: requests_def)

text \<open>The server gives a request its turn: its next statement is sent and some answer to it arrives.\<close>

definition served :: "lifecycle \<Rightarrow> lifecycle \<Rightarrow> bool" where
  "served r r' \<longleftrightarrow> (\<exists>i f s d. i < length (life_threads r) \<and> life_threads r ! i = (ByRequest, Stmt f) \<and>
     r' = r\<lparr>life_db := d, life_threads := (life_threads r)[i := (ByRequest, fst (f s))]\<rparr>)"

lemma served_progress: "served r r' \<Longrightarrow> (left_to_do r', left_to_do r) \<in> less_to_do"
  unfolding served_def
  by (auto simp: left_to_do_def less_to_do_def requests_update intro: requests_sent)

lemma settles:
  fixes m :: "nat \<Rightarrow> 'a"
  assumes "wf R" "\<And>n. m (Suc n) = m n \<or> (m (Suc n), m n) \<in> R"
  shows "\<exists>N. \<forall>n \<ge> N. m n = m N"
proof -
  obtain N where N: "\<And>y. (y, m N) \<in> R \<Longrightarrow> y \<notin> range m"
    using wfE_min [OF assms(1), of "m 0" "range m"] by (metis rangeE rangeI)
  have "m n = m N" if "N \<le> n" for n
    using that
  proof (induction n rule: dec_induct)
    case (step n)
    then show ?case using assms(2) [of n] N by (metis rangeI)
  qed simp
  then show ?thesis by blast
qed

text \<open>
  C7. A shutdown comes to its end. From any well-formed state after the signal, as long as every request under way gets
  its turn again and again (and no interval of the scheduler is set to make its
  ticker panic), there is a moment from which on every request is answered, however many jobs
  start, fail or hang meanwhile and whatever comes in on connections that were open: from then on
  the wait of \<^verbatim>\<open>Shutdown\<close> is over, and the process has exited or may exit at once. Nothing that was
  under way at the signal is dropped.
\<close>

theorem shutdown_ends:
  assumes "life_ok (\<sigma> 0)" "life_phase (\<sigma> 0) = Draining" "\<forall>b. 0 < gr_interval (Run A b)"
    and run: "\<forall>n. life A (\<sigma> n) (\<sigma> (Suc n)) \<or> \<sigma> (Suc n) = \<sigma> n"
    and turns: "\<forall>n. waiting (\<sigma> n) \<longrightarrow> (\<exists>m \<ge> n. served (\<sigma> m) (\<sigma> (Suc m)))"
  shows "\<exists>N. \<forall>n \<ge> N.
    (\<forall>i < length (life_threads (\<sigma> n)). fst (life_threads (\<sigma> n) ! i) = ByRequest \<longrightarrow>
       (\<exists>resp b. life_threads (\<sigma> n) ! i = (ByRequest, Return (Some (resp, b))))) \<and>
    (\<forall>i < length (life_threads (\<sigma> 0)). i < length (life_threads (\<sigma> n)) \<and>
       fst (life_threads (\<sigma> n) ! i) = fst (life_threads (\<sigma> 0) ! i)) \<and>
    (life_phase (\<sigma> n) = Exited \<or> life A (\<sigma> n) ((\<sigma> n)\<lparr>life_phase := Exited\<rparr>))"
proof -
  have path: "(life A)\<^sup>*\<^sup>* (\<sigma> 0) (\<sigma> n)" for n
  proof (induction n)
    case (Suc n)
    then show ?case using run by (metis rtranclp.rtrancl_into_rtrancl)
  qed simp
  have phase: "life_phase (\<sigma> n) = Draining \<or> life_phase (\<sigma> n) = Exited" for n
  proof (induction n)
    case (Suc n)
    have "life_phase r' = Draining \<or> life_phase r' = Exited"
      if "life A r r'" "life_phase r = Draining \<or> life_phase r = Exited" for r r'
      using that
    proof (induction rule: life.induct)
      case (panic r b)
      have "0 < gr_interval (Run A b)" using assms(3) by blast
      with panic(2) show ?case by linarith
    qed (auto simp: alive_def add_thread_def)
    then show ?case using run Suc by metis
  qed (simp add: assms(2))
  have stuck: "\<not> life A r r'" if "life_phase r = Exited" for r r'
    using that by (auto elim!: life.cases simp: alive_def)
  have "left_to_do (\<sigma> (Suc n)) = left_to_do (\<sigma> n) \<or> (left_to_do (\<sigma> (Suc n)), left_to_do (\<sigma> n)) \<in> less_to_do" for n
    using run phase draining_progress stuck by metis
  then obtain N where N: "\<forall>n \<ge> N. left_to_do (\<sigma> n) = left_to_do (\<sigma> N)"
    using settles [OF wf_less_to_do, of "\<lambda>n. left_to_do (\<sigma> n)"] by blast
  have quiet: "\<not> waiting (\<sigma> n)" if n: "N \<le> n" for n
  proof
    assume "waiting (\<sigma> n)"
    then obtain m where m: "n \<le> m" "served (\<sigma> m) (\<sigma> (Suc m))" using turns by blast
    then have "left_to_do (\<sigma> (Suc m)) = left_to_do (\<sigma> m)" using N n by (metis le_SucI le_trans)
    then show False using served_progress [OF m(2)] wf_less_to_do by (metis wf_not_refl)
  qed
  have "threads_fit (\<sigma> n)" for n using lives_ok [OF path assms(1)] by (simp add: life_ok_def)
  then show ?thesis
    using all_answered quiet threads_stay [OF path] phase life.stopped by metis
qed

section \<open>A small shutdown\<close>

text \<open>A request without a token is under way, its one statement unsent, when the signal comes.\<close>

definition asked :: thread where
  "asked = request_thread (serve_prog sample_app sample_env sample_rand '''' None (sample_request '''' ''''))"

definition refused :: thread where
  "refused = Return (Some (http_Error ''forbidden'' 403, False))"

definition draining_app :: "thread \<Rightarrow> phase \<Rightarrow> lifecycle" where
  "draining_app p ph = \<lparr>life_db = sample_db, life_threads = [(ByRequest, p)], life_conns = 0, life_phase = ph\<rparr>"

lemma asked_sends: obtains f where "asked = Stmt f" "f sample_db = (refused, sample_db)"
proof -
  have "cleanPath ''/manifest'' = ''/manifest''" "find_route ''GET'' ''/manifest'' = Some Route_Manifest"
    by code_simp+
  then have "\<exists>f. asked = Stmt f \<and> f sample_db = (refused, sample_db)"
    by (simp add: asked_def refused_def request_thread_def serve_prog_def guarded_def RequireBearerToken_prog_def
        currentToken_prog_def call_def sample_request_def SettingsStore_Get_def sql_def CutPrefix_def HasPrefix_def)
      (simp add: sample_db_def empty_db_def storing_def)
  then show thesis using that by blast
qed

lemma draining_app_ok: "life_ok (draining_app asked Draining)"
  by (simp add: life_ok_def draining_app_def pool_ok_def sample_db_ok threads_fit_def asked_def answers_request proper_threads)

lemma draining_app_life:
  "life A (draining_app asked Draining) (draining_app refused Draining)"
  "served (draining_app asked Draining) (draining_app refused Draining)"
  "life A (draining_app refused Draining) (draining_app refused Exited)"
proof -
  obtain f where f: "asked = Stmt f" "f sample_db = (refused, sample_db)" by (rule asked_sends)
  show "life A (draining_app asked Draining) (draining_app refused Draining)"
    using life.sent [of "draining_app asked Draining" 0 ByRequest f refused sample_db A] f
    by (simp add: draining_app_def alive_def)
  show "served (draining_app asked Draining) (draining_app refused Draining)"
    unfolding served_def using f by (intro exI [of _ 0] exI [of _ f] exI [of _ sample_db]) (simp add: draining_app_def)
  show "life A (draining_app refused Draining) (draining_app refused Exited)"
    using life.stopped [of "draining_app refused Draining" A]
    by (simp add: draining_app_def waiting_def returned_def refused_def)
qed

theorem shutdown_graceful_witness:
  "\<exists>r'. (life sample_app)\<^sup>*\<^sup>* (draining_app asked Draining) r' \<and> life_phase r' = Exited \<and>
     (\<exists>resp b. life_threads r' ! 0 = (ByRequest, Return (Some (resp, b)))) \<and> db_ok (life_db r')"
proof -
  have path: "(life sample_app)\<^sup>*\<^sup>* (draining_app asked Draining) (draining_app refused Exited)"
    using draining_app_life(1,3) [of sample_app] by (meson converse_rtranclp_into_rtranclp rtranclp.rtrancl_refl)
  from shutdown_graceful [OF draining_app_ok path] show ?thesis
    using path by (intro exI [of _ "draining_app refused Exited"]) (simp add: draining_app_def)
qed

theorem shutdown_ends_witness:
  "\<exists>\<sigma> :: nat \<Rightarrow> lifecycle. \<sigma> 0 = draining_app asked Draining \<and> waiting (\<sigma> 0) \<and>
     (\<exists>N. \<forall>n \<ge> N. \<exists>resp b. life_threads (\<sigma> n) ! 0 = (ByRequest, Return (Some (resp, b))))"
proof -
  define \<sigma> where "\<sigma> n = draining_app (if n = 0 then asked else refused) Draining" for n :: nat
  have ok: "life_ok (\<sigma> 0)" "life_phase (\<sigma> 0) = Draining"
    by (simp_all add: \<sigma>_def draining_app_ok) (simp add: draining_app_def)
  have pos: "\<forall>b. 0 < gr_interval (Run sample_app b)"
  proof
    fix b
    show "0 < gr_interval (Run sample_app b)"
      by (cases b) (simp_all add: goroutine_defs sample_app_def sample_config_def minutes_def wrap64_def
          instanceGenerationInterval_def)
  qed
  have run: "\<forall>n. life sample_app (\<sigma> n) (\<sigma> (Suc n)) \<or> \<sigma> (Suc n) = \<sigma> n"
    by (simp add: \<sigma>_def draining_app_life)
  have done_rest: "\<not> waiting (\<sigma> (Suc n))" for n
    by (simp add: \<sigma>_def waiting_def draining_app_def refused_def returned_def)
  have turns: "\<forall>n. waiting (\<sigma> n) \<longrightarrow> (\<exists>m \<ge> n. served (\<sigma> m) (\<sigma> (Suc m)))"
  proof (intro allI impI)
    fix n assume "waiting (\<sigma> n)"
    then have "n = 0" using done_rest by (cases n) auto
    then show "\<exists>m \<ge> n. served (\<sigma> m) (\<sigma> (Suc m))" using draining_app_life(2) by (intro exI [of _ 0]) (simp add: \<sigma>_def)
  qed
  have wait: "waiting (\<sigma> 0)"
  proof -
    obtain f where f: "asked = Stmt f" by (rule asked_sends)
    have "\<not> returned asked" unfolding f by (simp add: returned_def)
    then show ?thesis by (simp add: \<sigma>_def waiting_def draining_app_def)
  qed
  obtain N where "\<forall>n \<ge> N. (\<forall>i < length (life_threads (\<sigma> n)). fst (life_threads (\<sigma> n) ! i) = ByRequest \<longrightarrow>
      (\<exists>resp b. life_threads (\<sigma> n) ! i = (ByRequest, Return (Some (resp, b)))))"
    using shutdown_ends [OF ok pos run turns] by blast
  then have "\<forall>n \<ge> N. \<exists>resp b. life_threads (\<sigma> n) ! 0 = (ByRequest, Return (Some (resp, b)))"
    by (simp add: \<sigma>_def draining_app_def)
  moreover have "\<sigma> 0 = draining_app asked Draining" by (simp add: \<sigma>_def)
  ultimately show ?thesis using wait by blast
qed

end
