(* ===== verification/SimpleFin_Transport.thy ===== *)
theory SimpleFin_Transport
  imports SimpleFin_Client
begin

text \<open>
  The HTTP client behind both exchanges with the bridge (\<^verbatim>\<open>httpClient\<close> of
  \<^verbatim>\<open>internal/simplefin/client.go\<close>): what \<^verbatim>\<open>http.Client.Do\<close> does with a request, redirects included, when
  every connection is dialled through \<open>safeDialContext\<close>. The network (URL parser, resolver,
  dialler and the servers behind a connection) is a record of functions. Connections are not reused here;
  a reused one was dialled by an earlier hop.
\<close>

section \<open>Requests on the wire\<close>

record http_url =
  hu_Scheme :: string
  hu_Hostname :: string
  hu_Port :: string
  hu_User :: "(string \<times> string) option"

record wire_request =
  wq_Method :: string
  wq_URL :: string
  wq_Auth :: "(string \<times> string) option"

record wire_reply =
  wy_Location :: string
  wy_Reply :: bridge_reply

record 'conn net =
  net_parse :: "string \<Rightarrow> (string, http_url) result"
  net_resolve :: "string \<Rightarrow> string \<Rightarrow> (string, string) result"
  net_lookupIP :: "string \<Rightarrow> (string, ip list) result"
  net_dial :: "ip \<Rightarrow> string \<Rightarrow> (string, 'conn) result"
  net_exchange :: "'conn \<Rightarrow> wire_request \<Rightarrow> (string, wire_reply) result"
  net_error :: "string \<Rightarrow> string \<Rightarrow> string \<Rightarrow> string"

text \<open>A connection that was dialled, and what the request on it carries.\<close>

record hop =
  hop_IP :: ip
  hop_Scheme :: string
  hop_Hostname :: string
  hop_Auth :: "(string \<times> string) option"

definition JoinHostPort :: "string \<Rightarrow> string \<Rightarrow> string" where
  "JoinHostPort host port =
     (if CHR '':'' \<in> set host then ''['' @ host @ '']:'' @ port else host @ '':'' @ port)"

definition canonicalAddr :: "http_url \<Rightarrow> string" where
  "canonicalAddr u = JoinHostPort (hu_Hostname u)
     (if hu_Port u \<noteq> '''' then hu_Port u else if hu_Scheme u = ''http'' then ''80'' else ''443'')"

text \<open>One request: a header set by the caller, or the user of the URL.\<close>

definition sent_auth :: "wire_request \<Rightarrow> http_url \<Rightarrow> (string \<times> string) option" where
  "sent_auth q u = (case wq_Auth q of Some a \<Rightarrow> Some a | None \<Rightarrow> hu_User u)"

definition round_trip :: "bool \<Rightarrow> 'conn net \<Rightarrow> wire_request \<Rightarrow> (string, wire_reply) result \<times> hop list" where
  "round_trip insecureTestMode net q =
     (case net_parse net (wq_URL q) of
        Inl e \<Rightarrow> (Inl e, [])
      | Inr u \<Rightarrow>
          if hu_Scheme u \<noteq> ''http'' \<and> hu_Scheme u \<noteq> ''https''
          then (Inl (''unsupported protocol scheme '' @ Quote (hu_Scheme u)), [])
          else if hu_Hostname u = '''' then (Inl ''http: no Host in request URL'', [])
          else
            (case safeDialContext insecureTestMode (net_lookupIP net) (\<lambda>ip port. Inr (ip, net_dial net ip port))
                (canonicalAddr u) of
               Inl e \<Rightarrow> (Inl e, [])
             | Inr (ip, dialled) \<Rightarrow>
                 let h = \<lparr>hop_IP = ip, hop_Scheme = hu_Scheme u, hop_Hostname = hu_Hostname u, hop_Auth = sent_auth q u\<rparr>
                 in (case dialled of
                       Inl e \<Rightarrow> (Inl e, [h])
                     | Inr conn \<Rightarrow> (net_exchange net conn (q\<lparr>wq_Auth := sent_auth q u\<rparr>), [h]))))"

section \<open>Redirects\<close>

text \<open>The method of the next request; none when the status is not that of a redirect.\<close>

definition redirectMethod :: "string \<Rightarrow> int \<Rightarrow> string option" where
  "redirectMethod method status =
     (if status = 301 \<or> status = 302 \<or> status = 303
      then Some (if method = ''GET'' \<or> method = ''HEAD'' then method else ''GET'')
      else if status = 307 \<or> status = 308 then Some method else None)"

definition isDomainOrSubdomain :: "string \<Rightarrow> string \<Rightarrow> bool" where
  "isDomainOrSubdomain sub parent \<longleftrightarrow>
     sub = parent \<or>
     (CHR '':'' \<notin> set sub \<and> CHR ''%'' \<notin> set sub \<and> HasSuffix sub (CHR ''.'' # parent))"

text \<open>
  The request after a redirect. Headers of the first request go along, its \<^verbatim>\<open>Authorization\<close> until a
  request has gone to another domain.
\<close>

definition next_request :: "'conn net \<Rightarrow> wire_request \<Rightarrow> bool \<Rightarrow> wire_request \<Rightarrow> wire_reply \<Rightarrow>
    (string, (bool \<times> wire_request) option) result" where
  "next_request net first strip q reply =
     (case redirectMethod (wq_Method q) (bp_StatusCode (wy_Reply reply)) of
        None \<Rightarrow> Inr None
      | Some method \<Rightarrow>
          if wy_Location reply = '''' then Inr None
          else
            bindR (wrap_error (''failed to parse Location header '' @ Quote (wy_Location reply) @ '': '')
              (net_resolve net (wq_URL q) (wy_Location reply))) (\<lambda>url.
            bindR (net_parse net url) (\<lambda>u.
            bindR (net_parse net (wq_URL first)) (\<lambda>u0.
            let strip' = (strip \<or> ((hu_Hostname u, hu_Port u) \<noteq> (hu_Hostname u0, hu_Port u0) \<and>
                  \<not> isDomainOrSubdomain (hu_Hostname u) (hu_Hostname u0)))
            in Inr (Some (strip',
                 \<lparr>wq_Method = method, wq_URL = url, wq_Auth = (if strip' then None else wq_Auth first)\<rparr>))))))"

text \<open>The first argument counts the requests that may still be sent; the client stops at ten.\<close>

fun follow :: "nat \<Rightarrow> bool \<Rightarrow> 'conn net \<Rightarrow> wire_request \<Rightarrow> bool \<Rightarrow> wire_request \<Rightarrow>
    (string, wire_reply) result \<times> hop list" where
  "follow 0 insecureTestMode net first strip q = (Inl ''stopped after 10 redirects'', [])"
| "follow (Suc k) insecureTestMode net first strip q =
     (case round_trip insecureTestMode net q of
        (Inl e, hs) \<Rightarrow> (Inl e, hs)
      | (Inr reply, hs) \<Rightarrow>
          (case next_request net first strip q reply of
             Inl e \<Rightarrow> (Inl e, hs)
           | Inr None \<Rightarrow> (Inr reply, hs)
           | Inr (Some (strip', q')) \<Rightarrow>
               (case follow k insecureTestMode net first strip' q' of (r, hs') \<Rightarrow> (r, hs @ hs'))))"

definition httpClient_Do :: "bool \<Rightarrow> 'conn net \<Rightarrow> bridge_request \<Rightarrow> (string, wire_reply) result \<times> hop list" where
  "httpClient_Do insecureTestMode net q =
     (let first = \<lparr>wq_Method = br_Method q, wq_URL = br_URL q, wq_Auth = br_BasicAuth q\<rparr>
      in follow 10 insecureTestMode net first False first)"

definition httpClient :: "bool \<Rightarrow> 'conn net \<Rightarrow> bridge" where
  "httpClient insecureTestMode net q =
     (case httpClient_Do insecureTestMode net q of
        (Inl e, _) \<Rightarrow> Inl (net_error net (br_Method q) (br_URL q) e)
      | (Inr reply, _) \<Rightarrow> Inr (wy_Reply reply))"

section \<open>Where it connects\<close>

definition resolved :: "'conn net \<Rightarrow> ip \<Rightarrow> bool" where
  "resolved net ip \<longleftrightarrow> (\<exists>host ips. net_lookupIP net host = Inr ips \<and> ip \<in> set ips)"

lemma safeDialContext_chosen:
  assumes "safeDialContext False lookupIP (\<lambda>ip port. Inr (ip, dial ip port)) addr = Inr (ip, r)"
  shows "\<not> isDisallowedIP ip \<and> (\<exists>host ips. lookupIP host = Inr ips \<and> ip \<in> set ips)"
  using assms by (auto simp: safeDialContext_def split: sum.splits option.splits dest!: find_Some_member) blast

lemma safeDialContext_outcome:
  "safeDialContext t lookupIP dial addr =
     (case safeDialContext t lookupIP (\<lambda>ip port. Inr (ip, dial ip port)) addr of Inl e \<Rightarrow> Inl e | Inr (ip, r) \<Rightarrow> r)"
  by (simp add: safeDialContext_def split: sum.split option.split)

lemma safeDialContext_agrees:
  assumes "\<forall>ip port. \<not> isDisallowedIP ip \<longrightarrow> dial ip port = dial' ip port"
  shows "safeDialContext False lookupIP (\<lambda>ip port. Inr (ip, dial ip port)) addr =
    safeDialContext False lookupIP (\<lambda>ip port. Inr (ip, dial' ip port)) addr"
  using assms
  by (auto simp: safeDialContext_def split: sum.split option.split prod.split dest!: find_Some_member)

lemma round_trip_hops:
  assumes "round_trip False net q = (r, hs)"
  shows "length hs \<le> 1 \<and> (\<forall>h \<in> set hs. \<not> isDisallowedIP (hop_IP h) \<and> resolved net (hop_IP h))"
  using assms safeDialContext_chosen [of "net_lookupIP net" "net_dial net"]
  by (auto simp: round_trip_def resolved_def Let_def split: sum.splits if_splits)

lemma follow_hops:
  "follow k False net first strip q = (r, hs) \<Longrightarrow>
   length hs \<le> k \<and> (\<forall>h \<in> set hs. \<not> isDisallowedIP (hop_IP h) \<and> resolved net (hop_IP h))"
proof (induction k arbitrary: strip q r hs)
  case (Suc k)
  obtain r1 hs1 where r1: "round_trip False net q = (r1, hs1)" by force
  have "hs = hs1 \<or> (\<exists>strip' q' r' hs'. follow k False net first strip' q' = (r', hs') \<and> hs = hs1 @ hs')"
    using Suc.prems by (auto simp: r1 split: sum.splits option.splits prod.splits)
  then show ?case
  proof
    assume "hs = hs1"
    then show ?thesis using round_trip_hops [OF r1] by auto
  next
    assume "\<exists>strip' q' r' hs'. follow k False net first strip' q' = (r', hs') \<and> hs = hs1 @ hs'"
    then obtain strip' q' r' hs' where "follow k False net first strip' q' = (r', hs')" "hs = hs1 @ hs'" by blast
    then show ?thesis using Suc.IH [of strip' q' r' hs'] round_trip_hops [OF r1] by auto
  qed
qed simp

lemma round_trip_agrees:
  assumes "\<forall>ip port. \<not> isDisallowedIP ip \<longrightarrow> net_dial net ip port = dial' ip port"
  shows "round_trip False (net\<lparr>net_dial := dial'\<rparr>) q = round_trip False net q"
  using safeDialContext_agrees [OF assms, of "net_lookupIP net"] by (simp add: round_trip_def cong: sum.case_cong if_cong prod.case_cong)

lemma follow_agrees:
  assumes "\<forall>ip port. \<not> isDisallowedIP ip \<longrightarrow> net_dial net ip port = dial' ip port"
  shows "follow k False (net\<lparr>net_dial := dial'\<rparr>) first strip q = follow k False net first strip q"
proof (induction k arbitrary: strip q)
  case (Suc k)
  have "next_request (net\<lparr>net_dial := dial'\<rparr>) first strip q reply = next_request net first strip q reply" for reply
    by (simp add: next_request_def cong: option.case_cong if_cong)
  then show ?case
    by (simp add: Suc.IH round_trip_agrees [OF assms] cong: sum.case_cong option.case_cong prod.case_cong)
qed simp

lemma httpClient_agrees:
  assumes "\<forall>ip port. \<not> isDisallowedIP ip \<longrightarrow> net_dial net ip port = dial' ip port"
  shows "httpClient False (net\<lparr>net_dial := dial'\<rparr>) = httpClient False net"
  by (rule ext) (simp add: httpClient_def httpClient_Do_def follow_agrees [OF assms] cong: sum.case_cong prod.case_cong)

text \<open>
  C9. Neither the claim of a pasted setup token nor a balance refresh can be aimed at an internal
  service, not even by redirects. Whatever the bridge answers, the client sends at most ten
  requests, and every connection it dials goes to an address that is not refused, out of an answer
  the resolver gave; what it does and what it returns would be the same if every
  refused address were unreachable.
\<close>

theorem outbound_allowed:
  assumes "\<forall>ip port. \<not> isDisallowedIP ip \<longrightarrow> dial' ip port = net_dial net ip port"
  shows "(\<forall>q. length (snd (httpClient_Do False net q)) \<le> 10 \<and>
      (\<forall>h \<in> set (snd (httpClient_Do False net q)). \<not> isDisallowedIP (hop_IP h) \<and> resolved net (hop_IP h))) \<and>
    ClaimSetupToken False parse (httpClient False net) tok =
      ClaimSetupToken False parse (httpClient False (net\<lparr>net_dial := dial'\<rparr>)) tok \<and>
    FetchAccounts False parse (httpClient False net) accessURL =
      FetchAccounts False parse (httpClient False (net\<lparr>net_dial := dial'\<rparr>)) accessURL"
proof -
  have "\<forall>ip port. \<not> isDisallowedIP ip \<longrightarrow> net_dial net ip port = dial' ip port" using assms by simp
  note same = httpClient_agrees [OF this]
  have "length (snd (httpClient_Do False net q)) \<le> 10 \<and>
      (\<forall>h \<in> set (snd (httpClient_Do False net q)). \<not> isDisallowedIP (hop_IP h) \<and> resolved net (hop_IP h))" for q
    using follow_hops [OF surjective_pairing] by (simp only: httpClient_Do_def Let_def)
  then show ?thesis by (simp add: same)
qed

text \<open>
  C14. The scheme is checked on the first request only. When the bridge redirects a balance request
  from https to http on the same host, the client follows, and the access credentials go out
  in the clear.
\<close>

theorem redirect_leaves_https:
  assumes "net_parse net url = Inr u" "hu_Scheme u = ''https''" "hu_Hostname u \<noteq> ''''"
    and "safeDialContext False (net_lookupIP net) (net_dial net) (canonicalAddr u) = Inr conn"
    and "net_exchange net conn \<lparr>wq_Method = ''GET'', wq_URL = url, wq_Auth = Some cred\<rparr> = Inr reply"
    and "bp_StatusCode (wy_Reply reply) \<in> {301, 302, 303, 307, 308}" "wy_Location reply \<noteq> ''''"
    and "net_resolve net url (wy_Location reply) = Inr url'" "net_parse net url' = Inr u'"
    and "hu_Scheme u' = ''http''" "hu_Hostname u' = hu_Hostname u"
    and "safeDialContext False (net_lookupIP net) (net_dial net) (canonicalAddr u') = Inr conn'"
  shows "\<exists>h \<in> set (snd (httpClient_Do False net \<lparr>br_Method = ''GET'', br_URL = url, br_BasicAuth = Some cred\<rparr>)).
    hop_Scheme h = ''http'' \<and> hop_Hostname h = hu_Hostname u \<and> hop_Auth h = Some cred"
proof -
  let ?q = "\<lparr>wq_Method = ''GET'', wq_URL = url, wq_Auth = Some cred\<rparr>"
  let ?q' = "\<lparr>wq_Method = ''GET'', wq_URL = url', wq_Auth = Some cred\<rparr>"
  have dialled: "\<exists>ip. safeDialContext False (net_lookupIP net) (\<lambda>ip port. Inr (ip, net_dial net ip port)) addr = Inr (ip, Inr c)"
    if "safeDialContext False (net_lookupIP net) (net_dial net) addr = Inr c" for addr c
    using that by (subst (asm) safeDialContext_outcome) (auto split: sum.splits prod.splits)
  obtain h where one: "round_trip False net ?q = (Inr reply, [h])"
    using dialled [OF assms(4)] assms(1-3,5) by (auto simp: round_trip_def sent_auth_def)
  obtain r2 h2 where two: "round_trip False net ?q' = (r2, [h2])" "hop_Scheme h2 = ''http''"
      "hop_Hostname h2 = hu_Hostname u" "hop_Auth h2 = Some cred"
    using dialled [OF assms(12)] assms(3,9-11) by (auto simp: round_trip_def sent_auth_def)
  have "redirectMethod ''GET'' (bp_StatusCode (wy_Reply reply)) = Some ''GET''"
    using assms(6) by (auto simp: redirectMethod_def)
  then have "next_request net ?q False ?q reply = Inr (Some (False, ?q'))"
    using assms(1,7-9,11) by (simp add: next_request_def bindR_def wrap_error_def isDomainOrSubdomain_def)
  then have "h2 \<in> set (snd (follow (Suc (Suc k)) False net ?q False ?q))" for k
    by (simp add: one two(1) split: sum.split option.split prod.split)
  from this [of 8] have "h2 \<in> set (snd (follow 10 False net ?q False ?q))" by (simp del: follow.simps)
  then show ?thesis using two(2-4) unfolding httpClient_Do_def Let_def by (auto simp del: follow.simps)
qed

section \<open>A bridge that redirects\<close>

text \<open>
  The host \<^verbatim>\<open>b\<close> answers https by a redirect to http, and http by a redirect to \<^verbatim>\<open>i\<close>, an
  internal host; the connection is the pair of address and port.
\<close>

definition redirecting_net :: "(ip \<times> string) net" where
  "redirecting_net =
     \<lparr>net_parse = (\<lambda>s. Inr \<lparr>hu_Scheme = (if take 5 s = ''https'' then ''https'' else ''http''),
        hu_Hostname = (if s = ''http://i/'' then ''i'' else ''b''), hu_Port = '''', hu_User = None\<rparr>),
      net_resolve = (\<lambda>base loc. Inr loc),
      net_lookupIP = (\<lambda>h. Inr (if h = ''i'' then [[10, 0, 0, 7]] else [[172, 32, 0, 2]])),
      net_dial = (\<lambda>ip port. Inr (ip, port)),
      net_exchange = (\<lambda>conn q. Inr \<lparr>wy_Location = (if snd conn = ''443'' then ''http://b/accounts'' else ''http://i/''),
        wy_Reply = \<lparr>bp_StatusCode = 302, bp_Body = Inr '''', bp_Json = Inl ''EOF''\<rparr>\<rparr>),
      net_error = (\<lambda>m url e. m @ '' '' @ url @ '': '' @ e)\<rparr>"

lemma redirecting_dials:
  "isDisallowedIP [10, 0, 0, 7]" "\<not> isDisallowedIP [172, 32, 0, 2]"
  using isDisallowedIP_v4 [of "[172, 32, 0, 2]" 172 32 0 2] isDisallowedIP_v4 [of "[10, 0, 0, 7]" 10 0 0 7]
  by (simp_all add: To4_def)

lemma redirecting_splits: "SplitHostPort ''b:443'' = Inr (''b'', ''443'')" "SplitHostPort ''b:80'' = Inr (''b'', ''80'')"
  by code_simp+

theorem redirect_leaves_https_witness:
  "\<exists>h \<in> set (snd (httpClient_Do False redirecting_net
     \<lparr>br_Method = ''GET'', br_URL = ''https://b/accounts'', br_BasicAuth = Some (''u'', ''p'')\<rparr>)).
   hop_Scheme h = ''http'' \<and> hop_Auth h = Some (''u'', ''p'')"
proof -
  let ?u = "\<lparr>hu_Scheme = ''https'', hu_Hostname = ''b'', hu_Port = '''', hu_User = None\<rparr>"
  have dial: "safeDialContext False (net_lookupIP redirecting_net) (net_dial redirecting_net) ''b:443'' = Inr ([172, 32, 0, 2], ''443'')"
    "safeDialContext False (net_lookupIP redirecting_net) (net_dial redirecting_net) ''b:80'' = Inr ([172, 32, 0, 2], ''80'')"
    by (simp_all add: safeDialContext_def redirecting_net_def redirecting_splits redirecting_dials)
  have addr: "canonicalAddr ?u = ''b:443''" "canonicalAddr (?u\<lparr>hu_Scheme := ''http''\<rparr>) = ''b:80''"
    by (simp_all add: canonicalAddr_def JoinHostPort_def)
  have "\<exists>h \<in> set (snd (httpClient_Do False redirecting_net
     \<lparr>br_Method = ''GET'', br_URL = ''https://b/accounts'', br_BasicAuth = Some (''u'', ''p'')\<rparr>)).
     hop_Scheme h = ''http'' \<and> hop_Hostname h = hu_Hostname ?u \<and> hop_Auth h = Some (''u'', ''p'')"
    by (rule redirect_leaves_https [where u = "?u" and u' = "?u\<lparr>hu_Scheme := ''http''\<rparr>" and url' = "''http://b/accounts''"
          and conn = "([172, 32, 0, 2], ''443'')" and conn' = "([172, 32, 0, 2], ''80'')"
          and reply = "\<lparr>wy_Location = ''http://b/accounts'', wy_Reply = \<lparr>bp_StatusCode = 302, bp_Body = Inr '''', bp_Json = Inl ''EOF''\<rparr>\<rparr>"])
      (simp_all only: addr dial, simp_all add: redirecting_net_def)
  then show ?thesis by auto
qed

text \<open>The internal host is not reached, even at the end of the chain.\<close>

theorem outbound_allowed_witness:
  "let hs = snd (httpClient_Do False redirecting_net
       \<lparr>br_Method = ''GET'', br_URL = ''https://b/accounts'', br_BasicAuth = Some (''u'', ''p'')\<rparr>)
   in length hs \<le> 10 \<and> [10, 0, 0, 7] \<notin> hop_IP ` set hs"
proof -
  have "\<forall>ip port. \<not> isDisallowedIP ip \<longrightarrow> net_dial redirecting_net ip port = net_dial redirecting_net ip port" by simp
  from outbound_allowed [OF this, THEN conjunct1, THEN spec, of "\<lparr>br_Method = ''GET'', br_URL = ''https://b/accounts'',
      br_BasicAuth = Some (''u'', ''p'')\<rparr>"]
  show ?thesis using redirecting_dials(1) by (auto simp: Let_def)
qed

end
