(* ===== verification/Progress.thy ===== *)
theory Progress
  imports System
begin

text \<open>
  What the process gets done: along any run whose generator ticks often enough, every due day of
  a bill is recorded and stays recorded, whatever else happens in between.
\<close>

section \<open>Ticks of the generator\<close>

text \<open>
  A tick whose statements succeed, in a zone whose days the schedule engine can count,
  with room for the instances in the counter of the table.
\<close>

definition generated :: "app \<Rightarrow> env \<Rightarrow> process \<Rightarrow> process \<Rightarrow> bool" where
  "generated A E p p' \<longleftrightarrow>
     moment A E \<and> (\<exists>get. p' = p\<lparr>proc_server := gr_work (Run A InstanceGeneration) E get (proc_server p)\<rparr>) \<and>
     db_faults (sys_db (proc_server p)) = [] \<and> regular_location (env_tz E) (time_loc (env_now E)) \<and>
     seq_instances (sys_db (proc_server p)) + int (length (bt_bill_definitions (sys_db (proc_server p)))) *
       int (nat (env_BillInstanceLookaheadDays E + 1)) \<le> 2 ^ 31"

definition today :: "env \<Rightarrow> int" where
  "today E = day_number (time_date (env_tz E) (env_now E))"

definition lookahead :: "app \<Rightarrow> int" where
  "lookahead A = cfg_BillInstanceLookaheadDays (app_Cfg A)"

text \<open>The bill exists and is due on the day.\<close>

definition bill_due :: "app \<Rightarrow> int \<Rightarrow> date \<Rightarrow> process \<Rightarrow> bool" where
  "bill_due A rid d p \<longleftrightarrow>
     (\<exists>b \<in> set (bt_bill_definitions (sys_db (proc_server p))). bd_ID b = rid \<and> due_on (app_tz A) b d)"

lemma generated_records:
  assumes "generated A E p p'" "db_ok (sys_db (proc_server p))" "bill_due A rid d p" "valid_date d"
    and "today E \<le> day_number d" "day_number d \<le> today E + lookahead A"
  shows "(rid, d) \<in> occurrences (sys_db (proc_server p'))"
proof -
  let ?s = "sys_db (proc_server p)"
  have E: "env_tz E = app_tz A" "env_BillInstanceLookaheadDays E = lookahead A"
    using assms(1) by (auto simp: generated_def moment_def lookahead_def)
  have reg: "regular_location (env_tz E) (time_loc (env_now E))"
    using assms(1) unfolding generated_def by blast
  have up: "db_faults ?s = []" "seq_instances ?s + int (length (bt_bill_definitions ?s)) *
      int (nat (env_BillInstanceLookaheadDays E + 1)) \<le> 2 ^ 31"
    using assms(1) unfolding generated_def by blast+
  have p': "sys_db (proc_server p') = generateInstances E ?s"
    using assms(1) by (auto simp: generated_def goroutine_defs)
  have "d = civil (day_number d)" using assms(4) by (simp add: civil_day_number)
  then have "d \<in> set (date_range (time_date (env_tz E) (env_now E)) (window_end (env_tz E) (env_now E) (lookahead A)))"
    using assms(5,6) by (auto simp: date_range_def window_end_def day_number_civil today_def image_iff)
  then have "(rid, d) \<in> due_in_window E ?s"
    using assms(3) by (auto simp: due_in_window_def bill_due_def E)
  then show ?thesis
    using generateInstances_run [OF reg assms(2) up] unfolding p' by blast
qed

text \<open>What is recorded stays recorded while the bill exists.\<close>

lemma recorded_stays:
  assumes "db_ok (sys_db (proc_server p))" "(step A)\<^sup>*\<^sup>* p p'"
    and "(rid, d) \<in> occurrences (sys_db (proc_server p))" "bill_due A rid d p'"
  shows "(rid, d) \<in> occurrences (sys_db (proc_server p'))"
proof -
  obtain i where i: "i \<in> set (bt_bill_instances (sys_db (proc_server p)))" "bi_BillDefinitionID i = rid" "bi_DueDate i = d"
    using assms(3) by (auto simp: occurrences_def)
  then have "settled False (bi_ID i) rid d (sys_db (proc_server p))" by (auto simp: settled_def)
  then have "settled False (bi_ID i) rid d (sys_db (proc_server p'))"
    using system_settled.steps_keep [OF assms(2)] assms(1) by blast
  then show ?thesis using assms(4) unfolding settled_def bill_due_def occurrences_iff by blast
qed

lemma path_steps:
  assumes "\<forall>n < N. step A (\<sigma> n) (\<sigma> (Suc n))" "m \<le> k" "k \<le> N"
  shows "(step A)\<^sup>*\<^sup>* (\<sigma> m) (\<sigma> k)"
  using assms(2,3)
proof (induction k rule: dec_induct)
  case (step k)
  then show ?case using assms(1) by (meson Suc_le_lessD less_imp_le_nat rtranclp.rtrancl_into_rtrancl)
qed blast

section \<open>Some window catches the day\<close>

text \<open>
  Among ticks that never leave a day between the end of one window and the start of the
  next, some tick's window contains the day, if the first starts before the day and the
  last reaches it.
\<close>

lemma some_window:
  fixes day :: "nat \<Rightarrow> int" and l n :: int
  assumes "s \<in> T" "t \<in> T" "s \<le> t" "day s \<le> n" "n \<le> day t + l"
    and gap: "\<forall>m \<in> T. \<forall>m' \<in> T. s \<le> m \<and> m < m' \<and> m' \<le> t \<and> (\<forall>k \<in> T. \<not> (m < k \<and> k < m')) \<longrightarrow>
      day m' \<le> day m + l + 1"
  shows "\<exists>m \<in> T. s \<le> m \<and> m \<le> t \<and> day m \<le> n \<and> n \<le> day m + l"
proof -
  define m where "m = (LEAST m. m \<in> T \<and> s \<le> m \<and> n \<le> day m + l)"
  have m: "m \<in> T \<and> s \<le> m \<and> n \<le> day m + l"
    unfolding m_def by (rule LeastI [of _ t]) (use assms in simp)
  have least: "\<not> n \<le> day k + l" if "k \<in> T" "s \<le> k" "k < m" for k
    using that not_less_Least unfolding m_def by blast
  have "m \<le> t" unfolding m_def by (rule Least_le) (use assms in simp)
  have "day m \<le> n"
  proof (cases "m = s")
    case False
    define K where "K = {k \<in> T. s \<le> k \<and> k < m}"
    have K: "finite K" "K \<noteq> {}" using False m assms(1) by (auto simp: K_def)
    define p where "p = Max K"
    have p: "p \<in> T" "s \<le> p" "p < m" using Max_in [OF K] by (auto simp: p_def K_def)
    have "\<not> (p < k \<and> k < m)" if "k \<in> T" for k
    proof
      assume k: "p < k \<and> k < m"
      then have "k \<in> K" using that p(2) by (simp add: K_def)
      then show False using Max_ge [OF K(1)] k by (fastforce simp: p_def)
    qed
    then have "day m \<le> day p + l + 1" using gap m p \<open>m \<le> t\<close> by blast
    then show ?thesis using least [OF p] by linarith
  qed (use assms in simp)
  then show ?thesis using m \<open>m \<le> t\<close> by blast
qed

text \<open>
  C6. No due day slips through. Take any run of the process, with requests, other jobs,
  failures and restarts interleaved with ticks of the generator of which some succeed. If the
  windows of the successful ticks leave no day out (consecutive ones start at most the
  look-ahead and one day apart), the first starts on or before a day, the last reaches
  it, and the bill exists and is due on that day meanwhile, then one of these ticks
  records the occurrence, and it is still recorded at every later moment of the run.
\<close>

theorem due_day_gets_recorded:
  assumes "\<forall>n < N. step A (\<sigma> n) (\<sigma> (Suc n))" "db_ok (sys_db (proc_server (\<sigma> 0)))"
    and ticks: "\<forall>m \<in> T. m < N \<and> generated A (E m) (\<sigma> m) (\<sigma> (Suc m))"
    and gap: "\<forall>m \<in> T. \<forall>m' \<in> T. s \<le> m \<and> m < m' \<and> m' \<le> t \<and> (\<forall>k \<in> T. \<not> (m < k \<and> k < m')) \<longrightarrow>
      today (E m') \<le> today (E m) + lookahead A + 1"
    and "s \<in> T" "today (E s) \<le> day_number d" "t \<in> T" "day_number d \<le> today (E t) + lookahead A" "s \<le> t"
    and bill: "\<forall>k. s \<le> k \<and> k \<le> N \<longrightarrow> bill_due A rid d (\<sigma> k)" and "valid_date d"
  shows "\<exists>m \<in> T. s \<le> m \<and> m \<le> t \<and> (\<forall>k. m < k \<and> k \<le> N \<longrightarrow> (rid, d) \<in> occurrences (sys_db (proc_server (\<sigma> k))))"
proof -
  obtain m where m: "m \<in> T" "s \<le> m" "m \<le> t" "today (E m) \<le> day_number d" "day_number d \<le> today (E m) + lookahead A"
    using some_window [of s T t "\<lambda>m. today (E m)" "day_number d" "lookahead A"] assms(5-9) gap by blast
  then have t: "m < N" "generated A (E m) (\<sigma> m) (\<sigma> (Suc m))" using ticks by blast+
  have ok: "db_ok (sys_db (proc_server (\<sigma> k)))" if "k \<le> N" for k
    using system_schema.steps_keep [OF path_steps [OF assms(1) _ that]] assms(2) by blast
  have "bill_due A rid d (\<sigma> m)" using bill m(2) t(1) by simp
  then have rec: "(rid, d) \<in> occurrences (sys_db (proc_server (\<sigma> (Suc m))))"
    using generated_records [OF t(2) ok _ assms(11) m(4,5)] t(1) by simp
  have "(rid, d) \<in> occurrences (sys_db (proc_server (\<sigma> k)))" if k: "m < k" "k \<le> N" for k
  proof (rule recorded_stays [OF ok path_steps [OF assms(1)] rec])
    show "bill_due A rid d (\<sigma> k)" using bill k m(2) by simp
  qed (use k in auto)
  then show ?thesis using m by blast
qed

text \<open>One tick on 15 January records the due day of 28 February, six weeks ahead.\<close>

theorem due_day_gets_recorded_witness:
  "\<exists>p'. generated hasty_app sample_env running p' \<and> (2, Date 2026 2 28) \<notin> occurrences (sys_db (proc_server running)) \<and>
     (2, Date 2026 2 28) \<in> occurrences (sys_db (proc_server p'))"
proof -
  define p' where "p' = running\<lparr>proc_server :=
    gr_work (Run hasty_app InstanceGeneration) sample_env (\<lambda>_. Inl ''offline'') (proc_server running)\<rparr>"
  define \<sigma> where "\<sigma> k = (if k = (0::nat) then running else p')" for k
  have db: "sys_db (proc_server running) = sample_db" by (simp add: running_def sample_server_def)
  have gen: "generated hasty_app sample_env running p'"
    unfolding generated_def db
  proof (intro conjI)
    show "moment hasty_app sample_env" by (rule hasty_moment)
    show "\<exists>get. p' = running\<lparr>proc_server := gr_work (Run hasty_app InstanceGeneration) sample_env get (proc_server running)\<rparr>"
      unfolding p'_def by blast
  qed (simp_all add: sample_env_def sample_db_def empty_db_def regular_fixed_tz)
  have "step hasty_app running p'"
    unfolding p'_def by (rule tick [OF _ hasty_moment]) (simp_all add: running_def)
  then have path: "\<forall>n < 1. step hasty_app (\<sigma> n) (\<sigma> (Suc n))" by (simp add: \<sigma>_def)
  have ok: "db_ok (sys_db (proc_server (\<sigma> 0)))" by (simp add: \<sigma>_def db sample_db_ok)
  have ticks: "\<forall>m \<in> {0}. m < 1 \<and> generated hasty_app sample_env (\<sigma> m) (\<sigma> (Suc m))"
    using gen by (simp add: \<sigma>_def)
  have days: "today sample_env = 739630" "day_number (Date 2026 2 28) = 739674" "lookahead hasty_app = 60"
    by code_simp+
  have "rules_of (sys_db (proc_server p')) = rules_of sample_db"
    using rules.generateInstances_keeps [of sample_db "rules_of sample_db" sample_env] db
    by (simp add: p'_def goroutine_defs)
  then have "(day31_bill\<lparr>bd_ID := 2, bd_Name := ''Water''\<rparr>)\<lparr>bd_AmountCents := 0\<rparr> \<in> set (rules_of (sys_db (proc_server p')))"
    by (simp add: rules_of_def sample_db_def)
  then obtain b where b: "b \<in> set (bt_bill_definitions (sys_db (proc_server p')))"
      "b\<lparr>bd_AmountCents := 0\<rparr> = (day31_bill\<lparr>bd_ID := 2, bd_Name := ''Water''\<rparr>)\<lparr>bd_AmountCents := 0\<rparr>"
    by (auto simp: rules_of_def)
  have due: "due_on (fixed_tz 0) (c\<lparr>bd_AmountCents := n\<rparr>) day = due_on (fixed_tz 0) c day" for c n day
    by (simp add: due_on_def split: ScheduleType.split)
  have water: "due_on (fixed_tz 0) (day31_bill\<lparr>bd_ID := 2, bd_Name := ''Water''\<rparr>) (Date 2026 2 28)"
    by code_simp
  have tz: "app_tz hasty_app = fixed_tz 0" by (simp add: hasty_app_def sample_app_def)
  have "bd_ID b = 2"
    using arg_cong [OF b(2), of bd_ID] by simp
  moreover have "due_on (fixed_tz 0) b (Date 2026 2 28)"
    using water due [of 0 b] due [of 0 "day31_bill\<lparr>bd_ID := 2, bd_Name := ''Water''\<rparr>"] b(2) by simp
  ultimately have "bill_due hasty_app 2 (Date 2026 2 28) p'"
    using b(1) by (auto simp: bill_due_def tz)
  moreover have "bill_due hasty_app 2 (Date 2026 2 28) running"
    using water by (simp add: bill_due_def tz db) (simp add: sample_db_def)
  ultimately have bill: "\<forall>k. 0 \<le> k \<and> k \<le> 1 \<longrightarrow> bill_due hasty_app 2 (Date 2026 2 28) (\<sigma> k)" by (simp add: \<sigma>_def)
  have "(2, Date 2026 2 28) \<in> occurrences (sys_db (proc_server (\<sigma> 1)))"
    using due_day_gets_recorded [OF path ok ticks, of 0 0 "Date 2026 2 28" 2] bill days
    by (simp add: valid_date_def days_in_def)
  moreover have "(2, Date 2026 2 28) \<notin> occurrences sample_db" by (simp add: occurrences_def sample_db_def)
  ultimately show ?thesis using gen db by (intro exI [of _ p']) (simp add: \<sigma>_def)
qed

end
