(* ===== verification/Ledger.thy ===== *)
theory Ledger
  imports Events
begin

text \<open>
  An abstract view of the bill tables: a ledger that says for every bill and day whether
  the bill is due that day and, if so, whether it has been paid. The statements on
  instances and the generator implement four operations of the ledger, and the feed of
  unpaid bills is an observation of it. Ids, counters and the order of rows are forgotten.
\<close>

section \<open>The abstract ledger\<close>

type_synonym ledger = "int \<times> date \<rightharpoonup> bool"

definition ledger_ensure :: "(int \<times> date) set \<Rightarrow> ledger \<Rightarrow> ledger" where
  "ledger_ensure ks L = (\<lambda>k. if L k = None \<and> k \<in> ks then Some False else L k)"

definition ledger_pay :: "int \<times> date \<Rightarrow> ledger \<Rightarrow> ledger" where
  "ledger_pay k L = L(k \<mapsto> True)"

definition ledger_forget :: "int \<Rightarrow> ledger \<Rightarrow> ledger" where
  "ledger_forget rid L = (\<lambda>k. if fst k = rid then None else L k)"

definition ledger_owed :: "date \<Rightarrow> ledger \<Rightarrow> (int \<times> date) set" where
  "ledger_owed day L = {k. L k = Some False \<and> snd k \<le> day}"

section \<open>The abstraction\<close>

definition occurrence_of :: "BillInstance \<Rightarrow> int \<times> date" where
  "occurrence_of i = (bi_BillDefinitionID i, bi_DueDate i)"

definition rows_ledger :: "BillInstance list \<Rightarrow> ledger" where
  "rows_ledger rows = map_of (map (\<lambda>i. (occurrence_of i, bi_Paid i)) rows)"

definition ledger_of :: "db \<Rightarrow> ledger" where
  "ledger_of s = rows_ledger (bt_bill_instances s)"

lemma rows_distinct: "db_ok s \<Longrightarrow> distinct (map occurrence_of (bt_bill_instances s))"
  by (simp add: db_ok_def instances_ok_def occurrence_of_def [abs_def])

lemma rows_ledger_Some:
  assumes "distinct (map occurrence_of rows)"
  shows "rows_ledger rows k = Some p \<longleftrightarrow> (\<exists>i \<in> set rows. occurrence_of i = k \<and> bi_Paid i = p)"
proof -
  have "distinct (map fst (map (\<lambda>i. (occurrence_of i, bi_Paid i)) rows))"
    using assms by (simp add: comp_def)
  then show ?thesis unfolding rows_ledger_def by (subst map_of_eq_Some_iff) auto
qed

lemma ledger_of_Some:
  "db_ok s \<Longrightarrow> ledger_of s k = Some p \<longleftrightarrow> (\<exists>i \<in> set (bt_bill_instances s). occurrence_of i = k \<and> bi_Paid i = p)"
  by (simp add: ledger_of_def rows_ledger_Some rows_distinct)

lemma ledger_of_None: "ledger_of s k = None \<longleftrightarrow> k \<notin> occurrences s"
  by (simp add: ledger_of_def rows_ledger_def map_of_eq_None_iff occurrences_def occurrence_of_def image_image)

text \<open>Rows that were there are still there and none that is paid is new: a set of days was added.\<close>

lemma ledger_grows:
  assumes "db_ok s" "db_ok s'" "set (bt_bill_instances s) \<subseteq> set (bt_bill_instances s')"
    and "{i \<in> set (bt_bill_instances s'). bi_Paid i} \<subseteq> set (bt_bill_instances s)"
    and "occurrences s' = occurrences s \<union> ks"
  shows "ledger_of s' = ledger_ensure ks (ledger_of s)"
proof
  fix k
  show "ledger_of s' k = ledger_ensure ks (ledger_of s) k"
  proof (cases "ledger_of s k")
    case (Some p)
    then obtain i where "i \<in> set (bt_bill_instances s)" "occurrence_of i = k" "bi_Paid i = p"
      using ledger_of_Some [OF assms(1)] by blast
    then have "ledger_of s' k = Some p" using ledger_of_Some [OF assms(2)] assms(3) by blast
    then show ?thesis by (simp add: ledger_ensure_def Some)
  next
    case None
    then have old: "k \<notin> occurrences s" by (simp add: ledger_of_None)
    have "ledger_of s' k \<noteq> Some True"
      using old assms(4) unfolding ledger_of_Some [OF assms(2)] occurrences_def occurrence_of_def by blast
    moreover have "ledger_of s' k = None \<longleftrightarrow> k \<notin> ks"
      using old assms(5) by (simp add: ledger_of_None)
    ultimately show ?thesis
      using None by (cases "ledger_of s' k") (auto simp: ledger_ensure_def)
  qed
qed

interpretation payments: job_invariant "\<lambda>s. {i \<in> set (bt_bill_instances s). bi_Paid i} \<subseteq> A" for A
proof (unfold_locales, goal_cases)
  case (4 tz rid t)
  show ?case
    unfolding BillInstanceStore_EnsureInstance_def
    by (rule preserves_sql) (auto simp: fault_free_def preserves_def fail_def storing_def Let_def)
qed (rule preserves_job_reads, simp add: fault_free_def | simp add: preserves_def bt_bill_instances_kept)+

section \<open>The store implements the ledger\<close>

lemma ledger_EnsureInstance:
  assumes "db_ok s" "db_faults s = []" "int4 (seq_instances s)" "int4 rid" "rid \<in> bd_ID ` set (bt_bill_definitions s)"
  shows "ledger_of (snd (BillInstanceStore_EnsureInstance tz rid t s)) =
    ledger_ensure {(rid, time_date tz t)} (ledger_of s)"
proof (rule ledger_grows [OF assms(1)])
  note run = EnsureInstance_run [OF assms(1-3,5,4), of tz t]
  show "db_ok (snd (BillInstanceStore_EnsureInstance tz rid t s))"
    by (rule preservesD [OF EnsureInstance_ok assms(1)])
  show "set (bt_bill_instances s) \<subseteq> set (bt_bill_instances (snd (BillInstanceStore_EnsureInstance tz rid t s)))"
    unfolding run by auto
  show "{i \<in> set (bt_bill_instances (snd (BillInstanceStore_EnsureInstance tz rid t s))). bi_Paid i} \<subseteq>
      set (bt_bill_instances s)"
    unfolding run by auto
  show "occurrences (snd (BillInstanceStore_EnsureInstance tz rid t s)) = occurrences s \<union> {(rid, time_date tz t)}"
    unfolding run by (auto simp: occurrences_def)
qed

lemma ledger_generateInstances:
  assumes "regular_location (env_tz E) (time_loc (env_now E))" "db_ok s" "db_faults s = []"
    and "seq_instances s + int (length (bt_bill_definitions s)) * int (nat (env_BillInstanceLookaheadDays E + 1)) \<le> 2 ^ 31"
  shows "ledger_of (generateInstances E s) = ledger_ensure (due_in_window E s) (ledger_of s)"
proof (rule ledger_grows [OF assms(2)])
  show "db_ok (generateInstances E s)" "occurrences (generateInstances E s) = occurrences s \<union> due_in_window E s"
    using generateInstances_run [OF assms] by auto
  show "set (bt_bill_instances s) \<subseteq> set (bt_bill_instances (generateInstances E s))"
    by (rule history.generateInstances_keeps) simp
  show "{i \<in> set (bt_bill_instances (generateInstances E s)). bi_Paid i} \<subseteq> set (bt_bill_instances s)"
    by (rule payments.generateInstances_keeps) auto
qed

lemma rows_ledger_pay:
  assumes "distinct (map bi_ID rows)" "distinct (map occurrence_of rows)" "i \<in> set rows"
  shows "rows_ledger (update_where (\<lambda>j. bi_ID j = bi_ID i) (\<lambda>j. j\<lparr>bi_Paid := True, bi_PaidAt := t\<rparr>) rows) =
    ledger_pay (occurrence_of i) (rows_ledger rows)"
proof -
  have key: "bi_ID j = bi_ID i \<longleftrightarrow> occurrence_of j = occurrence_of i" if "j \<in> set rows" for j
    using assms that by (metis distinct_map inj_onD)
  have "map (\<lambda>j. (occurrence_of j, bi_Paid j)) (update_where (\<lambda>j. bi_ID j = bi_ID i)
      (\<lambda>j. j\<lparr>bi_Paid := True, bi_PaidAt := t\<rparr>) rows) =
    map (\<lambda>j. (occurrence_of j, if occurrence_of j = occurrence_of i then True else bi_Paid j)) rows"
    unfolding update_where_def map_map comp_def
    by (rule map_cong [OF refl]) (simp add: key, simp add: occurrence_of_def)
  moreover have "map_of (map (\<lambda>j. (occurrence_of j, if occurrence_of j = k then True else bi_Paid j)) js) x =
      (if x = k \<and> k \<in> occurrence_of ` set js then Some True
       else map_of (map (\<lambda>j. (occurrence_of j, bi_Paid j)) js) x)" for js k x
    by (induction js) auto
  ultimately show ?thesis using assms(3) by (simp add: rows_ledger_def ledger_pay_def fun_eq_iff)
qed

lemma ledger_MarkPaid:
  assumes "db_ok s" "db_faults s = []" "i \<in> set (bt_bill_instances s)"
  shows "ledger_of (snd (BillInstanceStore_MarkPaid (bi_ID i) s)) = ledger_pay (occurrence_of i) (ledger_of s)"
proof -
  have keys: "keys_ok bi_ID (bt_bill_instances s) (seq_instances s)"
    using assms(1) by (simp add: db_ok_def instances_ok_def)
  then have "distinct (map bi_ID (bt_bill_instances s))" by (simp add: keys_ok_def)
  from rows_ledger_pay [OF this rows_distinct [OF assms(1)] assms(3)]
  show ?thesis
    by (simp add: ledger_of_def MarkPaid_run [OF assms(2) keys_ok_int4 [OF keys assms(3)] assms(3)])
qed

lemma ledger_Delete:
  assumes "db_faults s = []" "int4 rid"
  shows "ledger_of (snd (BillDefinitionStore_Delete rid s)) = ledger_forget rid (ledger_of s)"
proof -
  have "rows_ledger (delete_where (\<lambda>i. bi_BillDefinitionID i = rid) rows) = ledger_forget rid (rows_ledger rows)" for rows
    by (induction rows) (auto simp: delete_where_def rows_ledger_def ledger_forget_def occurrence_of_def fun_eq_iff)
  then show ?thesis using assms by (simp add: BillDefinitionStore_Delete_def sql_up ledger_of_def)
qed

lemma ledger_ListUpcomingUnpaid:
  assumes "db_ok s" "db_faults s = []"
  shows "\<exists>vs. BillInstanceStore_ListUpcomingUnpaid tz to s = (Inr vs, s) \<and>
    (\<lambda>v. (v_DefinitionID v, time_date tz (v_DueDate v))) ` set vs = ledger_owed (time_date tz to) (ledger_of s)"
proof -
  let ?p = "\<lambda>i. bi_Paid i = False \<and> bi_DueDate i \<le> time_date tz to"
  have "map (\<lambda>v. (v_DefinitionID v, time_date tz (v_DueDate v))) (instance_views tz ?p s) =
      map (\<lambda>i. (bi_BillDefinitionID i, time_date tz (local_midnight tz UTC (bi_DueDate i))))
        (sort_by (\<le>) bi_DueDate (filter ?p (bt_bill_instances s)))"
    by (rule map_instance_views [OF assms(1)]) (simp add: instance_view_def)
  from arg_cong [OF this, of set, unfolded set_map set_sort_by set_filter]
  have "(\<lambda>v. (v_DefinitionID v, time_date tz (v_DueDate v))) ` set (instance_views tz ?p s) =
      (\<lambda>i. (bi_BillDefinitionID i, time_date tz (local_midnight tz UTC (bi_DueDate i)))) ` {i \<in> set (bt_bill_instances s). ?p i}" .
  also have "\<dots> = occurrence_of ` {i \<in> set (bt_bill_instances s). ?p i}"
    by (rule image_cong [OF refl]) (use assms(1) in \<open>simp add: db_ok_def instances_ok_def occurrence_of_def\<close>)
  also have "\<dots> = ledger_owed (time_date tz to) (ledger_of s)"
    unfolding ledger_owed_def ledger_of_Some [OF assms(1)] by (auto simp: occurrence_of_def)
  finally show ?thesis
    using assms(2) by (simp add: BillInstanceStore_ListUpcomingUnpaid_def sql_up)
qed

section \<open>The refinement\<close>

text \<open>
  C2. The bill tables are a faithful implementation of a ledger of occurrences. On the
  abstraction, the generator adds exactly the days the rules call for as unpaid and touches
  no other entry, ensuring an occurrence adds that one, marking an instance paid sets
  its entry and no other, deleting a bill forgets its entries, and the list of unpaid
  bills shown by the kiosk and the calendar reads off exactly the entries that are owed. (No
  statement fails, the serial counter has room for the new ids, and the zone is regular.)
\<close>

theorem store_refines_ledger:
  assumes "db_ok s" "db_faults s = []" "regular_location (env_tz E) (time_loc (env_now E))"
    and "seq_instances s + int (length (bt_bill_definitions s)) * int (nat (env_BillInstanceLookaheadDays E + 1)) \<le> 2 ^ 31"
    and "int4 (seq_instances s)" "b \<in> set (bt_bill_definitions s)" "i \<in> set (bt_bill_instances s)"
  shows "ledger_of (generateInstances E s) = ledger_ensure (due_in_window E s) (ledger_of s) \<and>
    ledger_of (snd (BillInstanceStore_EnsureInstance tz (bd_ID b) t s)) =
      ledger_ensure {(bd_ID b, time_date tz t)} (ledger_of s) \<and>
    ledger_of (snd (BillInstanceStore_MarkPaid (bi_ID i) s)) = ledger_pay (occurrence_of i) (ledger_of s) \<and>
    ledger_of (snd (BillDefinitionStore_Delete (bd_ID b) s)) = ledger_forget (bd_ID b) (ledger_of s) \<and>
    (\<exists>vs. BillInstanceStore_ListUpcomingUnpaid tz t s = (Inr vs, s) \<and>
      (\<lambda>v. (v_DefinitionID v, time_date tz (v_DueDate v))) ` set vs = ledger_owed (time_date tz t) (ledger_of s))"
proof -
  have "keys_ok bd_ID (bt_bill_definitions s) (seq_definitions s)"
    using assms(1) by (simp add: db_ok_def definitions_ok_def)
  then have id4: "int4 (bd_ID b)" using assms(6) by (rule keys_ok_int4)
  have "bd_ID b \<in> bd_ID ` set (bt_bill_definitions s)" using assms(6) by (rule imageI)
  then show ?thesis
    by (intro conjI ledger_generateInstances ledger_EnsureInstance ledger_MarkPaid ledger_Delete
        ledger_ListUpcomingUnpaid assms id4)
qed

theorem store_refines_ledger_witness:
  "ledger_of sample_db (1, Date 2026 2 28) = Some False \<and>
   ledger_of (snd (BillInstanceStore_MarkPaid 1 sample_db)) (1, Date 2026 2 28) = Some True \<and>
   ledger_of (snd (BillDefinitionStore_Delete 1 sample_db)) (1, Date 2026 2 28) = None"
proof -
  define b where "b = day31_bill\<lparr>bd_ID := 1\<rparr>"
  define i where "i = \<lparr>bi_ID = 1, bi_BillDefinitionID = 1, bi_DueDate = Date 2026 2 28, bi_Paid = False, bi_PaidAt = None\<rparr>"
  have pre: "db_faults sample_db = []" "regular_location (env_tz sample_env) (time_loc (env_now sample_env))"
    "seq_instances sample_db + int (length (bt_bill_definitions sample_db)) *
      int (nat (env_BillInstanceLookaheadDays sample_env + 1)) \<le> 2 ^ 31"
    "int4 (seq_instances sample_db)" "b \<in> set (bt_bill_definitions sample_db)" "i \<in> set (bt_bill_instances sample_db)"
    by (simp_all add: sample_env_def sample_db_def empty_db_def regular_fixed_tz int4_def b_def i_def)
  have "ledger_of sample_db (1, Date 2026 2 28) = Some False"
    by (simp add: ledger_of_def rows_ledger_def sample_db_def occurrence_of_def)
  then show ?thesis
    using store_refines_ledger [OF sample_db_ok pre, of "fixed_tz 0" "sample_time 0"]
    by (simp add: ledger_pay_def ledger_forget_def i_def b_def occurrence_of_def)
qed

end
