(* ===== verification/Logging.thy ===== *)
theory Logging
  imports Http
begin

text \<open>
  \<^verbatim>\<open>internal/logging/logging.go\<close>: the level and the format taken from the environment, and
  the line a call writes, if it writes one. The handlers and jobs of the model do not
  log; what they would log reaches nobody but the operator.
\<close>

section \<open>Levels and formats\<close>

datatype Level = LevelDebug | LevelInfo | LevelWarn | LevelError

datatype OutputFormat = FormatText | FormatJSON

fun level_rank :: "Level \<Rightarrow> nat" where
  "level_rank LevelDebug = 0"
| "level_rank LevelInfo = 1"
| "level_rank LevelWarn = 2"
| "level_rank LevelError = 3"

lemma level_rank_inject: "level_rank a = level_rank b \<Longrightarrow> a = b"
  by (cases a; cases b) simp_all

instantiation Level :: linorder
begin

definition less_eq_Level :: "Level \<Rightarrow> Level \<Rightarrow> bool" where
  "less_eq_Level a b \<longleftrightarrow> level_rank a \<le> level_rank b"

definition less_Level :: "Level \<Rightarrow> Level \<Rightarrow> bool" where
  "less_Level a b \<longleftrightarrow> level_rank a < level_rank b"

instance
proof
  show "a \<le> b \<Longrightarrow> b \<le> a \<Longrightarrow> a = b" for a b :: Level
    unfolding less_eq_Level_def by (rule level_rank_inject) (rule order_antisym)
qed (auto simp: less_eq_Level_def less_Level_def)

end

fun Level_String :: "Level \<Rightarrow> string" where
  "Level_String LevelDebug = ''debug''"
| "Level_String LevelWarn = ''warn''"
| "Level_String LevelError = ''error''"
| "Level_String LevelInfo = ''info''"

fun level_tag :: "Level \<Rightarrow> string" where
  "level_tag LevelDebug = ''DEBUG''"
| "level_tag LevelWarn = ''WARN''"
| "level_tag LevelError = ''ERROR''"
| "level_tag LevelInfo = ''INFO''"

text \<open>
  \<^verbatim>\<open>strings.ToLower\<close> as far as a comparison with a lower-case ASCII word can tell: besides
  the ASCII capitals only the Kelvin sign and the dotted capital I become ASCII letters.
\<close>

fun lower_text :: "string \<Rightarrow> string" where
  "lower_text [] = []"
| "lower_text (c # cs) =
     (if c = CHR 0xE2 \<and> take 2 cs = [CHR 0x84, CHR 0xAA] then CHR ''k'' # lower_text (drop 2 cs)
      else if c = CHR 0xC4 \<and> take 1 cs = [CHR 0xB0] then CHR ''i'' # lower_text (drop 1 cs)
      else lower_char c # lower_text cs)"

definition levelFromEnv :: "string \<Rightarrow> Level" where
  "levelFromEnv v =
     (let w = lower_text (TrimSpace v) in
      if w = ''debug'' then LevelDebug
      else if w = ''warn'' \<or> w = ''warning'' then LevelWarn
      else if w = ''error'' then LevelError
      else LevelInfo)"

definition formatFromEnv :: "string \<Rightarrow> OutputFormat" where
  "formatFromEnv v = (if lower_text (TrimSpace v) = ''json'' then FormatJSON else FormatText)"

section \<open>Lines\<close>

definition clock_text :: "tz \<Rightarrow> time \<Rightarrow> string" where
  "clock_text tz t =
     (let c = nat (local_sec tz t mod 86400) in
      two_digits (c div 3600) @ '':'' @ two_digits (c mod 3600 div 60) @ '':'' @ two_digits (c mod 60))"

text \<open>\<^verbatim>\<open>log.Printf\<close> of the standard logger puts the local date and time in front and ends the
  line unless it is ended.\<close>

definition log_Printf :: "tz \<Rightarrow> time \<Rightarrow> string \<Rightarrow> string" where
  "log_Printf tz now msg =
     Format tz now [LongYear, Lit (CHR ''/''), ZeroMonth, Lit (CHR ''/''), ZeroDay] @ '' '' @ clock_text tz now @
     '' '' @ msg @ (if msg \<noteq> '''' \<and> last msg = CHR 0x0A then '''' else newline)"

definition rfc3339_nano :: "tz \<Rightarrow> time \<Rightarrow> string" where
  "rfc3339_nano tz t = Format tz t layout_iso @ ''T'' @ clock_text tz t @ nanos_text (time_nsec t) @
     zone_text (zone_offset (lookup tz (time_loc t) (time_sec t)))"

definition write_line :: "tz \<Rightarrow> time \<Rightarrow> OutputFormat \<Rightarrow> Level \<Rightarrow> string \<Rightarrow> string" where
  "write_line tz now fmt level msg =
     (case fmt of
        FormatJSON \<Rightarrow> json_object [(''time'', json_quote (rfc3339_nano tz (now\<lparr>time_loc := UTC\<rparr>))),
          (''level'', json_quote (Level_String level)), (''msg'', json_quote msg)] @ newline
      | FormatText \<Rightarrow> log_Printf tz now (''['' @ level_tag level @ ''] '' @ msg))"

text \<open>The two package variables, as the first value of \<^verbatim>\<open>var\<close> and then \<^verbatim>\<open>init\<close> set them.\<close>

record logger =
  log_current :: Level
  log_format :: OutputFormat

definition logging_vars :: logger where
  "logging_vars = \<lparr>log_current = LevelInfo, log_format = FormatText\<rparr>"

definition logging_init :: "(string \<Rightarrow> string) \<Rightarrow> logger \<Rightarrow> logger" where
  "logging_init os_Getenv l =
     l\<lparr>log_current := levelFromEnv (os_Getenv ''LOG_LEVEL''), log_format := formatFromEnv (os_Getenv ''LOG_FORMAT'')\<rparr>"

text \<open>With neither variable set, \<^verbatim>\<open>init\<close> changes nothing.\<close>

lemma logging_init_default: "logging_init (\<lambda>_. '''') logging_vars = logging_vars"
proof -
  have "TrimSpace '''' = ''''" by code_simp
  then show ?thesis by (simp add: logging_init_def logging_vars_def levelFromEnv_def formatFromEnv_def)
qed

text \<open>The four functions the program calls; \<open>None\<close> is silence.\<close>

definition DebugEnabled :: "Level \<Rightarrow> bool" where
  "DebugEnabled current \<longleftrightarrow> current \<le> LevelDebug"

fun logf :: "Level \<Rightarrow> OutputFormat \<Rightarrow> tz \<Rightarrow> time \<Rightarrow> Level \<Rightarrow> string \<Rightarrow> string option" where
  "logf current fmt tz now LevelError msg = Some (write_line tz now fmt LevelError msg)"
| "logf current fmt tz now level msg = (if current \<le> level then Some (write_line tz now fmt level msg) else None)"

text \<open>A stricter level writes a subset of the lines, and an error is always among them.\<close>

lemma logf_monotone:
  assumes "a \<le> b" "logf b fmt tz now level msg = Some line" shows "logf a fmt tz now level msg = Some line"
  using assms by (cases level) (auto split: if_splits)

lemma logf_silent: "logf current fmt tz now level msg = None \<longleftrightarrow> level < current"
  by (cases level; cases current) (simp_all add: less_eq_Level_def less_Level_def)

end
