(* ===== verification/Test_Support.thy ===== *)
theory Test_Support
  imports System
begin

text \<open>
  The database of the repository's own tests (\<^verbatim>\<open>internal/testutil/postgres.go\<close>): one container
  for all tests of a package, started once, whose tables are emptied after each test. Docker and
  the container are arguments. The last lemma is what the tests rely on: each
  of them starts from the tables a migration leaves, whatever the tests before it did.
\<close>

section \<open>Starting the container\<close>

definition checkDockerAvailable :: "(string, string option) result \<Rightarrow> string option" where
  "checkDockerAvailable new_provider = (case new_provider of Inl e \<Rightarrow> Some e | Inr health \<Rightarrow> health)"

definition startContainer :: "(string, (string, string) result) result \<Rightarrow> (string \<Rightarrow> string option) \<Rightarrow>
    string option \<Rightarrow> string option \<Rightarrow> string option \<Rightarrow> (string, unit) result" where
  "startContainer container sql_Open ping set_dialect up =
     (case container of
        Inl e \<Rightarrow> Inl (''starting postgres container: '' @ e)
      | Inr connection_string \<Rightarrow>
          (case connection_string of
             Inl e \<Rightarrow> Inl (''getting connection string: '' @ e)
           | Inr dsn \<Rightarrow>
               (case db_New sql_Open ping dsn of
                  Inl e \<Rightarrow> Inl (''connecting to test postgres: '' @ e)
                | Inr _ \<Rightarrow>
                    (case db_Migrate set_dialect up of
                       Inl e \<Rightarrow> Inl (''running migrations against test postgres: '' @ e)
                     | Inr _ \<Rightarrow> Inr ()))))"

section \<open>Emptying the tables\<close>

definition gooseTableName :: string where
  "gooseTableName = ''bt_goose_db_version''"

text \<open>The catalog of the server is an argument: the tables of the schema in some order.\<close>

definition app_tables :: "string list \<Rightarrow> string list dbm" where
  "app_tables catalog = sql (\<lambda>s. (Inr (filter (\<lambda>n. n \<noteq> gooseTableName) catalog), s))"

fun query_names :: "nat \<Rightarrow> string list \<Rightarrow> string" where
  "query_names i [] = ''''"
| "query_names i (tbl # tables) = (if i > 0 then '','' else '''') @ '' '' @ tbl @ query_names (Suc i) tables"

definition truncate_query :: "string list \<Rightarrow> string" where
  "truncate_query tables = ''TRUNCATE TABLE'' @ query_names 0 tables @ '' RESTART IDENTITY CASCADE''"

text \<open>What the server does with the text: the names between the keywords, then table by table
  with everything that refers to it.\<close>

definition query_tables :: "string \<Rightarrow> string list" where
  "query_tables q =
     map tl (Split (TrimSuffix (TrimPrefix q ''TRUNCATE TABLE'') '' RESTART IDENTITY CASCADE'') CHR '','')"

definition clear_dependents :: "db \<Rightarrow> db" where
  "clear_dependents s = s\<lparr>bt_bill_instances := [], seq_instances := 1, bt_vendor_connections := [], seq_vendors := 1\<rparr>"

definition clear_definitions :: "db \<Rightarrow> db" where
  "clear_definitions s = (clear_dependents s)\<lparr>bt_bill_definitions := [], seq_definitions := 1\<rparr>"

definition clear_table :: "string \<Rightarrow> db \<Rightarrow> db" where
  "clear_table n s =
     (if n = ''bt_bill_definitions'' then clear_definitions s
      else if n = ''bt_bill_instances'' then s\<lparr>bt_bill_instances := [], seq_instances := 1\<rparr>
      else if n = ''bt_accounts'' then (clear_definitions s)\<lparr>bt_accounts := [], seq_accounts := 1\<rparr>
      else if n = ''bt_simplefin_connection'' then s\<lparr>bt_simplefin_connection := [], seq_simplefin := 1\<rparr>
      else if n = ''bt_settings'' then s\<lparr>bt_settings := []\<rparr>
      else if n = ''bt_vendor_connections'' then s\<lparr>bt_vendor_connections := [], seq_vendors := 1\<rparr>
      else s)"

definition truncate_stmt :: "string \<Rightarrow> unit dbm" where
  "truncate_stmt q s = (Inr (), fold clear_table (query_tables q) s)"

definition truncateAll :: "string list \<Rightarrow> unit dbm" where
  "truncateAll catalog = andThen (app_tables catalog) (\<lambda>tables s.
     if tables = [] then (Inr (), s) else sql (truncate_stmt (truncate_query tables)) s)"

lemma Split_prefix: "c \<notin> set a \<Longrightarrow> Split (a @ c # b) c = a # Split b c" "c \<notin> set a \<Longrightarrow> Split a c = [a]"
  by (induction a) auto

lemma Split_names:
  "\<forall>n \<in> set tables. CHR '','' \<notin> set n \<Longrightarrow> CHR '','' \<notin> set n \<Longrightarrow>
   Split ('' '' @ n @ query_names (Suc i) tables) CHR '','' = ('' '' @ n) # map (\<lambda>n. '' '' @ n) tables"
proof (induction tables arbitrary: n i)
  case Nil
  then show ?case using Split_prefix(2) [of "CHR '',''" "'' '' @ n"] by simp
next
  case (Cons m tables)
  then show ?case
    using Split_prefix(1) [of "CHR '',''" "'' '' @ n" "'' '' @ m @ query_names (Suc (Suc i)) tables"] by simp
qed

lemma query_tables_names:
  assumes "tables \<noteq> []" "\<forall>n \<in> set tables. CHR '','' \<notin> set n"
  shows "query_tables (truncate_query tables) = tables"
proof (cases tables)
  case (Cons n ns)
  have "Split ('' '' @ n @ query_names (Suc 0) ns) CHR '','' = ('' '' @ n) # map (\<lambda>n. '' '' @ n) ns"
    using assms(2) Cons by (intro Split_names) auto
  then show ?thesis
    unfolding query_tables_def truncate_query_def Cons TrimSuffix_def HasSuffix_def TrimPrefix_def HasPrefix_def
    by (simp add: comp_def)
qed (use assms in simp)

definition app_table_names :: "string list" where
  "app_table_names = [''bt_bill_definitions'', ''bt_bill_instances'', ''bt_accounts'',
     ''bt_simplefin_connection'', ''bt_settings'', ''bt_vendor_connections'']"

definition fresh :: "db \<Rightarrow> bool" where
  "fresh s \<longleftrightarrow> s = empty_db (db_now s) (db_faults s) (pg_message s) (pg_collate s)"

lemmas clear_defs = clear_table_def clear_definitions_def clear_dependents_def

definition cleared :: "db \<Rightarrow> string \<Rightarrow> bool" where
  "cleared s n \<longleftrightarrow>
     (n = ''bt_bill_definitions'' \<longrightarrow> bt_bill_definitions s = [] \<and> seq_definitions s = 1) \<and>
     (n = ''bt_bill_instances'' \<longrightarrow> bt_bill_instances s = [] \<and> seq_instances s = 1) \<and>
     (n = ''bt_accounts'' \<longrightarrow> bt_accounts s = [] \<and> seq_accounts s = 1) \<and>
     (n = ''bt_simplefin_connection'' \<longrightarrow> bt_simplefin_connection s = [] \<and> seq_simplefin s = 1) \<and>
     (n = ''bt_settings'' \<longrightarrow> bt_settings s = []) \<and>
     (n = ''bt_vendor_connections'' \<longrightarrow> bt_vendor_connections s = [] \<and> seq_vendors s = 1)"

lemma fresh_cleared: "fresh s \<longleftrightarrow> (\<forall>n \<in> set app_table_names. cleared s n)"
  by (cases s) (auto simp: fresh_def empty_db_def app_table_names_def cleared_def)

lemma clear_table_clears: "cleared (clear_table n s) n"
  by (simp add: cleared_def clear_defs)

lemma clear_table_keeps: "cleared s n \<Longrightarrow> cleared (clear_table m s) n"
  by (simp add: cleared_def clear_defs)

lemma fold_clear_fresh:
  assumes "set app_table_names \<subseteq> set ns"
  shows "fresh (fold clear_table ns s)"
proof -
  have stays: "cleared s n \<Longrightarrow> cleared (fold clear_table ms s) n" for ms s n
    by (induction ms arbitrary: s) (simp_all add: clear_table_keeps)
  have "n \<in> set ns \<Longrightarrow> cleared (fold clear_table ns s) n" for n
    by (induction ns arbitrary: s) (auto simp: clear_table_clears stays)
  then show ?thesis using assms by (auto simp: fresh_cleared)
qed

lemma truncateAll_fresh:
  assumes "db_faults s = []" "set catalog = insert gooseTableName (set app_table_names)"
  shows "fst (truncateAll catalog s) = Inr ()" "fresh (snd (truncateAll catalog s))"
proof -
  let ?t = "filter (\<lambda>n. n \<noteq> gooseTableName) catalog"
  have t: "set ?t = set app_table_names" using assms(2) by (auto simp: app_table_names_def gooseTableName_def)
  then have ne: "?t \<noteq> []" by (metis app_table_names_def list.distinct(1) set_empty)
  have "\<forall>n \<in> set ?t. CHR '','' \<notin> set n" unfolding t by (simp add: app_table_names_def)
  then have q: "query_tables (truncate_query ?t) = ?t" using ne by (intro query_tables_names) simp_all
  have eq: "truncateAll catalog s = (Inr (), fold clear_table ?t s)"
    using ne q by (simp add: truncateAll_def app_tables_def andThen_def sql_up assms(1) truncate_stmt_def del: filter_empty_conv)
  show "fst (truncateAll catalog s) = Inr ()" unfolding eq by simp
  show "fresh (snd (truncateAll catalog s))" unfolding eq snd_conv by (rule fold_clear_fresh) (simp only: t order_refl)
qed

section \<open>Tests\<close>

text \<open>What the package's tests share is started by the first test that asks for it; the answer,
  the error included, is kept.\<close>

datatype require_outcome = Skipf string | Fatalf string | Migrated db

definition RequireDB :: "string option \<Rightarrow> (string, db) result \<Rightarrow> (string, db) result option \<Rightarrow>
    require_outcome \<times> (string, db) result option" where
  "RequireDB docker start shared =
     (case docker of
        Some e \<Rightarrow> (Skipf (''skipping: docker not available for testcontainers: '' @ e), shared)
      | None \<Rightarrow>
          (let now = (case shared of None \<Rightarrow> start | Some r \<Rightarrow> r) in
           (case now of Inl e \<Rightarrow> Fatalf (''starting shared test postgres: '' @ e) | Inr s \<Rightarrow> Migrated s, Some now)))"

text \<open>A test changes the tables as it likes; the cleanup runs after it.\<close>

definition run_test :: "string list \<Rightarrow> string option \<Rightarrow> (string, db) result \<Rightarrow> (db \<Rightarrow> db) \<Rightarrow>
    (string, db) result option \<Rightarrow> (string, db) result option" where
  "run_test catalog docker start test shared =
     (case RequireDB docker start shared of
        (Migrated s, _) \<Rightarrow> Some (Inr (snd (truncateAll catalog (test s))))
      | (_, shared') \<Rightarrow> shared')"

lemma tests_start_fresh:
  assumes "set catalog = insert gooseTableName (set app_table_names)"
    and "start = Inr s0" "fresh s0" "\<forall>test \<in> set tests. \<forall>s. db_faults (test s) = []"
    and "RequireDB docker start (fold (run_test catalog docker start) tests None) = (Migrated s, shared)"
  shows "fresh s"
proof -
  have "case fold (run_test catalog docker start) tests sh of Some (Inr s) \<Rightarrow> fresh s | Some (Inl e) \<Rightarrow> False | None \<Rightarrow> True"
    if "case sh of Some (Inr s) \<Rightarrow> fresh s | Some (Inl e) \<Rightarrow> False | None \<Rightarrow> True" for sh
    using that assms(4)
  proof (induction tests arbitrary: sh)
    case (Cons test tests)
    have "case run_test catalog docker start test sh of Some (Inr s) \<Rightarrow> fresh s | Some (Inl e) \<Rightarrow> False | None \<Rightarrow> True"
      using Cons.prems truncateAll_fresh(2) [OF _ assms(1)]
      by (auto simp: run_test_def RequireDB_def assms(2) Let_def split: option.splits sum.splits)
    then show ?case using Cons.IH Cons.prems(2) by simp
  qed simp
  from this [of None] show ?thesis
    using assms(3,5) by (auto simp: RequireDB_def assms(2) Let_def split: option.splits sum.splits)
qed

end
