(* ===== verification/Spec2Isabelle.thy ===== *)
theory Spec2Isabelle
  imports Shutdown SimpleFin_Transport Progress Ledger Logging Test_Support
begin

text \<open>
  Bill Tracker, a plugin that shows a household's bills and balances on a kiosk
  (\<^verbatim>\<open>src/\<close> of the repository, written in Go).

  The program keeps six Postgres tables. Bill definitions say when a bill falls due
  (\<^verbatim>\<open>internal/models/bill.go\<close>); the scheduler turns them into dated instances;
  two vendor portals and the SimpleFIN bridge supply amounts and balances
  (\<^verbatim>\<open>internal/connectors\<close>, \<^verbatim>\<open>internal/simplefin\<close>,
  \<^verbatim>\<open>internal/scheduler\<close>); HTTP handlers guarded by a registered bearer token read
  and change the tables (\<^verbatim>\<open>internal/handlers\<close>); at start-up the bills are reconciled with
  \<^verbatim>\<open>bills.json\<close>; \<^verbatim>\<open>internal/release\<close> asks GitHub for newer versions.

  \<^bold>\<open>Theories, from the bottom up.\<close>
  \<^item> \<open>BT_Prelude\<close>: results as sums, stable sorting by a key.
  \<^item> \<open>Go_Calendar\<close>, \<open>Go_Time\<close>: the Gregorian calendar, instants, zones, \<^verbatim>\<open>time.Date\<close> and
    \<^verbatim>\<open>AddDate\<close>; locale \<open>local_calendar\<close> is what the schedule engine needs of a zone.
  \<^item> \<open>Go_Strings\<close>, \<open>Go_Dates\<close>, \<open>Go_Float\<close>, \<open>Json\<close>: what the code uses of \<^verbatim>\<open>strings\<close>,
    \<^verbatim>\<open>strconv\<close>, \<^verbatim>\<open>encoding/hex\<close>, date layouts, \<^verbatim>\<open>float64\<close> (rounding, \<^verbatim>\<open>%.2f\<close>,
    \<^verbatim>\<open>ParseFloat\<close>) and JSON decoding.
  \<^item> \<open>Bill_Schedule\<close>: \<^verbatim>\<open>NextDueDates\<close> (bill.go) against the rule \<open>due_on\<close>, and
    its month loop as a while loop that is proved to end.
  \<^item> \<open>Money\<close>: the three amount parsers, with 64-bit wrap-around.
  \<^item> \<open>Database\<close>, \<open>Bill_Store\<close>, \<open>Connection_Store\<close>: the tables, their constraints, the
    invariant \<open>db_ok\<close>, and every store method of \<^verbatim>\<open>internal/models\<close>; each method
    keeps \<open>db_ok\<close> whichever statement fails. A statement fails by the script of injected faults, by an
    integer parameter outside its column, by a text that is not valid UTF-8 or holds the
    byte 0 (\<open>storing\<close>), or by a constraint. Locale \<open>key_value\<close> is the contract of the settings table.
  \<^item> \<open>Http\<close>: requests, responses, JSON text, templates as arguments.
  \<^item> \<open>Crypto\<close>, \<open>Auth\<close>: \<^verbatim>\<open>util.Encryptor\<close>, \<^verbatim>\<open>Register\<close> and \<^verbatim>\<open>RequireBearerToken\<close>.
  \<^item> \<open>Release\<close>, \<open>Host_Info\<close>: version order, the two GitHub checks, the cache;
    \<^verbatim>\<open>/manifest\<close> and \<^verbatim>\<open>/version\<close>.
  \<^item> \<open>Connectors\<close>: page searches, due dates, both portals and the registry; the copies of the
    searches in the second package are modelled apart and proved to agree with the first.
  \<^item> \<open>SimpleFin\<close>, \<open>SimpleFin_Client\<close>: the dial guard, the token exchange and the balances. The exchange
    is a tree of requests (\<open>exchange\<close>), so that how often the one-shot token is posted can be stated.
  \<^item> \<open>SimpleFin_Transport\<close>: the HTTP client of both exchanges, with redirects, dialling through the guard.
  \<^item> \<open>Scheduler\<close>: the background jobs; locale \<open>job_invariant\<close> is what a property of the
    tables must satisfy to survive every job.
  \<^item> \<open>View\<close>, \<open>Events\<close>: the kiosk page, the calendar feed and the mark-paid action.
  \<^item> \<open>Ledger\<close>: an abstract ledger of what is due and what is paid, which the bill tables refine.
  \<^item> \<open>Settings\<close>: the bill form, the nine actions and the data of the settings page; locale
    \<open>settings_invariant\<close> is what survives every action.
  \<^item> \<open>Config\<close>, \<open>Bootstrap\<close>: environment variables and files, the reconciliation with
    \<^verbatim>\<open>bills.json\<close>; locale \<open>bootstrap_invariant\<close> is what survives it.
  \<^item> \<open>Server\<close>, \<open>System\<close>: the routes with the matching of \<^verbatim>\<open>http.ServeMux\<close>, and the process as
    a step relation over requests, loops of the scheduler, background refreshes, changes
    of the environment, crashes (a non-positive interval, the listener, a start-up that fails) and restarts. Locale \<open>system_invariant\<close> joins the three contracts
    above: a property proved for the store methods holds in every state the process reaches.
  \<^item> \<open>Progress\<close>: what a run of the process gets done: due days get recorded and stay recorded.
  \<^item> \<open>Programs\<close>: the handlers and jobs once more, as programs (\<open>prog\<close>) that send one store call
    after the other; run with nothing in between they are the functions of the theories above.
  \<^item> \<open>Threads\<close>: a pool of such programs whose store calls interleave one by one (\<open>act\<close>), with restarts
    (\<open>turn\<close>). Locale \<open>threads_invariant\<close> carries the contracts of \<open>System\<close> over to every
    interleaving; \<open>rely\<close> is what a program may trust about the others. A statement may also take
    effect while its thread is told that it failed (\<open>lost\<close>).
  \<^item> \<open>Shutdown\<close>: the life of the process around the pool (\<open>life\<close>): connections, the failing listener, the
    signal, the cancelled jobs, whose statement in flight may still commit, and the wait for the requests
    under way. Every step is made of steps of the pool; the wait ends by a well-founded measure of what the requests have left to do.
  \<^item> \<open>Test_Support\<close>: the database of the repository's own tests.
  \<^item> \<open>Logging\<close>: levels, formats and the line a call writes.

  \<^bold>\<open>How the model corresponds to the code.\<close> A store method is a function on the
  tables that answers an error or a value together with the new tables; a failing
  statement is an entry of the script \<open>db_faults\<close>, over which the theorems quantify. A
  handler maps a request and the tables to a response and the tables; an action of
  the settings page answers its message, and a goroutine it starts is counted in the
  server's state and runs as a step of its own. Other servers, the HTML and URL
  parsers, the JSON syntax, the resolver, AES-GCM, randomness, the file system and
  the HTML templates are arguments; what is assumed of them is a named hypothesis. Loops over
  lists are structural recursion, the month loop of the schedule engine has a
  termination proof and is also given as a partial function that returns \<open>None\<close> if it ran
  forever, which the theorem \<open>NextDueDates_returns\<close> excludes; the page loop over GitHub's tags carries its own bound of ten pages.

  \<^bold>\<open>What the theorems show.\<close> The schedule engine and the generator produce exactly the days
  the rules call for; the tables stay well-formed and payments stay recorded through
  any interleaving of the statements of handlers, jobs and restarts, and the managed bills are
  safe from the settings page even so; while the generator ticks often enough no due day is missed; a
  shutdown answers every request and ends; the SimpleFIN client never connects to an internal address; nothing changes without a
  token or the connection secret; the settings page and \<^verbatim>\<open>bills.json\<close> keep to their own
  bills; amounts, dates, versions and configuration survive their round trips; a
  failing portal, bridge or database leaves what was known in place.

  \<^bold>\<open>Not modelled.\<close> What each handler and job logs, timeouts, the connection pool and the migration
  runner, the content of the HTML templates and their embedding, and
  which connection the listener accepts when. The texts of errors of \<^verbatim>\<open>time.Parse\<close> and of JSON decoding
  are shortened. A date or time outside what Postgres can hold is not refused by the model, and the URL
  with its query that \<^verbatim>\<open>FetchAccounts\<close> prints from a parsed one is taken to parse again. In an interleaving a store call is one step, a transaction included, as the
  server isolates it; the clock and the answers of other servers are fixed when a
  request or job starts, and the reconciliation with \<^verbatim>\<open>bills.json\<close> runs in one piece
  because the server and the scheduler start after it. A job that is cancelled, or a request whose
  client goes away, is one whose further statements fail; what it had asked a portal is answered as before.
\<close>

end
